theory Spec2Isabelle
  imports Complex_Main
begin

section \<open>Discrete elastic rods: a shallow embedding of DER.py\<close>

text \<open>
  The simulator works on numpy arrays of float64. The embedding reads every array
  entry as a real number, so that \<open>+\<close>, \<open>*\<close>, \<open>/\<close>, \<open>sqrt\<close>, \<open>cos\<close> and \<open>sin\<close> are
  the exact operations; rounding is outside the model. Where numpy would divide by zero
  and continue with \<open>inf\<close> or \<open>nan\<close>, HOL's total division gives \<open>x / 0 = 0\<close>;
  the theorems below carry the side conditions (distinct nodes, positive lengths) that keep
  the code away from such divisions whenever the value of the quotient matters.

  A 3-vector (an array of shape \<open>(3,)\<close>) is a triple of reals, an array of shape
  \<open>(ne, 3)\<close> a list of such triples, a one-dimensional array a list of reals, and a
  two-dimensional array a function from row and column index to the entry.
\<close>

subsection \<open>3-vectors\<close>

type_synonym vec3 = "real \<times> real \<times> real"

fun dot :: "vec3 \<Rightarrow> vec3 \<Rightarrow> real" where
  "dot (a0, a1, a2) (b0, b1, b2) = a0 * b0 + a1 * b1 + a2 * b2"

fun cross :: "vec3 \<Rightarrow> vec3 \<Rightarrow> vec3" where
  "cross (a0, a1, a2) (b0, b1, b2) =
     (a1 * b2 - a2 * b1, a2 * b0 - a0 * b2, a0 * b1 - a1 * b0)"

fun vadd :: "vec3 \<Rightarrow> vec3 \<Rightarrow> vec3" where
  "vadd (a0, a1, a2) (b0, b1, b2) = (a0 + b0, a1 + b1, a2 + b2)"

fun vsub :: "vec3 \<Rightarrow> vec3 \<Rightarrow> vec3" where
  "vsub (a0, a1, a2) (b0, b1, b2) = (a0 - b0, a1 - b1, a2 - b2)"

fun smul :: "real \<Rightarrow> vec3 \<Rightarrow> vec3" where
  "smul c (a0, a1, a2) = (c * a0, c * a1, c * a2)"

fun vdiv :: "vec3 \<Rightarrow> real \<Rightarrow> vec3" where
  "vdiv (a0, a1, a2) c = (a0 / c, a1 / c, a2 / c)"

fun vneg :: "vec3 \<Rightarrow> vec3" where
  "vneg (a0, a1, a2) = (- a0, - a1, - a2)"

text \<open>\<open>np.linalg.norm\<close> of a 3-vector: the Euclidean length.\<close>

definition norm3 :: "vec3 \<Rightarrow> real" where
  "norm3 v = sqrt (dot v v)"

text \<open>Entry \<open>i\<close> of a 3-vector, for \<open>i\<close> in \<open>0, 1, 2\<close>.\<close>

fun vnth :: "vec3 \<Rightarrow> nat \<Rightarrow> real" where
  "vnth (a0, a1, a2) i = (if i = 0 then a0 else if i = 1 then a1 else a2)"

definition vlist :: "vec3 \<Rightarrow> real list" where
  "vlist v = [vnth v 0, vnth v 1, vnth v 2]"

subsection \<open>Geometry primitives\<close>

text \<open>
  \<open>np.arctan2(y, x)\<close> on reals: the angle of the point \<open>(x, y)\<close> in \<open>(-pi, pi]\<close>.
\<close>

definition arctan2 :: "real \<Rightarrow> real \<Rightarrow> real" where
  "arctan2 y x =
     (if 0 < x then arctan (y / x)
      else if x < 0 then (if 0 \<le> y then arctan (y / x) + pi else arctan (y / x) - pi)
      else if 0 < y then pi / 2
      else if y < 0 then - (pi / 2)
      else 0)"

definition signedAngle :: "vec3 \<Rightarrow> vec3 \<Rightarrow> vec3 \<Rightarrow> real" where
  "signedAngle u v n =
     (let w = cross u v;
          angle = arctan2 (norm3 w) (dot u v)
      in if dot n w < 0 then - angle else angle)"

definition rotateAxisAngle :: "vec3 \<Rightarrow> vec3 \<Rightarrow> real \<Rightarrow> vec3" where
  "rotateAxisAngle v z theta =
     (if theta = 0 then v
      else let c = cos theta; s = sin theta
           in vadd (vadd (smul c v) (smul s (cross z v))) (smul (dot z v * (1 - c)) z))"

definition parallel_transport :: "vec3 \<Rightarrow> vec3 \<Rightarrow> vec3 \<Rightarrow> vec3" where
  "parallel_transport u t1 t2 =
     (let b = cross t1 t2
      in if norm3 b = 0 then u
         else let b = vdiv b (norm3 b);
                  b = vsub b (smul (dot b t1) t1);
                  b = vdiv b (norm3 b);
                  b = vsub b (smul (dot b t2) t2);
                  b = vdiv b (norm3 b);
                  n1 = cross t1 b;
                  n2 = cross t2 b
              in vadd (vadd (smul (dot u t1) t2) (smul (dot u n1) n2)) (smul (dot u b) b))"

text \<open>\<open>crossMat(a)\<close>: the skew matrix of \<open>a\<close>, a 3x3 array.\<close>

definition crossMat :: "vec3 \<Rightarrow> nat \<Rightarrow> nat \<Rightarrow> real" where
  "crossMat a i j =
     (if i = 0 then (if j = 0 then 0 else if j = 1 then - vnth a 2 else vnth a 1)
      else if i = 1 then (if j = 0 then vnth a 2 else if j = 1 then 0 else - vnth a 0)
      else (if j = 0 then - vnth a 1 else if j = 1 then vnth a 0 else 0))"

subsection \<open>Arrays\<close>

type_synonym mat = "nat \<Rightarrow> nat \<Rightarrow> real"

text \<open>\<open>np.zeros((n, n))\<close>, \<open>np.eye(3)\<close>, \<open>np.outer\<close> and \<open>np.transpose\<close>.\<close>

definition zeros_mat :: mat where
  "zeros_mat i j = 0"

definition Id3 :: mat where
  "Id3 i j = (if i = j then 1 else 0)"

definition outer :: "vec3 \<Rightarrow> vec3 \<Rightarrow> mat" where
  "outer a b i j = vnth a i * vnth b j"

definition transpose_mat :: "mat \<Rightarrow> mat" where
  "transpose_mat A i j = A j i"

definition madd :: "mat \<Rightarrow> mat \<Rightarrow> mat" where
  "madd A B i j = A i j + B i j"

definition msub :: "mat \<Rightarrow> mat \<Rightarrow> mat" where
  "msub A B i j = A i j - B i j"

definition mneg :: "mat \<Rightarrow> mat" where
  "mneg A i j = - A i j"

definition mscale :: "real \<Rightarrow> mat \<Rightarrow> mat" where
  "mscale c A i j = c * A i j"

definition mdivs :: "mat \<Rightarrow> real \<Rightarrow> mat" where
  "mdivs A c i j = A i j / c"

text \<open>
  Slice assignments: \<open>A[r:r+3, c:c+3] = B\<close> for a 3x3 block, \<open>A[r:r+3, c] = v\<close> for
  a piece of a column, \<open>A[r, c:c+3] = v\<close> for a piece of a row, \<open>A[r, c] = x\<close> for
  one entry, and \<open>xs[k:k+3] = v\<close> on a one-dimensional array.
\<close>

definition set_block :: "nat \<Rightarrow> nat \<Rightarrow> mat \<Rightarrow> mat \<Rightarrow> mat" where
  "set_block r c B A i j =
     (if r \<le> i \<and> i < r + 3 \<and> c \<le> j \<and> j < c + 3 then B (i - r) (j - c) else A i j)"

definition set_col3 :: "nat \<Rightarrow> nat \<Rightarrow> vec3 \<Rightarrow> mat \<Rightarrow> mat" where
  "set_col3 r c v A i j =
     (if r \<le> i \<and> i < r + 3 \<and> j = c then vnth v (i - r) else A i j)"

definition set_row3 :: "nat \<Rightarrow> nat \<Rightarrow> vec3 \<Rightarrow> mat \<Rightarrow> mat" where
  "set_row3 r c v A i j =
     (if i = r \<and> c \<le> j \<and> j < c + 3 then vnth v (j - c) else A i j)"

definition set_entry :: "nat \<Rightarrow> nat \<Rightarrow> real \<Rightarrow> mat \<Rightarrow> mat" where
  "set_entry r c x A i j = (if i = r \<and> j = c then x else A i j)"

definition set_slice3 :: "nat \<Rightarrow> vec3 \<Rightarrow> real list \<Rightarrow> real list" where
  "set_slice3 k v xs = xs[k := vnth v 0, k + 1 := vnth v 1, k + 2 := vnth v 2]"

text \<open>
  The slice \<open>q[k:k+3]\<close> of a one-dimensional array. Every slice the code takes lies
  inside its array: of a DOF vector \<open>q\<close> the largest index read for edge \<open>c\<close> of
  \<open>(len(q)+1) div 4 - 1\<close> edges is \<open>4*c + 6 \<le> len(q) - 1\<close>.
\<close>

definition slice3 :: "real list \<Rightarrow> nat \<Rightarrow> vec3" where
  "slice3 q k = (q ! k, q ! (k + 1), q ! (k + 2))"

text \<open>A vector times a scalar on its right, as in \<open>EA * tangent * epsX\<close>.\<close>

fun vmuls :: "vec3 \<Rightarrow> real \<Rightarrow> vec3" where
  "vmuls (a0, a1, a2) c = (a0 * c, a1 * c, a2 * c)"

subsection \<open>Stretching energy of one edge\<close>

definition gradEs_hessEs :: "vec3 \<Rightarrow> vec3 \<Rightarrow> real \<Rightarrow> real \<Rightarrow> real list \<times> mat" where
  "gradEs_hessEs node0 node1 l_k EA =
     (let edge = vsub node1 node0;
          edgeLen = norm3 edge;
          tangent = vdiv edge edgeLen;
          epsX = edgeLen / l_k - 1;
          dF_unit = vmuls (smul EA tangent) epsX;
          dF = replicate 6 0;
          dF = set_slice3 0 (vneg dF_unit) dF;
          dF = set_slice3 3 dF_unit dF;
          M = mscale EA (madd (mscale (1 / l_k - 1 / edgeLen) Id3)
                (mdivs (mscale (1 / edgeLen) (outer edge edge)) (edgeLen ^ 2)));
          dJ = zeros_mat;
          dJ = set_block 0 0 M dJ;
          dJ = set_block 3 3 M dJ;
          dJ = set_block 0 3 (mneg M) dJ;
          dJ = set_block 3 0 (mneg M) dJ
      in (dF, dJ))"

subsection \<open>Curvature at an interior node\<close>

definition computekappa :: "vec3 \<Rightarrow> vec3 \<Rightarrow> vec3 \<Rightarrow> vec3 \<Rightarrow> vec3 \<Rightarrow> vec3 \<Rightarrow> vec3
    \<Rightarrow> real \<times> real" where
  "computekappa node0 node1 node2 m1e m2e m1f m2f =
     (let t0 = vdiv (vsub node1 node0) (norm3 (vsub node1 node0));
          t1 = vdiv (vsub node2 node1) (norm3 (vsub node2 node1));
          kb = vdiv (smul 2 (cross t0 t1)) (1 + dot t0 t1);
          kappa1 = 0.5 * dot kb (vadd m2e m2f);
          kappa2 = - 0.5 * dot kb (vadd m1e m1f)
      in (kappa1, kappa2))"

subsection \<open>Bending energy at an interior node\<close>

text \<open>
  One-dimensional arrays of eleven entries: a scalar times an array, the sum of two
  arrays and \<open>np.outer\<close>. \<open>col3 A r c\<close> is the slice \<open>A[r:r+3, c]\<close>.
\<close>

definition lscale :: "real \<Rightarrow> real list \<Rightarrow> real list" where
  "lscale c xs = map (\<lambda>x. c * x) xs"

definition ladd :: "real list \<Rightarrow> real list \<Rightarrow> real list" where
  "ladd xs ys = map (\<lambda>(x, y). x + y) (zip xs ys)"

definition louter :: "real list \<Rightarrow> real list \<Rightarrow> mat" where
  "louter xs ys i j = xs ! i * ys ! j"

definition col3 :: "mat \<Rightarrow> nat \<Rightarrow> nat \<Rightarrow> vec3" where
  "col3 A r c = (A r c, A (r + 1) c, A (r + 2) c)"

text \<open>
  The 11x11 Hessian of one curvature. The source fills \<open>DDkappa1\<close> and \<open>DDkappa2\<close>
  by the same sequence of slice assignments, once with the derivatives of \<open>kappa1\<close> and
  once with those of \<open>kappa2\<close>; \<open>fill_DDkappa\<close> is that sequence, in the order of the
  source. The rows 3 and 7 are copied from the columns 3 and 7 of the array as it stands.
\<close>

definition fill_DDkappa :: "mat \<Rightarrow> mat \<Rightarrow> mat \<Rightarrow> mat \<Rightarrow> real \<Rightarrow> real
    \<Rightarrow> vec3 \<Rightarrow> vec3 \<Rightarrow> vec3 \<Rightarrow> vec3 \<Rightarrow> mat" where
  "fill_DDkappa De2 Df2 DfDe DeDf Dthetae2 Dthetaf2 DeDthetae DfDthetae DeDthetaf DfDthetaf =
     (let DD = zeros_mat;
          DD = set_block 0 0 De2 DD;
          DD = set_block 0 4 (madd (mneg De2) DfDe) DD;
          DD = set_block 0 8 (mneg DfDe) DD;
          DD = set_block 4 0 (madd (mneg De2) DeDf) DD;
          DD = set_block 4 4 (madd (msub (msub De2 DeDf) DfDe) Df2) DD;
          DD = set_block 4 8 (msub DfDe Df2) DD;
          DD = set_block 8 0 (mneg DeDf) DD;
          DD = set_block 8 4 (msub DeDf Df2) DD;
          DD = set_block 8 8 Df2 DD;
          DD = set_entry 3 3 Dthetae2 DD;
          DD = set_entry 7 7 Dthetaf2 DD;
          DD = set_col3 0 3 (vneg DeDthetae) DD;
          DD = set_col3 4 3 (vsub DeDthetae DfDthetae) DD;
          DD = set_col3 8 3 DfDthetae DD;
          DD = set_row3 3 0 (col3 DD 0 3) DD;
          DD = set_row3 3 4 (col3 DD 4 3) DD;
          DD = set_row3 3 8 (col3 DD 8 3) DD;
          DD = set_col3 0 7 (vneg DeDthetaf) DD;
          DD = set_col3 4 7 (vsub DeDthetaf DfDthetaf) DD;
          DD = set_col3 8 7 DfDthetaf DD;
          DD = set_row3 7 0 (col3 DD 0 7) DD;
          DD = set_row3 7 4 (col3 DD 4 7) DD;
          DD = set_row3 7 8 (col3 DD 8 7) DD
      in DD)"

text \<open>
  \<open>gradEb_hessEb\<close>. The last argument is \<open>EI2\<close>, \<open>None\<close> when the caller leaves
  it out. \<open>kappaBar\<close> is the pair of natural curvatures of the node.
\<close>

definition gradEb_hessEb :: "vec3 \<Rightarrow> vec3 \<Rightarrow> vec3 \<Rightarrow> vec3 \<Rightarrow> vec3 \<Rightarrow> vec3 \<Rightarrow> vec3
    \<Rightarrow> real \<times> real \<Rightarrow> real \<Rightarrow> real \<Rightarrow> real option \<Rightarrow> real list \<times> mat" where
  "gradEb_hessEb node0 node1 node2 m1e m2e m1f m2f kappaBar l_k EI1 EI2opt =
     (let EI2 = (case EI2opt of None \<Rightarrow> EI1 | Some x \<Rightarrow> x);
          ee = vsub node1 node0;
          ef = vsub node2 node1;
          norm_e = norm3 ee;
          norm_f = norm3 ef;
          te = vdiv ee norm_e;
          tf = vdiv ef norm_f;
          kb = vdiv (smul 2 (cross te tf)) (1 + dot te tf);
          chi = 1 + dot te tf;
          tilde_t = vdiv (vadd te tf) chi;
          tilde_d1 = vdiv (vadd m1e m1f) chi;
          tilde_d2 = vdiv (vadd m2e m2f) chi;
          kappa1 = 0.5 * dot kb (vadd m2e m2f);
          kappa2 = - 0.5 * dot kb (vadd m1e m1f);
          Dkappa1De = smul (1 / norm_e) (vadd (smul (- kappa1) tilde_t) (cross tf tilde_d2));
          Dkappa1Df = smul (1 / norm_f) (vsub (smul (- kappa1) tilde_t) (cross te tilde_d2));
          Dkappa2De = smul (1 / norm_e) (vsub (smul (- kappa2) tilde_t) (cross tf tilde_d1));
          Dkappa2Df = smul (1 / norm_f) (vadd (smul (- kappa2) tilde_t) (cross te tilde_d1));
          gradKappa_1 = replicate 11 0;
          gradKappa_1 = set_slice3 0 (vneg Dkappa1De) gradKappa_1;
          gradKappa_1 = set_slice3 4 (vsub Dkappa1De Dkappa1Df) gradKappa_1;
          gradKappa_1 = set_slice3 8 Dkappa1Df gradKappa_1;
          gradKappa_2 = replicate 11 0;
          gradKappa_2 = set_slice3 0 (vneg Dkappa2De) gradKappa_2;
          gradKappa_2 = set_slice3 4 (vsub Dkappa2De Dkappa2Df) gradKappa_2;
          gradKappa_2 = set_slice3 8 Dkappa2Df gradKappa_2;
          gradKappa_1 = gradKappa_1[3 := - 0.5 * dot kb m1e];
          gradKappa_1 = gradKappa_1[7 := - 0.5 * dot kb m1f];
          gradKappa_2 = gradKappa_2[3 := - 0.5 * dot kb m2e];
          gradKappa_2 = gradKappa_2[7 := - 0.5 * dot kb m2f];
          norm2_e = norm_e ^ 2;
          norm2_f = norm_f ^ 2;
          tt_o_tt = outer tilde_t tilde_t;
          tf_c_d2t_o_tt = outer (cross tf tilde_d2) tilde_t;
          tt_o_tf_c_d2t = transpose_mat tf_c_d2t_o_tt;
          kb_o_d2e = outer kb m2e;
          te_o_te = outer te te;
          D2kappa1De2 =
            madd (msub (mscale (1 / norm2_e)
                          (msub (msub (mscale (2 * kappa1) tt_o_tt) tf_c_d2t_o_tt) tt_o_tf_c_d2t))
                       (mscale (kappa1 / (chi * norm2_e)) (msub Id3 te_o_te)))
                 (mscale (1 / (2 * norm2_e)) kb_o_d2e);
          te_c_d2t_o_tt = outer (cross te tilde_d2) tilde_t;
          tt_o_te_c_d2t = transpose_mat te_c_d2t_o_tt;
          kb_o_d2f = outer kb m2f;
          tf_o_tf = outer tf tf;
          D2kappa1Df2 =
            madd (msub (mscale (1 / norm2_f)
                          (madd (madd (mscale (2 * kappa1) tt_o_tt) te_c_d2t_o_tt) tt_o_te_c_d2t))
                       (mscale (kappa1 / (chi * norm2_f)) (msub Id3 tf_o_tf)))
                 (mscale (1 / (2 * norm2_f)) kb_o_d2f);
          te_o_tf = outer te tf;
          D2kappa1DfDe =
            madd (mscale (- kappa1 / (chi * norm_e * norm_f)) (madd Id3 te_o_tf))
                 (mscale (1 / (norm_e * norm_f))
                    (msub (madd (msub (mscale (2 * kappa1) tt_o_tt) tf_c_d2t_o_tt) tt_o_te_c_d2t)
                          (crossMat tilde_d2)));
          D2kappa1DeDf = transpose_mat D2kappa1DfDe;
          tf_c_d1t_o_tt = outer (cross tf tilde_d1) tilde_t;
          tt_o_tf_c_d1t = transpose_mat tf_c_d1t_o_tt;
          kb_o_d1e = outer kb m1e;
          D2kappa2De2 =
            msub (msub (mscale (1 / norm2_e)
                          (madd (madd (mscale (2 * kappa2) tt_o_tt) tf_c_d1t_o_tt) tt_o_tf_c_d1t))
                       (mscale (kappa2 / (chi * norm2_e)) (msub Id3 te_o_te)))
                 (mscale (1 / (2 * norm2_e)) kb_o_d1e);
          te_c_d1t_o_tt = outer (cross te tilde_d1) tilde_t;
          tt_o_te_c_d1t = transpose_mat te_c_d1t_o_tt;
          kb_o_d1f = outer kb m1f;
          D2kappa2Df2 =
            msub (msub (mscale (1 / norm2_f)
                          (msub (msub (mscale (2 * kappa2) tt_o_tt) te_c_d1t_o_tt) tt_o_te_c_d1t))
                       (mscale (kappa2 / (chi * norm2_f)) (msub Id3 tf_o_tf)))
                 (mscale (1 / (2 * norm2_f)) kb_o_d1f);
          D2kappa2DfDe =
            madd (mscale (- kappa2 / (chi * norm_e * norm_f)) (madd Id3 te_o_tf))
                 (mscale (1 / (norm_e * norm_f))
                    (madd (msub (madd (mscale (2 * kappa2) tt_o_tt) tf_c_d1t_o_tt) tt_o_te_c_d1t)
                          (crossMat tilde_d1)));
          D2kappa2DeDf = transpose_mat D2kappa2DfDe;
          D2kappa1Dthetae2 = - 0.5 * dot kb m2e;
          D2kappa1Dthetaf2 = - 0.5 * dot kb m2f;
          D2kappa2Dthetae2 = 0.5 * dot kb m1e;
          D2kappa2Dthetaf2 = 0.5 * dot kb m1f;
          D2kappa1DeDthetae = smul (1 / norm_e)
            (vsub (smul (0.5 * dot kb m1e) tilde_t) (smul (1 / chi) (cross tf m1e)));
          D2kappa1DeDthetaf = smul (1 / norm_e)
            (vsub (smul (0.5 * dot kb m1f) tilde_t) (smul (1 / chi) (cross tf m1f)));
          D2kappa1DfDthetae = smul (1 / norm_f)
            (vadd (smul (0.5 * dot kb m1e) tilde_t) (smul (1 / chi) (cross te m1e)));
          D2kappa1DfDthetaf = smul (1 / norm_f)
            (vadd (smul (0.5 * dot kb m1f) tilde_t) (smul (1 / chi) (cross te m1f)));
          D2kappa2DeDthetae = smul (1 / norm_e)
            (vsub (smul (0.5 * dot kb m2e) tilde_t) (smul (1 / chi) (cross tf m2e)));
          D2kappa2DeDthetaf = smul (1 / norm_e)
            (vsub (smul (0.5 * dot kb m2f) tilde_t) (smul (1 / chi) (cross tf m2f)));
          D2kappa2DfDthetae = smul (1 / norm_f)
            (vadd (smul (0.5 * dot kb m2e) tilde_t) (smul (1 / chi) (cross te m2e)));
          D2kappa2DfDthetaf = smul (1 / norm_f)
            (vadd (smul (0.5 * dot kb m2f) tilde_t) (smul (1 / chi) (cross te m2f)));
          DDkappa1 = fill_DDkappa D2kappa1De2 D2kappa1Df2 D2kappa1DfDe D2kappa1DeDf
                       D2kappa1Dthetae2 D2kappa1Dthetaf2
                       D2kappa1DeDthetae D2kappa1DfDthetae D2kappa1DeDthetaf D2kappa1DfDthetaf;
          DDkappa2 = fill_DDkappa D2kappa2De2 D2kappa2Df2 D2kappa2DfDe D2kappa2DeDf
                       D2kappa2Dthetae2 D2kappa2Dthetaf2
                       D2kappa2DeDthetae D2kappa2DfDthetae D2kappa2DeDthetaf D2kappa2DfDthetaf;
          dE_dKappa1 = EI1 / l_k * (kappa1 - fst kappaBar);
          dE_dKappa2 = EI2 / l_k * (kappa2 - snd kappaBar);
          d2E_dKappa11 = EI1 / l_k;
          d2E_dKappa22 = EI2 / l_k;
          dF = ladd (lscale dE_dKappa1 gradKappa_1) (lscale dE_dKappa2 gradKappa_2);
          dJ = madd (madd (madd (mscale dE_dKappa1 DDkappa1) (mscale dE_dKappa2 DDkappa2))
                          (mscale d2E_dKappa11 (louter gradKappa_1 gradKappa_1)))
                    (mscale d2E_dKappa22 (louter gradKappa_2 gradKappa_2))
      in (dF, dJ))"

subsection \<open>Twisting energy at an interior node\<close>

definition gradEt_hessEt :: "vec3 \<Rightarrow> vec3 \<Rightarrow> vec3 \<Rightarrow> real \<Rightarrow> real \<Rightarrow> real \<Rightarrow> real
    \<Rightarrow> real \<Rightarrow> real \<Rightarrow> real list \<times> mat" where
  "gradEt_hessEt node0 node1 node2 theta_e theta_f refTwist twistBar l_k GJ =
     (let gradTwist = replicate 11 0;
          ee = vsub node1 node0;
          ef = vsub node2 node1;
          norm_e = norm3 ee;
          norm_f = norm3 ef;
          norm2_e = norm_e ^ 2;
          norm2_f = norm_f ^ 2;
          te = vdiv ee norm_e;
          tf = vdiv ef norm_f;
          kb = vdiv (smul 2 (cross te tf)) (1 + dot te tf);
          gradTwist = set_slice3 0 (smul (- 0.5 / norm_e) kb) gradTwist;
          gradTwist = set_slice3 8 (smul (0.5 / norm_f) kb) gradTwist;
          gradTwist = set_slice3 4 (vneg (vadd (slice3 gradTwist 0) (slice3 gradTwist 8))) gradTwist;
          gradTwist = gradTwist[3 := - 1];
          gradTwist = gradTwist[7 := 1];
          chi = 1 + dot te tf;
          tilde_t = vdiv (vadd te tf) chi;
          D2mDe2 = mscale (- 0.5 / norm2_e)
                     (madd (outer kb (vadd te tilde_t)) (mscale (2 / chi) (crossMat tf)));
          D2mDf2 = mscale (- 0.5 / norm2_f)
                     (msub (outer kb (vadd tf tilde_t)) (mscale (2 / chi) (crossMat te)));
          D2mDfDe = mscale (0.5 / (norm_e * norm_f))
                      (msub (mscale (2 / chi) (crossMat te)) (outer kb tilde_t));
          D2mDeDf = mscale (0.5 / (norm_e * norm_f))
                      (msub (mscale (- 2 / chi) (crossMat tf)) (outer kb tilde_t));
          DDtwist = zeros_mat;
          DDtwist = set_block 0 0 D2mDe2 DDtwist;
          DDtwist = set_block 0 4 (madd (mneg D2mDe2) D2mDfDe) DDtwist;
          DDtwist = set_block 4 0 (madd (mneg D2mDe2) D2mDeDf) DDtwist;
          DDtwist = set_block 4 4 (madd (msub D2mDe2 (madd D2mDeDf D2mDfDe)) D2mDf2) DDtwist;
          DDtwist = set_block 0 8 (mneg D2mDfDe) DDtwist;
          DDtwist = set_block 8 0 (mneg D2mDeDf) DDtwist;
          DDtwist = set_block 8 4 (msub D2mDeDf D2mDf2) DDtwist;
          DDtwist = set_block 4 8 (msub D2mDfDe D2mDf2) DDtwist;
          DDtwist = set_block 8 8 D2mDf2 DDtwist;
          integratedTwist = theta_f - theta_e + refTwist - twistBar;
          dE_dTau = GJ / l_k * integratedTwist;
          d2E_dTau2 = GJ / l_k;
          dF = lscale dE_dTau gradTwist;
          dJ = madd (mscale dE_dTau DDtwist) (mscale d2E_dTau2 (louter gradTwist gradTwist))
      in (dF, dJ))"

subsection \<open>Exceptions, indexing and loops\<close>

text \<open>
  A Python exception is a value: \<open>Inl e\<close> is "raised \<open>e\<close>", \<open>Inr x\<close> is "returned
  \<open>x\<close>". The loops over edges and nodes stop at the first exception.
\<close>

datatype error = IndexError | ValueError | LinAlgError | UnboundLocalError

definition bindE :: "error + 'a \<Rightarrow> ('a \<Rightarrow> error + 'b) \<Rightarrow> error + 'b" where
  "bindE m f = (case m of Inl e \<Rightarrow> Inl e | Inr x \<Rightarrow> f x)"

text \<open>\<open>xs[c]\<close> for an index \<open>c \<ge> 0\<close>: IndexError beyond the end.\<close>

definition nth_err :: "'a list \<Rightarrow> nat \<Rightarrow> error + 'a" where
  "nth_err xs c = (if c < length xs then Inr (xs ! c) else Inl IndexError)"

fun foldE :: "('a \<Rightarrow> 's \<Rightarrow> error + 's) \<Rightarrow> 'a list \<Rightarrow> 's \<Rightarrow> error + 's" where
  "foldE f [] s = Inr s"
| "foldE f (x # xs) s = bindE (f x s) (foldE f xs)"

text \<open>
  The number of edges that the functions read off the length of a DOF vector:
  \<open>int((len(q)+1)/4 - 1)\<close>, and \<open>int((ndof+1)/4) - 1\<close> as the bound of a
  \<open>range\<close>. Both run the loop \<open>(len(q)+1) div 4 - 1\<close> times, and not at all for
  fewer than seven entries, which is the truncated subtraction of \<open>nat\<close>.
\<close>

definition ne_of :: "real list \<Rightarrow> nat" where
  "ne_of q = (length q + 1) div 4 - 1"

text \<open>
  Scattering a local gradient and Hessian into the global arrays: \<open>F[ind] -= dF\<close> and
  \<open>J[np.ix_(ind, ind)] -= dJ\<close>. Entry \<open>ind[k]\<close> of \<open>F\<close> loses \<open>dF[k]\<close>, entry
  \<open>(ind[a], ind[b])\<close> of \<open>J\<close> loses \<open>dJ[a, b]\<close>, every other entry stays. The index
  lists of the code are duplicate free and inside the arrays; for a repeated index numpy
  keeps the last write, which \<open>pos_of\<close> follows.
\<close>

definition pos_of :: "nat list \<Rightarrow> nat \<Rightarrow> nat option" where
  "pos_of ind i =
     (case filter (\<lambda>k. ind ! k = i) [0..<length ind] of
        [] \<Rightarrow> None
      | k # ks \<Rightarrow> Some (last (k # ks)))"

definition sub_at :: "nat list \<Rightarrow> real list \<Rightarrow> real list \<Rightarrow> real list" where
  "sub_at ind dF F =
     map (\<lambda>i. case pos_of ind i of None \<Rightarrow> F ! i | Some k \<Rightarrow> F ! i - dF ! k) [0..<length F]"

definition sub_ix :: "nat list \<Rightarrow> mat \<Rightarrow> mat \<Rightarrow> mat" where
  "sub_ix ind dJ J i j =
     (case (pos_of ind i, pos_of ind j) of
        (Some a, Some b) \<Rightarrow> J i j - dJ a b
      | _ \<Rightarrow> J i j)"

subsection \<open>Tangents and reference frames\<close>

definition computeTangent :: "real list \<Rightarrow> vec3 list" where
  "computeTangent q =
     map (\<lambda>c. let dx = vsub (slice3 q (4 * c + 4)) (slice3 q (4 * c))
              in vdiv dx (norm3 dx))
         [0..<ne_of q]"

text \<open>
  \<open>computeSpaceParallel\<close>. The loop carries the director \<open>d1_first\<close> and the previous
  tangent \<open>t0\<close> from edge to edge and writes row \<open>c\<close> of \<open>d1\<close> and \<open>d2\<close>. Writing
  row 0 of an array without rows (a rod without edges) raises IndexError.
\<close>

definition space_step :: "vec3 list \<Rightarrow> nat \<Rightarrow> vec3 \<times> vec3 \<times> vec3 list \<times> vec3 list
    \<Rightarrow> vec3 \<times> vec3 \<times> vec3 list \<times> vec3 list" where
  "space_step tangent c s =
     (case s of (d1_first, t0, d1, d2) \<Rightarrow>
        let t = tangent ! c;
            d1_first = parallel_transport d1_first t0 t;
            d1_first = vsub d1_first (smul (dot d1_first t) t);
            d1_first = vdiv d1_first (norm3 d1_first)
        in (d1_first, t, d1[c := d1_first], d2[c := cross t d1_first]))"

definition computeSpaceParallel :: "vec3 \<Rightarrow> real list \<Rightarrow> error + vec3 list \<times> vec3 list" where
  "computeSpaceParallel d1_first q =
     (let ne = ne_of q;
          tangent = computeTangent q;
          d1 = replicate ne (0, 0, 0);
          d2 = replicate ne (0, 0, 0)
      in if ne = 0 then Inl IndexError
         else let d1 = d1[0 := d1_first];
                  t0 = tangent ! 0;
                  d2 = d2[0 := cross t0 d1_first]
              in case fold (space_step tangent) [1..<ne] (d1_first, t0, d1, d2) of
                   (_, _, d1, d2) \<Rightarrow> Inr (d1, d2))"

text \<open>
  \<open>computeTimeParallel\<close>. Row \<open>c\<close> of the old tangents and of the old frame is read
  for every edge of the new configuration: IndexError when the old configuration or the
  old frame has fewer rows.
\<close>

definition time_step :: "vec3 list \<Rightarrow> vec3 list \<Rightarrow> vec3 list \<Rightarrow> nat
    \<Rightarrow> vec3 list \<times> vec3 list \<Rightarrow> error + vec3 list \<times> vec3 list" where
  "time_step a1_old tangent0 tangent c s =
     (case s of (a1, a2) \<Rightarrow>
        bindE (nth_err tangent0 c) (\<lambda>t0.
          let t = tangent ! c
          in bindE (nth_err a1_old c) (\<lambda>a.
               let a1_tmp = parallel_transport a t0 t;
                   v = vsub a1_tmp (smul (dot a1_tmp t) t);
                   v = vdiv v (norm3 v)
               in Inr (a1[c := v], a2[c := cross t v]))))"

definition computeTimeParallel :: "vec3 list \<Rightarrow> real list \<Rightarrow> real list
    \<Rightarrow> error + vec3 list \<times> vec3 list" where
  "computeTimeParallel a1_old q0 q =
     (let ne = ne_of q;
          tangent0 = computeTangent q0;
          tangent = computeTangent q;
          a1 = replicate ne (0, 0, 0);
          a2 = replicate ne (0, 0, 0)
      in foldE (time_step a1_old tangent0 tangent) [0..<ne] (a1, a2))"

text \<open>
  What the data model asks of a reference frame on an edge with tangent \<open>t\<close>: two unit
  vectors, each perpendicular to \<open>t\<close>, perpendicular to each other, the second the cross
  product of the tangent with the first.
\<close>

definition frame_ok :: "vec3 \<Rightarrow> vec3 \<Rightarrow> vec3 \<Rightarrow> bool" where
  "frame_ok t a1 a2 =
     (norm3 a1 = 1 \<and> norm3 a2 = 1 \<and> dot a1 t = 0 \<and> dot a2 t = 0 \<and> dot a1 a2 = 0
      \<and> a2 = cross t a1)"

text \<open>Consecutive nodes of \<open>q\<close> are distinct: no edge has length zero.\<close>

definition edges_nonzero :: "real list \<Rightarrow> bool" where
  "edges_nonzero q = (\<forall>c<ne_of q. slice3 q (4 * c + 4) \<noteq> slice3 q (4 * c))"

subsection \<open>Assembly of the stretching force\<close>

definition getFs_step :: "real list \<Rightarrow> real \<Rightarrow> real list \<Rightarrow> nat
    \<Rightarrow> real list \<times> mat \<Rightarrow> error + real list \<times> mat" where
  "getFs_step q EA refLen c FJ =
     (let node0 = slice3 q (4 * c);
          node1 = slice3 q (4 * c + 4);
          ind = [4 * c, 4 * c + 1, 4 * c + 2, 4 * c + 4, 4 * c + 5, 4 * c + 6]
      in bindE (nth_err refLen c) (\<lambda>l_k.
           let (dF, dJ) = gradEs_hessEs node0 node1 l_k EA
           in Inr (sub_at ind dF (fst FJ), sub_ix ind dJ (snd FJ))))"

definition getFs :: "real list \<Rightarrow> real \<Rightarrow> real list \<Rightarrow> error + real list \<times> mat" where
  "getFs q EA refLen =
     (let ndof = length q;
          ne = ne_of q;
          Fs = replicate ndof 0;
          Js = zeros_mat
      in foldE (getFs_step q EA refLen) [0..<ne] (Fs, Js))"

subsection \<open>Reference twist and material frame\<close>

text \<open>The optional last argument of \<open>computeReferenceTwist\<close> defaults to zero.\<close>

definition computeReferenceTwist :: "vec3 \<Rightarrow> vec3 \<Rightarrow> vec3 \<Rightarrow> vec3 \<Rightarrow> real option \<Rightarrow> real" where
  "computeReferenceTwist u1 u2 t1 t2 refTwist_opt =
     (let refTwist = (case refTwist_opt of None \<Rightarrow> 0 | Some r \<Rightarrow> r);
          ut = parallel_transport u1 t1 t2;
          ut = rotateAxisAngle ut t2 refTwist
      in refTwist + signedAngle ut u2 t2)"

text \<open>
  \<open>getRefTwist\<close> overwrites the entries \<open>1 .. ne-1\<close> of the array it is given and
  returns that array: the caller's guess is updated in place, which the model shows by
  returning the new array.
\<close>

definition getRefTwist_step :: "vec3 list \<Rightarrow> vec3 list \<Rightarrow> nat \<Rightarrow> real list \<Rightarrow> error + real list" where
  "getRefTwist_step a1 tangent c refTwist =
     (let u0 = a1 ! (c - 1);
          u1 = a1 ! c
      in bindE (nth_err tangent (c - 1)) (\<lambda>t0.
         bindE (nth_err tangent c) (\<lambda>t1.
         bindE (nth_err refTwist c) (\<lambda>r.
           Inr (refTwist[c := computeReferenceTwist u0 u1 t0 t1 (Some r)])))))"

definition getRefTwist :: "vec3 list \<Rightarrow> vec3 list \<Rightarrow> real list \<Rightarrow> error + real list" where
  "getRefTwist a1 tangent refTwist =
     (let ne = length a1
      in foldE (getRefTwist_step a1 tangent) [1..<ne] refTwist)"

definition computeMaterialFrame_step :: "vec3 list \<Rightarrow> vec3 list \<Rightarrow> real list \<Rightarrow> nat
    \<Rightarrow> vec3 list \<times> vec3 list \<Rightarrow> error + vec3 list \<times> vec3 list" where
  "computeMaterialFrame_step a1 a2 theta c s =
     (case s of (m1, m2) \<Rightarrow>
        bindE (nth_err a1 c) (\<lambda>a.
        bindE (nth_err a2 c) (\<lambda>b.
          Inr (m1[c := vadd (vmuls a (cos (theta ! c))) (vmuls b (sin (theta ! c)))],
               m2[c := vadd (vmuls (vneg a) (sin (theta ! c))) (vmuls b (cos (theta ! c)))]))))"

definition computeMaterialFrame :: "vec3 list \<Rightarrow> vec3 list \<Rightarrow> real list
    \<Rightarrow> error + vec3 list \<times> vec3 list" where
  "computeMaterialFrame a1 a2 theta =
     (let ne = length theta;
          m1 = replicate ne (0, 0, 0);
          m2 = replicate ne (0, 0, 0)
      in foldE (computeMaterialFrame_step a1 a2 theta) [0..<ne] (m1, m2))"

text \<open>The twist angles \<open>q[3::4]\<close>: the entries 3, 7, 11, ... of \<open>q\<close>.\<close>

definition theta_of :: "real list \<Rightarrow> real list" where
  "theta_of q = map (\<lambda>k. q ! (4 * k + 3)) [0..<length q div 4]"

subsection \<open>Assembly of the bending and twisting forces\<close>

definition getFb_step :: "real list \<Rightarrow> vec3 list \<Rightarrow> vec3 list \<Rightarrow> (real \<times> real) list \<Rightarrow> real
    \<Rightarrow> real list \<Rightarrow> nat \<Rightarrow> real list \<times> mat \<Rightarrow> error + real list \<times> mat" where
  "getFb_step q m1 m2 kappaBar EI voronoiRefLen c FJ =
     (let node0 = slice3 q (4 * c - 4);
          node1 = slice3 q (4 * c);
          node2 = slice3 q (4 * c + 4)
      in bindE (nth_err voronoiRefLen c) (\<lambda>l_k.
         bindE (nth_err kappaBar c) (\<lambda>kappaBar_c.
         bindE (nth_err m1 (c - 1)) (\<lambda>m1e.
         bindE (nth_err m2 (c - 1)) (\<lambda>m2e.
         bindE (nth_err m1 c) (\<lambda>m1f.
         bindE (nth_err m2 c) (\<lambda>m2f.
           let ind = [4 * c - 4..<4 * c + 7];
               (dF, dJ) = gradEb_hessEb node0 node1 node2 m1e m2e m1f m2f kappaBar_c l_k EI None
           in Inr (sub_at ind dF (fst FJ), sub_ix ind dJ (snd FJ)))))))))"

definition getFb :: "real list \<Rightarrow> vec3 list \<Rightarrow> vec3 list \<Rightarrow> (real \<times> real) list \<Rightarrow> real
    \<Rightarrow> real list \<Rightarrow> error + real list \<times> mat" where
  "getFb q m1 m2 kappaBar EI voronoiRefLen =
     (let ndof = length q;
          ne = ne_of q;
          Fb = replicate ndof 0;
          Jb = zeros_mat
      in foldE (getFb_step q m1 m2 kappaBar EI voronoiRefLen) [1..<ne] (Fb, Jb))"

definition getFt_step :: "real list \<Rightarrow> real list \<Rightarrow> real list \<Rightarrow> real \<Rightarrow> real list \<Rightarrow> nat
    \<Rightarrow> real list \<times> mat \<Rightarrow> error + real list \<times> mat" where
  "getFt_step q refTwist twistBar GJ voronoiRefLen c FJ =
     (let node0 = slice3 q (4 * c - 4);
          node1 = slice3 q (4 * c);
          node2 = slice3 q (4 * c + 4);
          theta_e = q ! (4 * c - 1);
          theta_f = q ! (4 * c + 3)
      in bindE (nth_err voronoiRefLen c) (\<lambda>l_k.
         bindE (nth_err refTwist c) (\<lambda>refTwist_c.
         bindE (nth_err twistBar c) (\<lambda>twistBar_c.
           let ind = [4 * c - 4..<4 * c + 7];
               (dF, dJ) = gradEt_hessEt node0 node1 node2 theta_e theta_f refTwist_c twistBar_c
                            l_k GJ
           in Inr (sub_at ind dF (fst FJ), sub_ix ind dJ (snd FJ))))))"

definition getFt :: "real list \<Rightarrow> real list \<Rightarrow> real list \<Rightarrow> real \<Rightarrow> real list
    \<Rightarrow> error + real list \<times> mat" where
  "getFt q refTwist twistBar GJ voronoiRefLen =
     (let ndof = length q;
          ne = ne_of q;
          Ft = replicate ndof 0;
          Jt = zeros_mat
      in foldE (getFt_step q refTwist twistBar GJ voronoiRefLen) [1..<ne] (Ft, Jt))"

subsection \<open>The linear solve\<close>

text \<open>
  \<open>np.linalg.solve(A, b)\<close> for a square \<open>A\<close> (a list of rows) and a vector \<open>b\<close>, by
  its contract over the reals: the solution of \<open>A x = b\<close>, LinAlgError when \<open>A\<close> is
  singular. The model eliminates the first unknown with the first row whose leading entry
  is not zero, solves the remaining system, and substitutes back; over the reals every
  choice of pivots gives the same solution and finds the same matrices singular.
\<close>

definition find_pivot :: "real list list \<Rightarrow> nat option" where
  "find_pivot A =
     (case filter (\<lambda>p. A ! p ! 0 \<noteq> 0) [0..<length A] of [] \<Rightarrow> None | p # _ \<Rightarrow> Some p)"

definition eliminate :: "real list \<Rightarrow> real \<Rightarrow> real list \<times> real \<Rightarrow> real list \<times> real" where
  "eliminate piv bp rb =
     (case rb of (r, br) \<Rightarrow>
        let factor = hd r / hd piv
        in (tl (map (\<lambda>(x, y). x - factor * y) (zip r piv)), br - factor * bp))"

fun solve_n :: "nat \<Rightarrow> real list list \<Rightarrow> real list \<Rightarrow> error + real list" where
  "solve_n 0 A b = Inr []"
| "solve_n (Suc n) A b =
     (case find_pivot A of
        None \<Rightarrow> Inl LinAlgError
      | Some p \<Rightarrow>
          let piv = A ! p;
              bp = b ! p;
              others = filter (\<lambda>i. i \<noteq> p) [0..<length A];
              reduced = map (\<lambda>i. eliminate piv bp (A ! i, b ! i)) others
          in bindE (solve_n n (map fst reduced) (map snd reduced)) (\<lambda>xs.
               Inr ((bp - sum_list (map (\<lambda>(a, x). a * x) (zip (tl piv) xs))) / hd piv # xs)))"

definition solve :: "real list list \<Rightarrow> real list \<Rightarrow> error + real list" where
  "solve A b = solve_n (length b) A b"

subsection \<open>One implicit Euler step: the Newton iteration\<close>

text \<open>
  Elementwise operations of two one-dimensional arrays, with numpy's broadcasting: equal
  lengths, or one of the two of length one; anything else raises ValueError.
\<close>

definition bc2 :: "(real \<Rightarrow> real \<Rightarrow> real) \<Rightarrow> real list \<Rightarrow> real list \<Rightarrow> error + real list" where
  "bc2 f xs ys =
     (if length xs = length ys then Inr (map (\<lambda>(x, y). f x y) (zip xs ys))
      else if length xs = 1 then Inr (map (\<lambda>y. f (hd xs) y) ys)
      else if length ys = 1 then Inr (map (\<lambda>x. f x (hd ys)) xs)
      else Inl ValueError)"

text \<open>\<open>f[freeIndex]\<close>: IndexError when an index lies beyond the array.\<close>

definition take_at :: "real list \<Rightarrow> nat list \<Rightarrow> error + real list" where
  "take_at f ind = (if \<forall>i \<in> set ind. i < length f then Inr (map (\<lambda>i. f ! i) ind) else Inl IndexError)"

text \<open>\<open>q[freeIndex] = vals\<close>: the writes happen in the order of the index list.\<close>

definition put_at :: "nat list \<Rightarrow> real list \<Rightarrow> real list \<Rightarrow> real list" where
  "put_at ind vals q = fold (\<lambda>(i, v) q. q[i := v]) (zip ind vals) q"

text \<open>
  The arguments of \<open>objfun\<close> that stay fixed during the Newton loop. \<open>mMat\<close> is read as
  an array of shape \<open>(ndof, ndof)\<close>. The parameter \<open>a2\<close> of the source is never read.
\<close>

record objfun_args =
  p_q0 :: "real list"
  p_u :: "real list"
  p_a1 :: "vec3 list"
  p_freeIndex :: "nat list"
  p_dt :: real
  p_tol :: real
  p_massVector :: "real list"
  p_mMat :: mat
  p_EA :: real
  p_refLen :: "real list"
  p_EI :: real
  p_GJ :: real
  p_voronoiRefLen :: "real list"
  p_kappaBar :: "(real \<times> real) list"
  p_twistBar :: "real list"
  p_Fg :: "real list"

text \<open>
  The body of the \<open>while\<close> loop. It takes the iterate \<open>q\<close> and the reference twist
  array (both are updated in place by the source) and returns the new \<open>q\<close>, the new
  reference twist array, the error and the frame of this iteration. The Jacobian has one
  row and one column per entry of \<open>q\<close>, so \<open>J[np.ix_(freeIndex, freeIndex)]\<close> raises
  IndexError exactly when \<open>q[freeIndex]\<close> does; the model makes that check where the
  source slices \<open>J\<close>.
\<close>

definition newton_iter :: "objfun_args \<Rightarrow> real list \<Rightarrow> real list
    \<Rightarrow> error + real list \<times> real list \<times> real \<times> vec3 list \<times> vec3 list" where
  "newton_iter P q refTwist =
     bindE (computeTimeParallel (p_a1 P) (p_q0 P) q) (\<lambda>(a1Iterate, a2Iterate).
     let tangent = computeTangent q
     in bindE (getRefTwist a1Iterate tangent refTwist) (\<lambda>refTwist_iterate.
     let theta = theta_of q
     in bindE (computeMaterialFrame a1Iterate a2Iterate theta) (\<lambda>(m1Iterate, m2Iterate).
        bindE (getFb q m1Iterate m2Iterate (p_kappaBar P) (p_EI P) (p_voronoiRefLen P)) (\<lambda>(Fb, Jb).
        bindE (getFt q refTwist_iterate (p_twistBar P) (p_GJ P) (p_voronoiRefLen P)) (\<lambda>(Ft, Jt).
        bindE (getFs q (p_EA P) (p_refLen P)) (\<lambda>(Fs, Js).
        bindE (bc2 (+) Fb Ft) (\<lambda>F1.
        bindE (bc2 (+) F1 Fs) (\<lambda>F2.
        bindE (bc2 (+) F2 (p_Fg P)) (\<lambda>Forces.
        let Jforces = madd (madd Jb Jt) Js
        in bindE (bc2 (-) q (p_q0 P)) (\<lambda>d.
           bindE (bc2 (-) (map (\<lambda>x. x / p_dt P) d) (p_u P)) (\<lambda>v.
           bindE (bc2 (*) (map (\<lambda>x. x / p_dt P) (p_massVector P)) v) (\<lambda>mv.
           bindE (bc2 (-) mv Forces) (\<lambda>f.
           let J = msub (mdivs (p_mMat P) (p_dt P ^ 2)) Jforces
           in bindE (take_at f (p_freeIndex P)) (\<lambda>f_free.
              bindE (take_at q (p_freeIndex P)) (\<lambda>q_free.
              let J_free = map (\<lambda>i. map (\<lambda>j. J i j) (p_freeIndex P)) (p_freeIndex P)
              in bindE (solve J_free f_free) (\<lambda>dq_free.
                 bindE (bc2 (-) q_free dq_free) (\<lambda>q_new.
                   Inr (put_at (p_freeIndex P) q_new q, refTwist_iterate,
                        sum_list (map abs f_free), a1Iterate, a2Iterate))))))))))))))))))"

text \<open>
  The loop: \<open>while error > tol\<close>. \<open>None\<close> is "the loop runs forever"; an exception in
  the body ends the call with that exception.
\<close>

partial_function (option) newton_loop :: "objfun_args \<Rightarrow> real list \<Rightarrow> real list
    \<Rightarrow> (error + real list \<times> vec3 list \<times> vec3 list) option" where
  "newton_loop args q refTwist =
     (case newton_iter args q refTwist of
        Inl e \<Rightarrow> Some (Inl e)
      | Inr (q', refTwist', err, a1Iterate, a2Iterate) \<Rightarrow>
          if err > p_tol args then newton_loop args q' refTwist'
          else Some (Inr (q', a1Iterate, a2Iterate)))"

text \<open>
  \<open>objfun\<close>. The error starts at \<open>10 * tol\<close>, so for \<open>tol \<le> 0\<close> the loop body never
  runs and the \<open>return\<close> reads the unassigned \<open>a1Iterate\<close>. The result is the new
  configuration, the new velocity and the frame of the last iteration.
\<close>

definition objfun :: "real list \<Rightarrow> objfun_args \<Rightarrow> real list
    \<Rightarrow> (error + real list \<times> real list \<times> vec3 list \<times> vec3 list) option" where
  "objfun qGuess P refTwist =
     (if 10 * p_tol P > p_tol P then
        (case newton_loop P qGuess refTwist of
           None \<Rightarrow> None
         | Some (Inl e) \<Rightarrow> Some (Inl e)
         | Some (Inr (q, a1Iterate, a2Iterate)) \<Rightarrow>
             Some (bindE (bc2 (-) q (p_q0 P)) (\<lambda>d.
                     Inr (q, map (\<lambda>x. x / p_dt P) d, a1Iterate, a2Iterate))))
      else Some (bindE (bc2 (-) qGuess (p_q0 P)) (\<lambda>d. Inl UnboundLocalError)))"

subsection \<open>A straight rod at rest\<close>

text \<open>
  The nodes of \<open>q\<close> lie on a line, in order: no edge has length zero and all edges have
  the same unit tangent. The twist angles of \<open>q\<close> are its entries 3, 7, 11, ...
\<close>

definition straight :: "real list \<Rightarrow> bool" where
  "straight q =
     (edges_nonzero q \<and> (\<forall>c. Suc c < ne_of q \<longrightarrow> computeTangent q ! c = computeTangent q ! Suc c))"

definition twist_angles_zero :: "real list \<Rightarrow> bool" where
  "twist_angles_zero q = (\<forall>k. 4 * k + 3 < length q \<longrightarrow> q ! (4 * k + 3) = 0)"

text \<open>The edge lengths of \<open>q\<close> are the reference lengths.\<close>

definition at_rest_length :: "real list \<Rightarrow> real list \<Rightarrow> bool" where
  "at_rest_length q refLen =
     (ne_of q \<le> length refLen \<and>
      (\<forall>c<ne_of q. norm3 (vsub (slice3 q (4 * c + 4)) (slice3 q (4 * c))) = refLen ! c))"

text \<open>
  The reference frame handed to \<open>objfun\<close> is not twisted: one director for every edge,
  the same on all edges, and a reference twist guess of zero at every node.
\<close>

definition frame_untwisted :: "real list \<Rightarrow> vec3 list \<Rightarrow> real list \<Rightarrow> bool" where
  "frame_untwisted q a1 refTwist =
     (ne_of q \<le> length a1 \<and> (\<forall>c. Suc c < ne_of q \<longrightarrow> a1 ! c = a1 ! Suc c)
      \<and> ne_of q \<le> length refTwist \<and> (\<forall>c<ne_of q. refTwist ! c = 0))"

subsection \<open>Counting the iterations of the loop\<close>

text \<open>
  \<open>newton_iterates P n q refTwist\<close> is the state of the loop after \<open>n\<close> passes through
  its body, when each of them raised no exception and ended with an error above the
  tolerance, so that the loop went on; \<open>None\<close> when the loop has left before.
\<close>

fun newton_iterates :: "objfun_args \<Rightarrow> nat \<Rightarrow> real list \<Rightarrow> real list
    \<Rightarrow> (real list \<times> real list) option" where
  "newton_iterates P 0 q refTwist = Some (q, refTwist)"
| "newton_iterates P (Suc n) q refTwist =
     (case newton_iter P q refTwist of
        Inl e \<Rightarrow> None
      | Inr (q', refTwist', err, a1Iterate, a2Iterate) \<Rightarrow>
          if err > p_tol P then newton_iterates P n q' refTwist' else None)"

subsection \<open>The Newton step as the specification words it\<close>

text \<open>
  Written from the specification, not from the source, to be compared with
  \<open>newton_iter\<close>: the residual \<open>f = mass/dt * ((q - q_prev)/dt - u) - totalForce\<close> with
  the total force \<open>Fb + Ft + Fs + Fg\<close>, and its Jacobian \<open>J = mass/dt^2 - totalJacobian\<close>
  with the total Jacobian \<open>Jb + Jt + Js\<close>, entry by entry.
\<close>

definition residual_spec :: "objfun_args \<Rightarrow> real list \<Rightarrow> real list \<Rightarrow> real list \<Rightarrow> real list
    \<Rightarrow> nat \<Rightarrow> real" where
  "residual_spec P q Fb Ft Fs i =
     p_massVector P ! i / p_dt P * ((q ! i - p_q0 P ! i) / p_dt P - p_u P ! i)
       - (Fb ! i + Ft ! i + Fs ! i + p_Fg P ! i)"

definition jacobian_spec :: "objfun_args \<Rightarrow> mat \<Rightarrow> mat \<Rightarrow> mat \<Rightarrow> nat \<Rightarrow> nat \<Rightarrow> real" where
  "jacobian_spec P Jb Jt Js i j = p_mMat P i j / (p_dt P)\<^sup>2 - (Jb i j + Jt i j + Js i j)"

subsection \<open>A small rod\<close>

text \<open>
  One edge of unit length along the x axis, clamped except for the z coordinate of its
  second node (DOF 6), which carries a unit load downwards; unit masses, unit time step,
  unit stiffnesses. The theorems below are exercised on it.
\<close>

definition rod2 :: objfun_args where
  "rod2 = \<lparr>p_q0 = [0, 0, 0, 0, 1, 0, 0], p_u = [0, 0, 0, 0, 0, 0, 0], p_a1 = [(0, 1, 0)],
            p_freeIndex = [6], p_dt = 1, p_tol = 1, p_massVector = [1, 1, 1, 1, 1, 1, 1],
            p_mMat = (\<lambda>i j. if i = j then 1 else 0), p_EA = 1, p_refLen = [1], p_EI = 1,
            p_GJ = 1, p_voronoiRefLen = [1 / 2, 1 / 2], p_kappaBar = [(0, 0), (0, 0)],
            p_twistBar = [0, 0], p_Fg = [0, 0, 0, 0, 0, 0, - 1]\<rparr>"

text \<open>
  Three nodes on the x axis at unit distance, at rest: reference lengths 1, twist angles 0,
  no natural curvature or twist, no external force, no velocity. Only the twist angle of
  the second edge (DOF 7) is free. The reference directors of the two edges are the
  argument.
\<close>

definition rod3 :: "vec3 list \<Rightarrow> objfun_args" where
  "rod3 a1 = \<lparr>p_q0 = [0, 0, 0, 0, 1, 0, 0, 0, 2, 0, 0],
               p_u = [0, 0, 0, 0, 0, 0, 0, 0, 0, 0, 0], p_a1 = a1,
               p_freeIndex = [7], p_dt = 1, p_tol = 1,
               p_massVector = [1, 1, 1, 1, 1, 1, 1, 1, 1, 1, 1],
               p_mMat = (\<lambda>i j. if i = j then 1 else 0), p_EA = 1, p_refLen = [1, 1], p_EI = 1,
               p_GJ = 1, p_voronoiRefLen = [1 / 2, 1, 1 / 2],
               p_kappaBar = [(0, 0), (0, 0), (0, 0)], p_twistBar = [0, 0, 0],
               p_Fg = [0, 0, 0, 0, 0, 0, 0, 0, 0, 0, 0]\<rparr>"

text \<open>
  A single node without edges, free in x under a unit force, called with a mass matrix
  that is half the diagonal of the mass vector: Newton's iteration with this Jacobian
  overshoots and alternates between \<open>x = 0\<close> and \<open>x = 2\<close>, the residual staying at 1.
\<close>

definition osc1 :: objfun_args where
  "osc1 = \<lparr>p_q0 = [0, 0, 0], p_u = [0, 0, 0], p_a1 = [],
            p_freeIndex = [0], p_dt = 1, p_tol = 1 / 2, p_massVector = [1, 1, 1],
            p_mMat = (\<lambda>i j. if i = j then 1 / 2 else 0), p_EA = 1, p_refLen = [], p_EI = 1,
            p_GJ = 1, p_voronoiRefLen = [1], p_kappaBar = [(0, 0)],
            p_twistBar = [0], p_Fg = [1, 0, 0]\<rparr>"

text \<open>
  The loop invariant of the assembly: the force vector has \<open>n\<close> entries, it is zero at
  the twist-angle indices, and so are the rows and columns of the Jacobian there.
\<close>

definition twist_free :: "nat \<Rightarrow> real list \<times> mat \<Rightarrow> bool" where
  "twist_free n FJ =
     (length (fst FJ) = n \<and>
      (\<forall>i. i mod 4 = 3 \<longrightarrow> (i < n \<longrightarrow> fst FJ ! i = 0) \<and> (\<forall>j. snd FJ i j = 0 \<and> snd FJ j i = 0)))"

subsection \<open>Symmetry and definiteness of a square array\<close>

definition symmetric :: "nat \<Rightarrow> mat \<Rightarrow> bool" where
  "symmetric n A = (\<forall>i<n. \<forall>j<n. A i j = A j i)"

definition quadform :: "nat \<Rightarrow> mat \<Rightarrow> (nat \<Rightarrow> real) \<Rightarrow> real" where
  "quadform n A x = (\<Sum>i<n. \<Sum>j<n. x i * A i j * x j)"

definition psd :: "nat \<Rightarrow> mat \<Rightarrow> bool" where
  "psd n A = (\<forall>x. 0 \<le> quadform n A x)"

definition space_inv :: "vec3 list \<Rightarrow> nat \<Rightarrow> nat
    \<Rightarrow> vec3 \<times> vec3 \<times> vec3 list \<times> vec3 list \<Rightarrow> bool" where
  "space_inv tangent ne k s =
     (case s of (d, t0, d1, d2) \<Rightarrow>
        length d1 = ne \<and> length d2 = ne \<and> t0 = tangent ! (k - 1) \<and> d = d1 ! (k - 1)
        \<and> (\<forall>c<k. frame_ok (tangent ! c) (d1 ! c) (d2 ! c)))"

definition time_inv :: "vec3 list \<Rightarrow> nat \<Rightarrow> nat \<Rightarrow> vec3 list \<times> vec3 list \<Rightarrow> bool" where
  "time_inv tangent ne k s =
     (case s of (a1, a2) \<Rightarrow>
        length a1 = ne \<and> length a2 = ne
        \<and> (\<forall>c<k. frame_ok (tangent ! c) (a1 ! c) (a2 ! c)))"

text \<open>
  Symmetry of an 11x11 array in the rows and columns of the two twist angles, the local
  indices 3 and 7.
\<close>

definition twist_symmetric :: "mat \<Rightarrow> bool" where
  "twist_symmetric A = (\<forall>j<11. A 3 j = A j 3 \<and> A 7 j = A j 7)"

section \<open>Properties\<close>

subsection \<open>Vector algebra\<close>

lemma cross_self: "cross t t = (0, 0, 0)"
  by (cases t) simp

lemma norm3_zero: "norm3 (0, 0, 0) = 0"
  by (simp add: norm3_def)

lemma dot_self_nonneg: "0 \<le> dot v v"
  by (cases v) simp

lemma cross_swap: "cross v u = vneg (cross u v)"
  by (cases u, cases v) simp

lemma dot_commute: "dot u v = dot v u"
  by (cases u, cases v) (simp add: mult.commute)

lemma dot_vneg_right: "dot n (vneg w) = - dot n w"
  by (cases n, cases w) simp

lemma norm3_vneg: "norm3 (vneg w) = norm3 w"
  by (cases w) (simp add: norm3_def)

lemma norm3_nonneg: "0 \<le> norm3 v"
  by (simp add: norm3_def dot_self_nonneg)

subsection \<open>Parallel transport between parallel tangents\<close>

text \<open>
  C8. Whenever the cross product of the two tangents has norm zero, in particular when
  both tangents are the same vector, \<open>parallel_transport\<close> hands back the transported
  vector unchanged.
\<close>

theorem parallel_transport_degenerate:
  "(norm3 (cross t1 t2) = 0 \<longrightarrow> parallel_transport u t1 t2 = u)
   \<and> parallel_transport u t t = u"
  by (simp add: parallel_transport_def cross_self norm3_zero)

theorem parallel_transport_degenerate_witness:
  "norm3 (cross (1, 0, 0) (2, 0, 0)) = 0
   \<and> parallel_transport (1, 1, 1) (1, 0, 0) (2, 0, 0) = (1, 1, 1)"
  using parallel_transport_degenerate [of "(1, 0, 0)" "(2, 0, 0)" "(1, 1, 1)"]
  by (simp add: norm3_def)

subsection \<open>Signed angle under exchange of its arguments\<close>

text \<open>
  C9. For vectors \<open>u\<close>, \<open>v\<close> and an axis \<open>n\<close> that are non-degenerate, that is,
  the axis is not perpendicular to \<open>u \<times> v\<close> (so the sign test of the code decides),
  \<open>signedAngle u v n\<close> and \<open>signedAngle v u n\<close> are negatives of each other.
\<close>

theorem signedAngle_antisymmetric:
  assumes "dot n (cross u v) \<noteq> 0"
  shows "signedAngle v u n = - signedAngle u v n"
proof -
  have w: "cross v u = vneg (cross u v)" by (rule cross_swap)
  have d: "dot v u = dot u v" by (rule dot_commute)
  show ?thesis
    using assms
    by (simp add: signedAngle_def Let_def w d norm3_vneg dot_vneg_right)
qed

theorem signedAngle_antisymmetric_witness:
  "dot (0, 0, 1) (cross (1, 0, 0) (0, 1, 0)) \<noteq> 0
   \<and> signedAngle (0, 1, 0) (1, 0, 0) (0, 0, 1) = - signedAngle (1, 0, 0) (0, 1, 0) (0, 0, 1)"
  using signedAngle_antisymmetric [of "(0, 0, 1)" "(1, 0, 0)" "(0, 1, 0)"]
  by simp

subsection \<open>The stretching kernel\<close>

lemma sum6: "(\<Sum>i<(6::nat). f i) = f 0 + f 1 + f 2 + f 3 + f 4 + (f 5 :: real)"
  by (simp add: numeral_eq_Suc)

lemma M_entry:
  "mscale EA (madd (mscale a Id3) (mdivs (mscale b (outer e e)) d)) i j
   = EA * a * (if i = j then 1 else 0) + EA * (b / d) * (vnth e i * vnth e j)"
  by (simp add: mscale_def madd_def mdivs_def outer_def Id3_def algebra_simps)

lemma gradEs_dF:
  "fst (gradEs_hessEs node0 node1 l_k EA) =
     (let e = vsub node1 node0;
          g = vmuls (smul EA (vdiv e (norm3 e))) (norm3 e / l_k - 1)
      in vlist (vneg g) @ vlist g)"
  apply (simp add: gradEs_hessEs_def Let_def set_slice3_def vlist_def)
  apply (simp add: numeral_eq_Suc)
  done

lemma quad6:
  fixes x :: "nat \<Rightarrow> real"
  assumes M: "\<And>i j. M i j = c1 * (if i = j then 1 else 0) + c2 * (vnth e i * vnth e j)"
  shows "quadform 6 (set_block 3 0 (mneg M) (set_block 0 3 (mneg M) (set_block 3 3 M (set_block 0 0 M zeros_mat)))) x
     = c1 * ((x 0 - x 3)^2 + (x 1 - x 4)^2 + (x 2 - x 5)^2)
       + c2 * (vnth e 0 * (x 0 - x 3) + vnth e 1 * (x 1 - x 4) + vnth e 2 * (x 2 - x 5))^2"
  apply (simp add: quadform_def sum6 set_block_def mneg_def zeros_mat_def M)
  apply (simp add: algebra_simps power2_eq_square)
  done

lemma sym6:
  assumes M: "\<And>i j. M i j = M j i"
  shows "symmetric 6 (set_block 3 0 (mneg M) (set_block 0 3 (mneg M) (set_block 3 3 M (set_block 0 0 M zeros_mat))))"
  unfolding symmetric_def
proof (intro allI impI)
  fix i j :: nat
  assume "i < 6" "j < 6"
  show "set_block 3 0 (mneg M) (set_block 0 3 (mneg M) (set_block 3 3 M (set_block 0 0 M zeros_mat))) i j
      = set_block 3 0 (mneg M) (set_block 0 3 (mneg M) (set_block 3 3 M (set_block 0 0 M zeros_mat))) j i"
    using M[of i j] M[of "i - 3" "j - 3"] M[of i "j - 3"] M[of "i - 3" j]
    by (simp add: set_block_def mneg_def zeros_mat_def)
qed

lemma gradEs_dJ:
  "snd (gradEs_hessEs node0 node1 l_k EA) =
     (let e = vsub node1 node0;
          M = mscale EA (madd (mscale (1 / l_k - 1 / norm3 e) Id3)
                (mdivs (mscale (1 / norm3 e) (outer e e)) (norm3 e ^ 2)))
      in set_block 3 0 (mneg M) (set_block 0 3 (mneg M) (set_block 3 3 M (set_block 0 0 M zeros_mat))))"
  by (simp add: gradEs_hessEs_def Let_def)

lemma norm3_pos: "v \<noteq> (0, 0, 0) \<Longrightarrow> 0 < norm3 v"
  by (cases v) (auto simp: norm3_def sum_power2_gt_zero_iff power2_eq_square[symmetric] add_pos_nonneg add_nonneg_pos)

lemma vsub_eq_zero: "vsub a b = (0, 0, 0) \<longleftrightarrow> a = b"
  by (cases a, cases b) simp

text \<open>
  C6. For one edge with distinct end nodes, \<open>gradEs_hessEs\<close> returns a gradient of six
  entries whose last three are \<open>EA * tangent * (|edge| / L0 - 1)\<close> and whose first three
  are the negation of that vector. For a stiffness \<open>EA \<ge> 0\<close> and a reference length
  \<open>L0 > 0\<close>, when the edge is stretched (\<open>|edge| \<ge> L0\<close>) the returned 6x6
  Hessian is symmetric and positive semi-definite.
\<close>

theorem gradEs_hessEs_stretched_edge:
  assumes "node1 \<noteq> node0"
  shows "(let e = vsub node1 node0;
              g = vmuls (smul EA (vdiv e (norm3 e))) (norm3 e / l_k - 1);
              dF = fst (gradEs_hessEs node0 node1 l_k EA)
          in length dF = 6 \<and> drop 3 dF = vlist g \<and> take 3 dF = vlist (vneg g))
       \<and> (0 \<le> EA \<and> 0 < l_k \<and> l_k \<le> norm3 (vsub node1 node0) \<longrightarrow>
            symmetric 6 (snd (gradEs_hessEs node0 node1 l_k EA))
            \<and> psd 6 (snd (gradEs_hessEs node0 node1 l_k EA)))"
proof (intro conjI impI)
  show "let e = vsub node1 node0;
            g = vmuls (smul EA (vdiv e (norm3 e))) (norm3 e / l_k - 1);
            dF = fst (gradEs_hessEs node0 node1 l_k EA)
        in length dF = 6 \<and> drop 3 dF = vlist g \<and> take 3 dF = vlist (vneg g)"
    by (simp add: gradEs_dF Let_def vlist_def)
next
  define e where "e = vsub node1 node0"
  define M where "M = mscale EA (madd (mscale (1 / l_k - 1 / norm3 e) Id3)
                (mdivs (mscale (1 / norm3 e) (outer e e)) (norm3 e ^ 2)))"
  have dJ: "snd (gradEs_hessEs node0 node1 l_k EA) =
      set_block 3 0 (mneg M) (set_block 0 3 (mneg M) (set_block 3 3 M (set_block 0 0 M zeros_mat)))"
    by (simp add: gradEs_dJ Let_def M_def e_def)
  have Me: "M i j = EA * (1 / l_k - 1 / norm3 e) * (if i = j then 1 else 0)
              + EA * (1 / norm3 e / norm3 e ^ 2) * (vnth e i * vnth e j)" for i j
    unfolding M_def by (rule M_entry)
  have Msym: "M i j = M j i" for i j
    by (simp add: Me mult.commute)
  assume pre: "0 \<le> EA \<and> 0 < l_k \<and> l_k \<le> norm3 (vsub node1 node0)"
  show "symmetric 6 (snd (gradEs_hessEs node0 node1 l_k EA))"
    unfolding dJ by (rule sym6) (rule Msym)
  have L: "0 < norm3 e"
    using assms by (simp add: e_def norm3_pos vsub_eq_zero)
  have c1: "0 \<le> EA * (1 / l_k - 1 / norm3 e)"
    using pre L by (simp add: e_def frac_le)
  have c2: "0 \<le> EA * (1 / norm3 e / norm3 e ^ 2)"
    using pre L by simp
  show "psd 6 (snd (gradEs_hessEs node0 node1 l_k EA))"
    unfolding psd_def dJ
  proof
    fix x :: "nat \<Rightarrow> real"
    show "0 \<le> quadform 6 (set_block 3 0 (mneg M) (set_block 0 3 (mneg M)
                   (set_block 3 3 M (set_block 0 0 M zeros_mat)))) x"
      unfolding quad6 [of M, OF Me]
      by (intro add_nonneg_nonneg mult_nonneg_nonneg c1 c2 zero_le_power2)
  qed
qed

theorem gradEs_hessEs_stretched_edge_witness:
  "(2, 0, 0) \<noteq> ((0, 0, 0) :: vec3)
   \<and> (0::real) \<le> 1 \<and> (0::real) < 1 \<and> 1 \<le> norm3 (vsub (2, 0, 0) (0, 0, 0))
   \<and> fst (gradEs_hessEs (0, 0, 0) (2, 0, 0) 1 1) = [- 1, 0, 0, 1, 0, 0]
   \<and> symmetric 6 (snd (gradEs_hessEs (0, 0, 0) (2, 0, 0) 1 1))
   \<and> psd 6 (snd (gradEs_hessEs (0, 0, 0) (2, 0, 0) 1 1))"
proof -
  have n: "norm3 (2, 0, 0) = 2"
    by (simp add: norm3_def)
  have ne: "(2, 0, 0) \<noteq> ((0, 0, 0) :: vec3)" by simp
  have pre: "(0::real) \<le> 1 \<and> (0::real) < 1 \<and> 1 \<le> norm3 (vsub (2, 0, 0) (0, 0, 0))"
    by (simp add: n)
  from gradEs_hessEs_stretched_edge [OF ne, of 1 1]
  have "symmetric 6 (snd (gradEs_hessEs (0, 0, 0) (2, 0, 0) 1 1))
        \<and> psd 6 (snd (gradEs_hessEs (0, 0, 0) (2, 0, 0) 1 1))"
    using pre by blast
  moreover have "fst (gradEs_hessEs (0, 0, 0) (2, 0, 0) 1 1) = [- 1, 0, 0, 1, 0, 0]"
    by (simp add: gradEs_dF Let_def vlist_def n)
  ultimately show ?thesis by (simp add: n)
qed

subsection \<open>Loops that stop at the first exception\<close>

lemma foldE_invariant:
  assumes "foldE f xs s = Inr s'" and "P s"
    and "\<And>x t t'. x \<in> set xs \<Longrightarrow> P t \<Longrightarrow> f x t = Inr t' \<Longrightarrow> P t'"
  shows "P s'"
  using assms
proof (induction xs arbitrary: s)
  case Nil
  then show ?case by simp
next
  case (Cons x xs)
  from Cons.prems(1) obtain t where t: "f x s = Inr t" and r: "foldE f xs t = Inr s'"
    by (auto simp: bindE_def split: sum.splits)
  have "P t" using Cons.prems(2) t Cons.prems(3) [of x s t] by simp
  moreover have "P u'" if "y \<in> set xs" "P u" "f y u = Inr u'" for y u u'
    using Cons.prems(3) [of y u u'] that by simp
  ultimately show ?case using Cons.IH [OF r] by blast
qed

lemma foldE_returns:
  assumes "\<And>x t. x \<in> set xs \<Longrightarrow> \<exists>t'. f x t = Inr t'"
  shows "\<exists>s'. foldE f xs s = Inr s'"
  using assms
proof (induction xs arbitrary: s)
  case Nil
  then show ?case by simp
next
  case (Cons x xs)
  from Cons.prems obtain t where t: "f x s = Inr t" by fastforce
  show ?case using Cons.IH [of t] Cons.prems t by (simp add: bindE_def)
qed

subsection \<open>Scattering\<close>

lemma pos_of_Some: "pos_of ind i = Some k \<Longrightarrow> k < length ind \<and> ind ! k = i"
proof -
  assume a: "pos_of ind i = Some k"
  then have ne: "filter (\<lambda>k. ind ! k = i) [0..<length ind] \<noteq> []"
    and k: "k = last (filter (\<lambda>k. ind ! k = i) [0..<length ind])"
    by (auto simp: pos_of_def split: list.splits)
  from ne have "last (filter (\<lambda>k. ind ! k = i) [0..<length ind])
                  \<in> set (filter (\<lambda>k. ind ! k = i) [0..<length ind])"
    by (rule last_in_set)
  with k show ?thesis by simp
qed

lemma pos_of_None: "i \<notin> set ind \<Longrightarrow> pos_of ind i = None"
proof -
  assume "i \<notin> set ind"
  then have "filter (\<lambda>k. ind ! k = i) [0..<length ind] = []"
    by (auto simp: filter_empty_conv)
  then show ?thesis by (simp add: pos_of_def)
qed

lemma length_sub_at: "length (sub_at ind dF F) = length F"
  by (simp add: sub_at_def)

lemma sub_at_other: "i < length F \<Longrightarrow> i \<notin> set ind \<Longrightarrow> sub_at ind dF F ! i = F ! i"
  by (simp add: sub_at_def pos_of_None)

lemma sub_ix_other: "i \<notin> set ind \<or> j \<notin> set ind \<Longrightarrow> sub_ix ind dJ J i j = J i j"
  by (auto simp: sub_ix_def pos_of_None split: option.splits)

subsection \<open>Stretching and the twist angles\<close>

lemma getFs_step_twist_free:
  assumes "twist_free n FJ" and "getFs_step q EA refLen c FJ = Inr FJ'"
  shows "twist_free n FJ'"
proof -
  let ?ind = "[4 * c, 4 * c + 1, 4 * c + 2, 4 * c + 4, 4 * c + 5, 4 * c + 6]"
  have notin: "i \<notin> set ?ind" if "i mod 4 = 3" for i
    using that by (auto simp: mod_Suc)
  from assms(2) obtain dF dJ where
    FJ': "FJ' = (sub_at ?ind dF (fst FJ), sub_ix ?ind dJ (snd FJ))"
    by (auto simp: getFs_step_def Let_def bindE_def split: sum.splits prod.splits)
  show ?thesis
    unfolding twist_free_def FJ'
    using assms(1) notin
    by (simp add: twist_free_def length_sub_at sub_at_other sub_ix_other)
qed

lemma getFs_returns:
  assumes "ne_of q \<le> length refLen"
  shows "\<exists>FJ. getFs q EA refLen = Inr FJ"
  unfolding getFs_def Let_def
proof (rule foldE_returns)
  fix c t
  assume "c \<in> set [0..<ne_of q]"
  with assms have "c < length refLen" by simp
  then show "\<exists>t'. getFs_step q EA refLen c t = Inr t'"
    by (simp add: getFs_step_def Let_def bindE_def nth_err_def split: prod.splits)
qed

text \<open>
  C10. For every DOF vector \<open>q\<close> (with one reference length per edge, so that the
  loop raises no IndexError), \<open>getFs\<close> returns a force vector that is zero at every
  twist-angle index (every index congruent to 3 modulo 4) and a Jacobian whose rows and
  columns at those indices are zero.
\<close>

theorem getFs_twist_free:
  assumes "ne_of q \<le> length refLen"
  shows "\<exists>Fs Js. getFs q EA refLen = Inr (Fs, Js) \<and> length Fs = length q \<and>
           (\<forall>i<length q. i mod 4 = 3 \<longrightarrow>
              Fs ! i = 0 \<and> (\<forall>j<length q. Js i j = 0 \<and> Js j i = 0))"
proof -
  from getFs_returns [OF assms] obtain FJ where ret: "getFs q EA refLen = Inr FJ"
    by blast
  have start: "twist_free (length q) (replicate (length q) 0, zeros_mat)"
    by (simp add: twist_free_def zeros_mat_def)
  have "twist_free (length q) FJ"
    using ret unfolding getFs_def Let_def
    by (rule foldE_invariant [where P = "twist_free (length q)"])
       (auto intro: start getFs_step_twist_free)
  then show ?thesis
    using ret by (cases FJ) (simp add: twist_free_def)
qed

theorem getFs_twist_free_witness:
  "ne_of [0, 0, 0, 0, 2, 0, 0] \<le> length [1 :: real] \<and>
   (\<exists>Fs Js. getFs [0, 0, 0, 0, 2, 0, 0] 1 [1] = Inr (Fs, Js) \<and> length Fs = 7 \<and>
      Fs ! 3 = 0 \<and> Js 3 0 = 0 \<and> Js 0 3 = 0 \<and> Js 3 3 = 0)"
proof -
  have h: "ne_of [0, 0, 0, 0, 2, 0, 0] \<le> length [1 :: real]"
    by (simp add: ne_of_def)
  from getFs_twist_free [OF h, of 1] obtain Fs Js where
    r: "getFs [0, 0, 0, 0, 2, 0, 0] 1 [1] = Inr (Fs, Js)" and l: "length Fs = 7"
    and z: "\<forall>i<7. i mod 4 = 3 \<longrightarrow> Fs ! i = 0 \<and> (\<forall>j<7. Js i j = 0 \<and> Js j i = 0)"
    by auto
  have z3: "Fs ! 3 = 0 \<and> (\<forall>j<7. Js 3 j = 0 \<and> Js j 3 = 0)"
    using z [rule_format, of 3] by simp
  have "Fs ! 3 = 0 \<and> Js 3 0 = 0 \<and> Js 0 3 = 0 \<and> Js 3 3 = 0"
    using z3 conjunct2 [OF z3, rule_format, of 0] conjunct2 [OF z3, rule_format, of 3]
    by simp
  with h r l show ?thesis by blast
qed

subsection \<open>Orthonormal frames\<close>

lemma dot_cross_left1: "dot (cross a b) a = 0"
  by (cases a, cases b) (simp add: algebra_simps)

lemma dot_cross_left2: "dot (cross a b) b = 0"
  by (cases a, cases b) (simp add: algebra_simps)

lemma dot_cross_right1: "dot a (cross a b) = 0"
  by (cases a, cases b) (simp add: algebra_simps)

lemma dot_cross_right2: "dot b (cross a b) = 0"
  by (cases a, cases b) (simp add: algebra_simps)

lemma lagrange: "dot (cross a b) (cross a b) = dot a a * dot b b - (dot a b)\<^sup>2"
  by (cases a, cases b) (simp add: algebra_simps power2_eq_square)

lemma gram:
  "(dot u (cross a b))\<^sup>2 =
     dot u u * dot a a * dot b b + 2 * dot u a * dot a b * dot b u
     - dot u u * (dot a b)\<^sup>2 - dot a a * (dot u b)\<^sup>2 - dot b b * (dot u a)\<^sup>2"
  by (cases a, cases b, cases u) (simp add: algebra_simps power2_eq_square)

lemma dot_vdiv_left: "dot (vdiv a k) b = dot a b / k"
  by (cases a, cases b) (simp add: add_divide_distrib)

lemma dot_vdiv_right: "dot a (vdiv b k) = dot a b / k"
  by (cases a, cases b) (simp add: add_divide_distrib)

lemma dot_smul_left: "dot (smul k a) b = k * dot a b"
  by (cases a, cases b) (simp add: algebra_simps)

lemma dot_vadd_left: "dot (vadd a b) c = dot a c + dot b c"
  by (cases a, cases b, cases c) (simp add: algebra_simps)

lemma dot_vadd_right: "dot c (vadd a b) = dot c a + dot c b"
  by (cases a, cases b, cases c) (simp add: algebra_simps)

lemma dot_smul_right: "dot b (smul k a) = k * dot b a"
  by (cases a, cases b) (simp add: algebra_simps)

lemma smul_zero: "smul 0 a = (0, 0, 0)"
  by (cases a) simp

lemma vsub_zero: "vsub a (0, 0, 0) = a"
  by (cases a) simp

lemma vadd_zero_left: "vadd (0, 0, 0) a = a"
  by (cases a) simp

lemma vdiv_one: "vdiv a 1 = a"
  by (cases a) simp

lemma dot_self_zero: "dot v v = 0 \<longleftrightarrow> v = (0, 0, 0)"
  by (cases v) (auto simp: sum_squares_eq_zero_iff add_nonneg_eq_0_iff)

lemma norm3_eq_zero: "norm3 v = 0 \<longleftrightarrow> v = (0, 0, 0)"
  by (simp add: norm3_def dot_self_zero dot_self_nonneg)

lemma norm3_eq_one: "norm3 v = 1 \<longleftrightarrow> dot v v = 1"
  by (simp add: norm3_def)

lemma norm3_sq: "(norm3 v)\<^sup>2 = dot v v"
  by (simp add: norm3_def dot_self_nonneg)

lemma normalize_unit:
  assumes "v \<noteq> (0, 0, 0)"
  shows "dot (vdiv v (norm3 v)) (vdiv v (norm3 v)) = 1"
proof -
  have nz: "dot v v \<noteq> 0" using assms by (simp add: dot_self_zero)
  have sq: "norm3 v * norm3 v = dot v v"
    using norm3_sq [of v] by (simp add: power2_eq_square)
  have "dot (vdiv v (norm3 v)) (vdiv v (norm3 v)) = dot v v / (norm3 v * norm3 v)"
    by (simp add: dot_vdiv_left dot_vdiv_right)
  also have "\<dots> = 1" using nz by (simp add: sq)
  finally show ?thesis .
qed

lemma normalize_dot:
  "dot (vdiv v (norm3 v)) t = dot v t / norm3 v"
  by (rule dot_vdiv_left)

text \<open>The re-orthogonalisation of the binormal changes nothing in exact arithmetic.\<close>

lemma parallel_transport_nondegenerate:
  assumes "norm3 (cross t1 t2) \<noteq> 0"
  shows "parallel_transport u t1 t2 =
     (let b = vdiv (cross t1 t2) (norm3 (cross t1 t2))
      in vadd (vadd (smul (dot u t1) t2) (smul (dot u (cross t1 b)) (cross t2 b)))
              (smul (dot u b) b))"
proof -
  define b where "b = vdiv (cross t1 t2) (norm3 (cross t1 t2))"
  have nz: "cross t1 t2 \<noteq> (0, 0, 0)" using assms by (simp add: norm3_eq_zero)
  have b1: "dot b t1 = 0" by (simp add: b_def dot_vdiv_left dot_cross_left1)
  have b2: "dot b t2 = 0" by (simp add: b_def dot_vdiv_left dot_cross_left2)
  have bn: "norm3 b = 1" unfolding b_def norm3_eq_one using nz by (rule normalize_unit)
  show ?thesis
    using assms
    by (simp add: parallel_transport_def Let_def b_def [symmetric] b1 b2 bn smul_zero
        vsub_zero vdiv_one)
qed

lemma cross_cross: "cross a (cross a b) = vsub (smul (dot a b) a) (smul (dot a a) b)"
  by (cases a, cases b) (simp add: algebra_simps)

lemma cross_zero_right: "cross a (0, 0, 0) = (0, 0, 0)"
  by (cases a) simp

lemma smul_one: "smul 1 a = a"
  by (cases a) simp

lemma vsub_eq_zero_iff: "vsub a b = (0, 0, 0) \<longleftrightarrow> a = b"
  by (cases a, cases b) simp

lemma parallel_unit:
  assumes "cross a b = (0, 0, 0)" and "dot a a = 1"
  shows "b = smul (dot a b) a"
proof -
  have "vsub (smul (dot a b) a) (smul (dot a a) b) = (0, 0, 0)"
    using cross_cross [of a b] assms(1) by (simp add: cross_zero_right)
  then show ?thesis by (simp add: vsub_eq_zero_iff assms(2) smul_one)
qed

text \<open>
  Transport of a vector perpendicular to the old unit tangent: the result is perpendicular
  to the new unit tangent and has the same length.
\<close>

lemma transport_perp:
  assumes t0: "dot t0 t0 = 1" and t: "dot t t = 1" and perp: "dot u t0 = 0"
  shows "dot (parallel_transport u t0 t) t = 0
         \<and> dot (parallel_transport u t0 t) (parallel_transport u t0 t) = dot u u"
proof (cases "norm3 (cross t0 t) = 0")
  case True
  then have "cross t0 t = (0, 0, 0)" by (simp add: norm3_eq_zero)
  then have "t = smul (dot t0 t) t0" using t0 by (rule parallel_unit)
  then have "dot u t = dot t0 t * dot u t0" by (metis dot_smul_right)
  with perp True show ?thesis by (simp add: parallel_transport_def)
next
  case False
  define b where "b = vdiv (cross t0 t) (norm3 (cross t0 t))"
  define al where "al = dot u (cross t0 b)"
  define be where "be = dot u b"
  have nz: "cross t0 t \<noteq> (0, 0, 0)" using False by (simp add: norm3_eq_zero)
  have b1: "dot b t0 = 0" by (simp add: b_def dot_vdiv_left dot_cross_left1)
  have b2: "dot b t = 0" by (simp add: b_def dot_vdiv_left dot_cross_left2)
  have bb: "dot b b = 1" unfolding b_def using nz by (rule normalize_unit)
  have d: "parallel_transport u t0 t = vadd (smul al (cross t b)) (smul be b)"
    using parallel_transport_nondegenerate [OF False, of u]
    by (simp add: Let_def b_def [symmetric] al_def be_def perp smul_zero vadd_zero_left)
  have n2t: "dot (cross t b) t = 0" by (rule dot_cross_left1)
  have n2b: "dot (cross t b) b = 0" by (rule dot_cross_left2)
  have bn2: "dot b (cross t b) = 0" by (rule dot_cross_right2)
  have n2n2: "dot (cross t b) (cross t b) = 1"
    using b2 by (simp add: lagrange t bb dot_commute [of t b])
  have al2: "al\<^sup>2 = dot u u - be\<^sup>2"
    unfolding al_def be_def
    using b1 by (simp add: gram t0 bb perp dot_commute [of t0 b])
  have "dot (parallel_transport u t0 t) t = 0"
    by (simp add: d dot_vadd_left dot_smul_left n2t b2)
  moreover have "dot (parallel_transport u t0 t) (parallel_transport u t0 t) = al\<^sup>2 + be\<^sup>2"
    by (simp add: d dot_vadd_left dot_vadd_right dot_smul_left dot_smul_right n2n2 n2b bn2 bb
        power2_eq_square)
  ultimately show ?thesis by (simp add: al2)
qed

text \<open>One step of either frame construction: transport, project, normalise, cross.\<close>

lemma frame_step:
  assumes t0: "dot t0 t0 = 1" and t: "dot t t = 1" and perp: "dot u t0 = 0"
    and u: "u \<noteq> (0, 0, 0)"
  shows "let a1_tmp = parallel_transport u t0 t;
             v = vsub a1_tmp (smul (dot a1_tmp t) t);
             v = vdiv v (norm3 v)
         in frame_ok t v (cross t v)"
proof -
  define d where "d = parallel_transport u t0 t"
  have dt: "dot d t = 0" and dd: "dot d d = dot u u"
    using transport_perp [OF t0 t perp] by (simp_all add: d_def)
  have dnz: "d \<noteq> (0, 0, 0)"
    using dd u by (metis dot_self_zero)
  define v where "v = vdiv d (norm3 d)"
  have vv: "dot v v = 1" unfolding v_def using dnz by (rule normalize_unit)
  have vt: "dot v t = 0" by (simp add: v_def dot_vdiv_left dt)
  have cc: "dot (cross t v) (cross t v) = 1"
    using vt by (simp add: lagrange t vv dot_commute [of t v])
  have "frame_ok t v (cross t v)"
    by (simp add: frame_ok_def norm3_eq_one vv vt cc dot_cross_left1 dot_cross_right2)
  then show ?thesis
    by (simp add: Let_def d_def [symmetric] dt smul_zero vsub_zero v_def [symmetric])
qed

lemma length_computeTangent: "length (computeTangent q) = ne_of q"
  by (simp add: computeTangent_def)

lemma computeTangent_unit:
  assumes "edges_nonzero q" and "c < ne_of q"
  shows "dot (computeTangent q ! c) (computeTangent q ! c) = 1"
proof -
  have "vsub (slice3 q (4 * c + 4)) (slice3 q (4 * c)) \<noteq> (0, 0, 0)"
    using assms by (simp add: edges_nonzero_def vsub_eq_zero_iff)
  then show ?thesis
    using assms(2) by (simp add: computeTangent_def Let_def normalize_unit)
qed

lemma frame_ok_nonzero: "frame_ok t a1 a2 \<Longrightarrow> a1 \<noteq> (0, 0, 0)"
  by (auto simp: frame_ok_def norm3_def)

lemma frame_ok_seed:
  assumes "dot t t = 1" and "norm3 d = 1" and "dot d t = 0"
  shows "frame_ok t d (cross t d)"
proof -
  have dd: "dot d d = 1" using assms(2) by (simp add: norm3_eq_one)
  have "dot (cross t d) (cross t d) = 1"
    using assms(3) by (simp add: lagrange assms(1) dd dot_commute [of t d])
  then show ?thesis
    by (simp add: frame_ok_def assms norm3_eq_one dot_cross_left1 dot_cross_right2)
qed

text \<open>Loop invariants of the two frame constructions, after \<open>k\<close> edges.\<close>

lemma space_loop:
  assumes unit: "\<And>c. c < ne \<Longrightarrow> dot (tangent ! c) (tangent ! c) = 1"
    and init: "space_inv tangent ne 1 s0"
    and k: "1 \<le> k" "k \<le> ne"
  shows "space_inv tangent ne k (fold (space_step tangent) [Suc 0..<k] s0)"
  using k
proof (induction k)
  case 0
  then show ?case by simp
next
  case (Suc k)
  show ?case
  proof (cases "k = 0")
    case True
    then show ?thesis using init by simp
  next
    case False
    then have k1: "1 \<le> k" and kne: "k < ne" using Suc.prems by simp_all
    obtain d t0 d1 d2 where s: "fold (space_step tangent) [Suc 0..<k] s0 = (d, t0, d1, d2)"
      by (cases "fold (space_step tangent) [Suc 0..<k] s0") auto
    from Suc.IH k1 kne have inv: "space_inv tangent ne k (d, t0, d1, d2)"
      by (simp add: s)
    then have len: "length d1 = ne" "length d2 = ne" and t0: "t0 = tangent ! (k - 1)"
      and d: "d = d1 ! (k - 1)"
      and fr: "\<And>c. c < k \<Longrightarrow> frame_ok (tangent ! c) (d1 ! c) (d2 ! c)"
      by (simp_all add: space_inv_def)
    have prev: "frame_ok t0 d (d2 ! (k - 1))"
      using fr [of "k - 1"] False by (simp add: t0 d)
    have u0: "dot t0 t0 = 1" using unit [of "k - 1"] kne by (simp add: t0)
    have u1: "dot (tangent ! k) (tangent ! k) = 1" using unit kne by simp
    have perp: "dot d t0 = 0" using prev by (simp add: frame_ok_def)
    have dnz: "d \<noteq> (0, 0, 0)" using prev by (rule frame_ok_nonzero)
    define v where "v = (let a = parallel_transport d t0 (tangent ! k);
                             w = vsub a (smul (dot a (tangent ! k)) (tangent ! k))
                         in vdiv w (norm3 w))"
    have new: "frame_ok (tangent ! k) v (cross (tangent ! k) v)"
      using frame_step [OF u0 u1 perp dnz] by (simp add: Let_def v_def)
    have step: "space_step tangent k (d, t0, d1, d2)
                 = (v, tangent ! k, d1[k := v], d2[k := cross (tangent ! k) v])"
      by (simp add: space_step_def Let_def v_def)
    have "fold (space_step tangent) [Suc 0..<Suc k] s0 = space_step tangent k (d, t0, d1, d2)"
      using k1 by (simp add: s)
    moreover have "space_inv tangent ne (Suc k)
                    (v, tangent ! k, d1[k := v], d2[k := cross (tangent ! k) v])"
      using len kne new fr
      by (auto simp: space_inv_def nth_list_update less_Suc_eq)
    ultimately show ?thesis by (simp add: step)
  qed
qed

lemma foldE_snoc: "foldE f (xs @ [x]) s = bindE (foldE f xs s) (f x)"
  by (induction xs arbitrary: s) (auto simp: bindE_def split: sum.splits)

lemma time_loop:
  assumes unit: "\<And>c. c < ne \<Longrightarrow> dot (tangent ! c) (tangent ! c) = 1"
    and unit0: "\<And>c. c < ne \<Longrightarrow> dot (tangent0 ! c) (tangent0 ! c) = 1"
    and len0: "ne \<le> length tangent0" and lena: "ne \<le> length a1_old"
    and old: "\<And>c. c < ne \<Longrightarrow> a1_old ! c \<noteq> (0, 0, 0) \<and> dot (a1_old ! c) (tangent0 ! c) = 0"
    and k: "k \<le> ne"
  shows "\<exists>s. foldE (time_step a1_old tangent0 tangent) [0..<k]
               (replicate ne (0, 0, 0), replicate ne (0, 0, 0)) = Inr s
             \<and> time_inv tangent ne k s"
  using k
proof (induction k)
  case 0
  then show ?case by (simp add: time_inv_def)
next
  case (Suc k)
  then have kne: "k < ne" by simp
  from Suc.IH kne obtain a1 a2 where
    r: "foldE (time_step a1_old tangent0 tangent) [0..<k]
          (replicate ne (0, 0, 0), replicate ne (0, 0, 0)) = Inr (a1, a2)"
    and inv: "time_inv tangent ne k (a1, a2)"
    by auto
  from inv have len: "length a1 = ne" "length a2 = ne"
    and fr: "\<And>c. c < k \<Longrightarrow> frame_ok (tangent ! c) (a1 ! c) (a2 ! c)"
    by (simp_all add: time_inv_def)
  define v where "v = (let a = parallel_transport (a1_old ! k) (tangent0 ! k) (tangent ! k);
                           w = vsub a (smul (dot a (tangent ! k)) (tangent ! k))
                       in vdiv w (norm3 w))"
  have new: "frame_ok (tangent ! k) v (cross (tangent ! k) v)"
    using frame_step [OF unit0 [OF kne] unit [OF kne]] old [OF kne]
    by (simp add: Let_def v_def)
  have step: "time_step a1_old tangent0 tangent k (a1, a2)
               = Inr (a1[k := v], a2[k := cross (tangent ! k) v])"
    using kne len0 lena by (simp add: time_step_def bindE_def nth_err_def Let_def v_def)
  have "time_inv tangent ne (Suc k) (a1[k := v], a2[k := cross (tangent ! k) v])"
    using len kne new fr by (auto simp: time_inv_def nth_list_update less_Suc_eq)
  then show ?case
    by (simp add: foldE_snoc r bindE_def step)
qed

text \<open>
  C7. On a rod without zero-length edges, the frame that \<open>computeSpaceParallel\<close> builds
  from a unit seed director perpendicular to the first tangent, and the frame that
  \<open>computeTimeParallel\<close> builds from a previous frame (every old director a nonzero vector
  perpendicular to its old tangent, hence never parallel to the new tangent after
  transport), satisfy for every edge \<open>c\<close>: \<open>a1[c]\<close> and \<open>a2[c]\<close> are unit vectors,
  each perpendicular to the tangent of the edge, perpendicular to each other, and
  \<open>a2[c] = tangent[c] \<times> a1[c]\<close>.
\<close>

theorem reference_frames_orthonormal:
  "(edges_nonzero q \<and> 0 < ne_of q \<and> norm3 d = 1 \<and> dot d (computeTangent q ! 0) = 0 \<longrightarrow>
      (\<exists>d1 d2. computeSpaceParallel d q = Inr (d1, d2)
         \<and> length d1 = ne_of q \<and> length d2 = ne_of q
         \<and> (\<forall>c<ne_of q. frame_ok (computeTangent q ! c) (d1 ! c) (d2 ! c))))
   \<and> (edges_nonzero q \<and> edges_nonzero q0 \<and> ne_of q \<le> ne_of q0 \<and> ne_of q \<le> length a1_old
      \<and> (\<forall>c<ne_of q. a1_old ! c \<noteq> (0, 0, 0) \<and> dot (a1_old ! c) (computeTangent q0 ! c) = 0) \<longrightarrow>
      (\<exists>a1 a2. computeTimeParallel a1_old q0 q = Inr (a1, a2)
         \<and> length a1 = ne_of q \<and> length a2 = ne_of q
         \<and> (\<forall>c<ne_of q. frame_ok (computeTangent q ! c) (a1 ! c) (a2 ! c))))"
proof (intro conjI impI)
  assume h: "edges_nonzero q \<and> 0 < ne_of q \<and> norm3 d = 1 \<and> dot d (computeTangent q ! 0) = 0"
  let ?T = "computeTangent q"
  let ?ne = "ne_of q"
  let ?s0 = "(d, ?T ! 0, (replicate ?ne (0, 0, 0))[0 := d],
              (replicate ?ne (0, 0, 0))[0 := cross (?T ! 0) d])"
  have unit: "dot (?T ! c) (?T ! c) = 1" if "c < ?ne" for c
    using h that by (simp add: computeTangent_unit)
  have "frame_ok (?T ! 0) d (cross (?T ! 0) d)"
    using h unit [of 0] by (simp add: frame_ok_seed)
  then have init: "space_inv ?T ?ne 1 ?s0"
    using h by (simp add: space_inv_def)
  have "space_inv ?T ?ne ?ne (fold (space_step ?T) [Suc 0..<?ne] ?s0)"
    using unit init by (rule space_loop) (use h in simp_all)
  moreover obtain d' t' d1 d2 where f: "fold (space_step ?T) [Suc 0..<?ne] ?s0 = (d', t', d1, d2)"
    by (cases "fold (space_step ?T) [Suc 0..<?ne] ?s0") auto
  ultimately have "length d1 = ?ne \<and> length d2 = ?ne
      \<and> (\<forall>c<?ne. frame_ok (?T ! c) (d1 ! c) (d2 ! c))"
    by (simp add: space_inv_def)
  moreover have "computeSpaceParallel d q = Inr (d1, d2)"
    using h by (simp add: computeSpaceParallel_def Let_def f)
  ultimately show "\<exists>d1 d2. computeSpaceParallel d q = Inr (d1, d2)
         \<and> length d1 = ne_of q \<and> length d2 = ne_of q
         \<and> (\<forall>c<ne_of q. frame_ok (computeTangent q ! c) (d1 ! c) (d2 ! c))"
    by blast
next
  assume h: "edges_nonzero q \<and> edges_nonzero q0 \<and> ne_of q \<le> ne_of q0 \<and> ne_of q \<le> length a1_old
      \<and> (\<forall>c<ne_of q. a1_old ! c \<noteq> (0, 0, 0) \<and> dot (a1_old ! c) (computeTangent q0 ! c) = 0)"
  have "\<exists>s. foldE (time_step a1_old (computeTangent q0) (computeTangent q)) [0..<ne_of q]
               (replicate (ne_of q) (0, 0, 0), replicate (ne_of q) (0, 0, 0)) = Inr s
             \<and> time_inv (computeTangent q) (ne_of q) (ne_of q) s"
  proof (rule time_loop)
    show "dot (computeTangent q ! c) (computeTangent q ! c) = 1" if "c < ne_of q" for c
      using h that by (simp add: computeTangent_unit)
    show "dot (computeTangent q0 ! c) (computeTangent q0 ! c) = 1" if "c < ne_of q" for c
      using h that by (simp add: computeTangent_unit)
    show "ne_of q \<le> length (computeTangent q0)"
      using h by (simp add: length_computeTangent)
    show "ne_of q \<le> length a1_old" using h by simp
    show "a1_old ! c \<noteq> (0, 0, 0) \<and> dot (a1_old ! c) (computeTangent q0 ! c) = 0"
      if "c < ne_of q" for c using h that by simp
  qed simp
  then show "\<exists>a1 a2. computeTimeParallel a1_old q0 q = Inr (a1, a2)
         \<and> length a1 = ne_of q \<and> length a2 = ne_of q
         \<and> (\<forall>c<ne_of q. frame_ok (computeTangent q ! c) (a1 ! c) (a2 ! c))"
    by (auto simp: computeTimeParallel_def Let_def time_inv_def)
qed

theorem reference_frames_orthonormal_witness:
  "(edges_nonzero [0, 0, 0, 0, 1, 0, 0, 0, 1, 1, 0] \<and> 0 < ne_of [0, 0, 0, 0, 1, 0, 0, 0, 1, 1, 0]
     \<and> norm3 (0, 0, 1) = 1 \<and> dot (0, 0, 1) (computeTangent [0, 0, 0, 0, 1, 0, 0, 0, 1, 1, 0] ! 0) = 0)
   \<and> (\<exists>d1 d2. computeSpaceParallel (0, 0, 1) [0, 0, 0, 0, 1, 0, 0, 0, 1, 1, 0] = Inr (d1, d2)
         \<and> frame_ok (0, 1, 0) (d1 ! 1) (d2 ! 1))
   \<and> (edges_nonzero [0, 0, 0, 0, 1, 0, 0, 0, 2, 0, 0]
        \<and> ne_of [0, 0, 0, 0, 1, 0, 0, 0, 1, 1, 0] \<le> ne_of [0, 0, 0, 0, 1, 0, 0, 0, 2, 0, 0]
        \<and> ne_of [0, 0, 0, 0, 1, 0, 0, 0, 1, 1, 0] \<le> length ([(0, 0, 1), (0, 0, 1)] :: vec3 list))
   \<and> (\<exists>a1 a2. computeTimeParallel [(0, 0, 1), (0, 0, 1)] [0, 0, 0, 0, 1, 0, 0, 0, 2, 0, 0]
                   [0, 0, 0, 0, 1, 0, 0, 0, 1, 1, 0] = Inr (a1, a2)
         \<and> frame_ok (0, 1, 0) (a1 ! 1) (a2 ! 1))"
proof -
  let ?q = "[0, 0, 0, 0, 1, 0, 0, 0, 1, 1, 0] :: real list"
  let ?p = "[0, 0, 0, 0, 1, 0, 0, 0, 2, 0, 0] :: real list"
  let ?a = "[(0, 0, 1), (0, 0, 1)] :: vec3 list"
  have ne: "ne_of ?q = 2" "ne_of ?p = 2" by (simp_all add: ne_of_def)
  have all2: "(\<forall>c<2. P c) \<longleftrightarrow> P 0 \<and> P (1::nat)" for P
    by (auto simp: less_2_cases_iff)
  have upt2: "[0..<2] = [0, 1]"
    by (simp add: numeral_2_eq_2)
  have T: "computeTangent ?q = [(1, 0, 0), (0, 1, 0)]"
    by (simp add: computeTangent_def ne slice3_def norm3_def upt2)
  have T0: "computeTangent ?p = [(1, 0, 0), (1, 0, 0)]"
    by (simp add: computeTangent_def ne slice3_def norm3_def upt2)
  have e: "edges_nonzero ?q" "edges_nonzero ?p"
    by (simp_all add: edges_nonzero_def ne all2 slice3_def)
  have h1: "edges_nonzero ?q \<and> 0 < ne_of ?q \<and> norm3 (0, 0, 1) = 1
            \<and> dot (0, 0, 1) (computeTangent ?q ! 0) = 0"
    by (simp add: e ne T norm3_def)
  have h2: "edges_nonzero ?q \<and> edges_nonzero ?p \<and> ne_of ?q \<le> ne_of ?p \<and> ne_of ?q \<le> length ?a
      \<and> (\<forall>c<ne_of ?q. ?a ! c \<noteq> (0, 0, 0) \<and> dot (?a ! c) (computeTangent ?p ! c) = 0)"
    by (simp add: e ne T0 all2)
  note inst = reference_frames_orthonormal [of ?q "(0, 0, 1)" ?p ?a]
  from inst [THEN conjunct1, THEN mp, OF h1]
  obtain d1 d2 where s: "computeSpaceParallel (0, 0, 1) ?q = Inr (d1, d2)"
    and sf: "\<forall>c<ne_of ?q. frame_ok (computeTangent ?q ! c) (d1 ! c) (d2 ! c)"
    by (elim exE conjE)
  from inst [THEN conjunct2, THEN mp, OF h2]
  obtain a1 a2 where t: "computeTimeParallel ?a ?p ?q = Inr (a1, a2)"
    and tf: "\<forall>c<ne_of ?q. frame_ok (computeTangent ?q ! c) (a1 ! c) (a2 ! c)"
    by (elim exE conjE)
  have f1: "frame_ok (0, 1, 0) (d1 ! 1) (d2 ! 1)" using sf by (simp add: ne all2 T)
  have f2: "frame_ok (0, 1, 0) (a1 ! 1) (a2 ! 1)" using tf by (simp add: ne all2 T)
  have c1: "\<exists>d1 d2. computeSpaceParallel (0, 0, 1) ?q = Inr (d1, d2)
         \<and> frame_ok (0, 1, 0) (d1 ! 1) (d2 ! 1)"
    using s f1 by (intro exI conjI)
  have c2: "\<exists>a1 a2. computeTimeParallel ?a ?p ?q = Inr (a1, a2)
         \<and> frame_ok (0, 1, 0) (a1 ! 1) (a2 ! 1)"
    using t f2 by (intro exI conjI)
  have h1': "edges_nonzero ?q \<and> 0 < ne_of ?q \<and> norm3 (0, 0, 1) = 1
            \<and> dot (0, 0, 1) (computeTangent ?q ! 0) = 0" by (rule h1)
  have h2': "edges_nonzero ?p \<and> ne_of ?q \<le> ne_of ?p \<and> ne_of ?q \<le> length ?a"
    using h2 by (elim conjE) (intro conjI)
  show ?thesis
    by (intro conjI h1' [THEN conjunct1] h1' [THEN conjunct2, THEN conjunct1]
        h1' [THEN conjunct2, THEN conjunct2, THEN conjunct1]
        h1' [THEN conjunct2, THEN conjunct2, THEN conjunct2]
        c1 c2 h2' [THEN conjunct1] h2' [THEN conjunct2, THEN conjunct1]
        h2' [THEN conjunct2, THEN conjunct2])
qed

subsection \<open>Symmetry of the bending and twisting Hessians\<close>

lemma symmetric_gauss_newton:
  "symmetric n (madd (madd (madd (mscale 0 A) (mscale 0 B)) (mscale c (louter g g)))
                     (mscale d (louter h h)))"
  by (simp add: symmetric_def madd_def mscale_def louter_def mult.commute)

lemma symmetric_gauss_newton1:
  "symmetric n (madd (mscale 0 A) (mscale c (louter g g)))"
  by (simp add: symmetric_def madd_def mscale_def louter_def mult.commute)

lemma gradEb_hessEb_shape:
  "\<exists>A B g h. snd (gradEb_hessEb node0 node1 node2 m1e m2e m1f m2f kappaBar l_k EI1 EI2opt) =
     madd (madd (madd
       (mscale (EI1 / l_k * (fst (computekappa node0 node1 node2 m1e m2e m1f m2f) - fst kappaBar)) A)
       (mscale ((case EI2opt of None \<Rightarrow> EI1 | Some x \<Rightarrow> x) / l_k
                 * (snd (computekappa node0 node1 node2 m1e m2e m1f m2f) - snd kappaBar)) B))
       (mscale (EI1 / l_k) (louter g g)))
       (mscale ((case EI2opt of None \<Rightarrow> EI1 | Some x \<Rightarrow> x) / l_k) (louter h h))"
  unfolding gradEb_hessEb_def computekappa_def Let_def snd_conv fst_conv
  by (intro exI) (rule refl)

lemma gradEt_hessEt_shape:
  "\<exists>A g. snd (gradEt_hessEt node0 node1 node2 theta_e theta_f refTwist twistBar l_k GJ) =
     madd (mscale (GJ / l_k * (theta_f - theta_e + refTwist - twistBar)) A)
          (mscale (GJ / l_k) (louter g g))"
  unfolding gradEt_hessEt_def Let_def snd_conv
  by (intro exI) (rule refl)

lemma less_11_cases:
  "(j::nat) < 11 \<longleftrightarrow> j = 0 \<or> j = 1 \<or> j = 2 \<or> j = 3 \<or> j = 4 \<or> j = 5 \<or> j = 6
      \<or> j = 7 \<or> j = 8 \<or> j = 9 \<or> j = 10"
  by arith

lemma vnth_Suc_Suc: "vnth v (Suc (Suc 0)) = vnth v 2"
  by (cases v) simp

lemma fill_DDkappa_twist_rows:
  assumes "j < 11" and "i = 3 \<or> i = 7"
  shows "fill_DDkappa De2 Df2 DfDe DeDf x y a b c d i j
       = fill_DDkappa De2 Df2 DfDe DeDf x y a b c d j i"
  using assms unfolding less_11_cases
  by (elim disjE)
     (simp_all add: fill_DDkappa_def Let_def set_block_def set_entry_def set_col3_def
        set_row3_def col3_def zeros_mat_def vnth_Suc_Suc)

lemma gradEb_hessEb_fill:
  "\<exists>A1 A2 A3 A4 x1 y1 a1 b1 c1 d1 B1 B2 B3 B4 x2 y2 a2 b2 c2 d2 g h k1 k2.
     snd (gradEb_hessEb node0 node1 node2 m1e m2e m1f m2f kappaBar l_k EI1 EI2opt) =
     madd (madd (madd
       (mscale k1 (fill_DDkappa A1 A2 A3 A4 x1 y1 a1 b1 c1 d1))
       (mscale k2 (fill_DDkappa B1 B2 B3 B4 x2 y2 a2 b2 c2 d2)))
       (mscale (EI1 / l_k) (louter g g)))
       (mscale ((case EI2opt of None \<Rightarrow> EI1 | Some x \<Rightarrow> x) / l_k) (louter h h))"
  unfolding gradEb_hessEb_def Let_def snd_conv
  by (intro exI) (rule refl)

lemma gradEt_hessEt_fill:
  "\<exists>A1 A2 A3 A4 g k.
     snd (gradEt_hessEt node0 node1 node2 theta_e theta_f refTwist twistBar l_k GJ) =
     madd (mscale k
        (set_block 8 8 A2 (set_block 4 8 (msub A3 A2) (set_block 8 4 (msub A4 A2)
          (set_block 8 0 (mneg A4) (set_block 0 8 (mneg A3)
            (set_block 4 4 (madd (msub A1 (madd A4 A3)) A2)
              (set_block 4 0 (madd (mneg A1) A4) (set_block 0 4 (madd (mneg A1) A3)
                (set_block 0 0 A1 zeros_mat))))))))))
        (mscale (GJ / l_k) (louter g g))"
  unfolding gradEt_hessEt_def Let_def snd_conv
  by (intro exI) (rule refl)

lemma twist_symmetric_bending:
  "twist_symmetric (snd (gradEb_hessEb node0 node1 node2 m1e m2e m1f m2f kappaBar l_k EI1 EI2opt))"
proof -
  from gradEb_hessEb_fill [of node0 node1 node2 m1e m2e m1f m2f kappaBar l_k EI1 EI2opt]
  obtain A1 A2 A3 A4 x1 y1 a1 b1 c1 d1 B1 B2 B3 B4 x2 y2 a2 b2 c2 d2 g h k1 k2 where
    eq: "snd (gradEb_hessEb node0 node1 node2 m1e m2e m1f m2f kappaBar l_k EI1 EI2opt) =
     madd (madd (madd
       (mscale k1 (fill_DDkappa A1 A2 A3 A4 x1 y1 a1 b1 c1 d1))
       (mscale k2 (fill_DDkappa B1 B2 B3 B4 x2 y2 a2 b2 c2 d2)))
       (mscale (EI1 / l_k) (louter g g)))
       (mscale ((case EI2opt of None \<Rightarrow> EI1 | Some x \<Rightarrow> x) / l_k) (louter h h))"
    by (elim exE)
  show ?thesis
    unfolding eq twist_symmetric_def
  proof (intro allI impI conjI)
    fix j :: nat assume j: "j < 11"
    show "madd (madd (madd
       (mscale k1 (fill_DDkappa A1 A2 A3 A4 x1 y1 a1 b1 c1 d1))
       (mscale k2 (fill_DDkappa B1 B2 B3 B4 x2 y2 a2 b2 c2 d2)))
       (mscale (EI1 / l_k) (louter g g)))
       (mscale ((case EI2opt of None \<Rightarrow> EI1 | Some x \<Rightarrow> x) / l_k) (louter h h)) 3 j
      = madd (madd (madd
       (mscale k1 (fill_DDkappa A1 A2 A3 A4 x1 y1 a1 b1 c1 d1))
       (mscale k2 (fill_DDkappa B1 B2 B3 B4 x2 y2 a2 b2 c2 d2)))
       (mscale (EI1 / l_k) (louter g g)))
       (mscale ((case EI2opt of None \<Rightarrow> EI1 | Some x \<Rightarrow> x) / l_k) (louter h h)) j 3"
      using fill_DDkappa_twist_rows [OF j, of 3 A1 A2 A3 A4 x1 y1 a1 b1 c1 d1]
            fill_DDkappa_twist_rows [OF j, of 3 B1 B2 B3 B4 x2 y2 a2 b2 c2 d2]
      by (simp add: madd_def mscale_def louter_def mult.commute)
    show "madd (madd (madd
       (mscale k1 (fill_DDkappa A1 A2 A3 A4 x1 y1 a1 b1 c1 d1))
       (mscale k2 (fill_DDkappa B1 B2 B3 B4 x2 y2 a2 b2 c2 d2)))
       (mscale (EI1 / l_k) (louter g g)))
       (mscale ((case EI2opt of None \<Rightarrow> EI1 | Some x \<Rightarrow> x) / l_k) (louter h h)) 7 j
      = madd (madd (madd
       (mscale k1 (fill_DDkappa A1 A2 A3 A4 x1 y1 a1 b1 c1 d1))
       (mscale k2 (fill_DDkappa B1 B2 B3 B4 x2 y2 a2 b2 c2 d2)))
       (mscale (EI1 / l_k) (louter g g)))
       (mscale ((case EI2opt of None \<Rightarrow> EI1 | Some x \<Rightarrow> x) / l_k) (louter h h)) j 7"
      using fill_DDkappa_twist_rows [OF j, of 7 A1 A2 A3 A4 x1 y1 a1 b1 c1 d1]
            fill_DDkappa_twist_rows [OF j, of 7 B1 B2 B3 B4 x2 y2 a2 b2 c2 d2]
      by (simp add: madd_def mscale_def louter_def mult.commute)
  qed
qed

lemma twist_symmetric_twisting:
  "twist_symmetric (snd (gradEt_hessEt node0 node1 node2 theta_e theta_f refTwist twistBar l_k GJ))"
proof -
  from gradEt_hessEt_fill [of node0 node1 node2 theta_e theta_f refTwist twistBar l_k GJ]
  obtain A1 A2 A3 A4 g k where
    eq: "snd (gradEt_hessEt node0 node1 node2 theta_e theta_f refTwist twistBar l_k GJ) =
     madd (mscale k
        (set_block 8 8 A2 (set_block 4 8 (msub A3 A2) (set_block 8 4 (msub A4 A2)
          (set_block 8 0 (mneg A4) (set_block 0 8 (mneg A3)
            (set_block 4 4 (madd (msub A1 (madd A4 A3)) A2)
              (set_block 4 0 (madd (mneg A1) A4) (set_block 0 4 (madd (mneg A1) A3)
                (set_block 0 0 A1 zeros_mat))))))))))
        (mscale (GJ / l_k) (louter g g))"
    by (elim exE)
  show ?thesis
    unfolding eq twist_symmetric_def
    by (simp add: madd_def mscale_def louter_def set_block_def zeros_mat_def mult.commute)
qed

lemma norm3_e1: "norm3 (1, 0, 0) = 1"
  by (simp add: norm3_def)

lemma norm3_e2: "norm3 (0, 1, 0) = 1"
  by (simp add: norm3_def)

lemma norm3_e3: "norm3 (0, 0, 1) = 1"
  by (simp add: norm3_def)

lemma bending_entry_1_2:
  "snd (gradEb_hessEb (0, 0, 0) (1, 0, 0) (1, 1, 0) (0, 1, 0) (0, 0, 1) (0, 0, 1) (1, 0, 0)
          (0, 0) 1 1 None) 1 2 = 2"
  by (simp add: gradEb_hessEb_def Let_def norm3_e1 norm3_e2 fill_DDkappa_def set_block_def
      set_entry_def set_col3_def set_row3_def col3_def zeros_mat_def madd_def msub_def mneg_def
      mscale_def outer_def transpose_mat_def Id3_def crossMat_def louter_def set_slice3_def
      nth_list_update)

lemma bending_entry_2_1:
  "snd (gradEb_hessEb (0, 0, 0) (1, 0, 0) (1, 1, 0) (0, 1, 0) (0, 0, 1) (0, 0, 1) (1, 0, 0)
          (0, 0) 1 1 None) 2 1 = 3"
  by (simp add: gradEb_hessEb_def Let_def norm3_e1 norm3_e2 fill_DDkappa_def set_block_def
      set_entry_def set_col3_def set_row3_def col3_def zeros_mat_def madd_def msub_def mneg_def
      mscale_def outer_def transpose_mat_def Id3_def crossMat_def louter_def set_slice3_def
      nth_list_update)

lemma twisting_entry_1_2:
  "snd (gradEt_hessEt (0, 0, 0) (1, 0, 0) (1, 1, 0) 0 1 0 0 1 1) 1 2 = 0"
  by (simp add: gradEt_hessEt_def Let_def norm3_e1 norm3_e2 set_block_def zeros_mat_def madd_def
      msub_def mneg_def mscale_def outer_def crossMat_def louter_def set_slice3_def slice3_def
      nth_list_update)

lemma twisting_entry_2_1:
  "snd (gradEt_hessEt (0, 0, 0) (1, 0, 0) (1, 1, 0) 0 1 0 0 1 1) 2 1 = - 1"
  by (simp add: gradEt_hessEt_def Let_def norm3_e1 norm3_e2 set_block_def zeros_mat_def madd_def
      msub_def mneg_def mscale_def outer_def crossMat_def louter_def set_slice3_def slice3_def
      nth_list_update)

text \<open>
  C1, as stated, fails. Three distinct nodes \<open>(0,0,0)\<close>, \<open>(1,0,0)\<close>, \<open>(1,1,0)\<close> with
  tangents at a right angle and orthonormal material directors on both edges: the bending
  Hessian has the entries 2 and 3 at \<open>(1,2)\<close> and \<open>(2,1)\<close>, the twisting Hessian 0 and
  -1. The position blocks follow the formulas of Panetta et al. 2019, which the source
  chooses over the symmetrised ones of Bergou et al. 2010 that it keeps in comments.
\<close>

theorem hessians_symmetric_counterexample:
  "(0, 0, 0) \<noteq> ((1, 0, 0) :: vec3) \<and> (1, 0, 0) \<noteq> ((1, 1, 0) :: vec3)
   \<and> (0, 0, 0) \<noteq> ((1, 1, 0) :: vec3)
   \<and> vdiv (vsub (1, 0, 0) (0, 0, 0)) (norm3 (vsub (1, 0, 0) (0, 0, 0))) = (1, 0, 0)
   \<and> vdiv (vsub (1, 1, 0) (1, 0, 0)) (norm3 (vsub (1, 1, 0) (1, 0, 0))) = (0, 1, 0)
   \<and> 1 + dot (1, 0, 0) (0, 1, 0) \<noteq> (0 :: real)
   \<and> frame_ok (1, 0, 0) (0, 1, 0) (0, 0, 1) \<and> frame_ok (0, 1, 0) (0, 0, 1) (1, 0, 0)
   \<and> \<not> symmetric 11 (snd (gradEb_hessEb (0, 0, 0) (1, 0, 0) (1, 1, 0)
                              (0, 1, 0) (0, 0, 1) (0, 0, 1) (1, 0, 0) (0, 0) 1 1 None))
   \<and> \<not> symmetric 11 (snd (gradEt_hessEt (0, 0, 0) (1, 0, 0) (1, 1, 0) 0 1 0 0 1 1))"
proof -
  have b: "\<not> symmetric 11 (snd (gradEb_hessEb (0, 0, 0) (1, 0, 0) (1, 1, 0)
                              (0, 1, 0) (0, 0, 1) (0, 0, 1) (1, 0, 0) (0, 0) 1 1 None))"
  proof
    assume "symmetric 11 (snd (gradEb_hessEb (0, 0, 0) (1, 0, 0) (1, 1, 0)
                              (0, 1, 0) (0, 0, 1) (0, 0, 1) (1, 0, 0) (0, 0) 1 1 None))"
    then have "snd (gradEb_hessEb (0, 0, 0) (1, 0, 0) (1, 1, 0)
                 (0, 1, 0) (0, 0, 1) (0, 0, 1) (1, 0, 0) (0, 0) 1 1 None) 1 2
             = snd (gradEb_hessEb (0, 0, 0) (1, 0, 0) (1, 1, 0)
                 (0, 1, 0) (0, 0, 1) (0, 0, 1) (1, 0, 0) (0, 0) 1 1 None) 2 1"
      unfolding symmetric_def by simp
    then show False unfolding bending_entry_1_2 bending_entry_2_1 by simp
  qed
  have t: "\<not> symmetric 11 (snd (gradEt_hessEt (0, 0, 0) (1, 0, 0) (1, 1, 0) 0 1 0 0 1 1))"
  proof
    assume "symmetric 11 (snd (gradEt_hessEt (0, 0, 0) (1, 0, 0) (1, 1, 0) 0 1 0 0 1 1))"
    then have "snd (gradEt_hessEt (0, 0, 0) (1, 0, 0) (1, 1, 0) 0 1 0 0 1 1) 1 2
             = snd (gradEt_hessEt (0, 0, 0) (1, 0, 0) (1, 1, 0) 0 1 0 0 1 1) 2 1"
      unfolding symmetric_def by simp
    then show False unfolding twisting_entry_1_2 twisting_entry_2_1 by simp
  qed
  have f: "frame_ok (1, 0, 0) (0, 1, 0) (0, 0, 1)" "frame_ok (0, 1, 0) (0, 0, 1) (1, 0, 0)"
    by (simp_all add: frame_ok_def norm3_def)
  have g: "vdiv (vsub (1, 0, 0) (0, 0, 0)) (norm3 (vsub (1, 0, 0) (0, 0, 0))) = (1, 0, 0)"
          "vdiv (vsub (1, 1, 0) (1, 0, 0)) (norm3 (vsub (1, 1, 0) (1, 0, 0))) = (0, 1, 0)"
    by (simp_all add: norm3_def)
  show ?thesis using b t f g by simp
qed

text \<open>
  C1, amended. Both Hessians are symmetric in the rows and columns of the two twist
  angles. The bending Hessian is symmetric as a whole when the curvature of the node
  equals its natural curvature \<open>kappaBar\<close>, the twisting Hessian when the integrated
  twist \<open>theta_f - theta_e + refTwist - twistBar\<close> is zero: then only the outer products
  of the gradients remain.
\<close>

theorem hessians_symmetric_at_rest:
  "twist_symmetric (snd (gradEb_hessEb node0 node1 node2 m1e m2e m1f m2f kappaBar l_k EI1 EI2opt))
   \<and> twist_symmetric (snd (gradEt_hessEt node0 node1 node2 theta_e theta_f refTwist twistBar l_k GJ))
   \<and> (computekappa node0 node1 node2 m1e m2e m1f m2f = kappaBar \<longrightarrow>
        symmetric 11 (snd (gradEb_hessEb node0 node1 node2 m1e m2e m1f m2f kappaBar l_k EI1 EI2opt)))
   \<and> (theta_f - theta_e + refTwist - twistBar = 0 \<longrightarrow>
        symmetric 11 (snd (gradEt_hessEt node0 node1 node2 theta_e theta_f refTwist twistBar l_k GJ)))"
proof (intro conjI impI)
  show "twist_symmetric (snd (gradEb_hessEb node0 node1 node2 m1e m2e m1f m2f kappaBar l_k EI1 EI2opt))"
    by (rule twist_symmetric_bending)
  show "twist_symmetric (snd (gradEt_hessEt node0 node1 node2 theta_e theta_f refTwist twistBar l_k GJ))"
    by (rule twist_symmetric_twisting)
next
  assume k: "computekappa node0 node1 node2 m1e m2e m1f m2f = kappaBar"
  from gradEb_hessEb_shape [of node0 node1 node2 m1e m2e m1f m2f kappaBar l_k EI1 EI2opt]
  obtain A B g h where
    "snd (gradEb_hessEb node0 node1 node2 m1e m2e m1f m2f kappaBar l_k EI1 EI2opt) =
     madd (madd (madd
       (mscale (EI1 / l_k * (fst (computekappa node0 node1 node2 m1e m2e m1f m2f) - fst kappaBar)) A)
       (mscale ((case EI2opt of None \<Rightarrow> EI1 | Some x \<Rightarrow> x) / l_k
                 * (snd (computekappa node0 node1 node2 m1e m2e m1f m2f) - snd kappaBar)) B))
       (mscale (EI1 / l_k) (louter g g)))
       (mscale ((case EI2opt of None \<Rightarrow> EI1 | Some x \<Rightarrow> x) / l_k) (louter h h))"
    by (elim exE)
  then have "snd (gradEb_hessEb node0 node1 node2 m1e m2e m1f m2f kappaBar l_k EI1 EI2opt) =
     madd (madd (madd (mscale 0 A) (mscale 0 B)) (mscale (EI1 / l_k) (louter g g)))
       (mscale ((case EI2opt of None \<Rightarrow> EI1 | Some x \<Rightarrow> x) / l_k) (louter h h))"
    by (simp add: k)
  then show "symmetric 11 (snd (gradEb_hessEb node0 node1 node2 m1e m2e m1f m2f kappaBar l_k EI1 EI2opt))"
    by (simp only: symmetric_gauss_newton)
next
  assume k: "theta_f - theta_e + refTwist - twistBar = 0"
  from gradEt_hessEt_shape [of node0 node1 node2 theta_e theta_f refTwist twistBar l_k GJ]
  obtain A g where
    "snd (gradEt_hessEt node0 node1 node2 theta_e theta_f refTwist twistBar l_k GJ) =
     madd (mscale (GJ / l_k * (theta_f - theta_e + refTwist - twistBar)) A)
          (mscale (GJ / l_k) (louter g g))"
    by (elim exE)
  then have "snd (gradEt_hessEt node0 node1 node2 theta_e theta_f refTwist twistBar l_k GJ) =
     madd (mscale 0 A) (mscale (GJ / l_k) (louter g g))"
    by (simp only: k mult_zero_right)
  then show "symmetric 11 (snd (gradEt_hessEt node0 node1 node2 theta_e theta_f refTwist twistBar l_k GJ))"
    by (simp only: symmetric_gauss_newton1)
qed

theorem hessians_symmetric_at_rest_witness:
  "computekappa (0, 0, 0) (1, 0, 0) (1, 1, 0) (0, 1, 0) (0, 0, 1) (0, 0, 1) (1, 0, 0) = (1, - 1)
   \<and> (1 :: real) - 0 + 0 - 1 = 0
   \<and> twist_symmetric (snd (gradEb_hessEb (0, 0, 0) (1, 0, 0) (1, 1, 0)
                            (0, 1, 0) (0, 0, 1) (0, 0, 1) (1, 0, 0) (1, - 1) 1 1 None))
   \<and> twist_symmetric (snd (gradEt_hessEt (0, 0, 0) (1, 0, 0) (1, 1, 0) 0 1 0 1 1 1))
   \<and> symmetric 11 (snd (gradEb_hessEb (0, 0, 0) (1, 0, 0) (1, 1, 0)
                            (0, 1, 0) (0, 0, 1) (0, 0, 1) (1, 0, 0) (1, - 1) 1 1 None))
   \<and> symmetric 11 (snd (gradEt_hessEt (0, 0, 0) (1, 0, 0) (1, 1, 0) 0 1 0 1 1 1))"
proof -
  have k: "computekappa (0, 0, 0) (1, 0, 0) (1, 1, 0) (0, 1, 0) (0, 0, 1) (0, 0, 1) (1, 0, 0)
             = (1, - 1)"
    by (simp add: computekappa_def Let_def norm3_e1 norm3_e2)
  have z: "(1 :: real) - 0 + 0 - 1 = 0" by simp
  note inst = hessians_symmetric_at_rest [of "(0, 0, 0)" "(1, 0, 0)" "(1, 1, 0)"
      "(0, 1, 0)" "(0, 0, 1)" "(0, 0, 1)" "(1, 0, 0)" "(1, - 1)" 1 1 None 0 1 0 1 1]
  show ?thesis
    by (intro conjI k z inst [THEN conjunct1] inst [THEN conjunct2, THEN conjunct1]
        inst [THEN conjunct2, THEN conjunct2, THEN conjunct1, THEN mp, OF k]
        inst [THEN conjunct2, THEN conjunct2, THEN conjunct2, THEN mp, OF z])
qed

subsection \<open>The Newton loop writes free entries only\<close>

lemma bindE_Inr_iff: "bindE m f = Inr y \<longleftrightarrow> (\<exists>x. m = Inr x \<and> f x = Inr y)"
  by (cases m) (simp_all add: bindE_def)

lemma put_at_length: "length (put_at ind vals q) = length q"
proof -
  have "length (fold (\<lambda>(i, v) q. q[i := v]) ps q) = length q" for ps
    by (induction ps arbitrary: q) (auto split: prod.splits)
  then show ?thesis by (simp add: put_at_def)
qed

lemma put_at_other:
  assumes "i \<notin> set ind"
  shows "put_at ind vals q ! i = q ! i"
proof -
  have "fold (\<lambda>(i, v) q. q[i := v]) ps q ! i = q ! i" if "i \<notin> fst ` set ps" for ps
    using that by (induction ps arbitrary: q) (auto split: prod.splits)
  moreover have "i \<notin> fst ` set (zip ind vals)"
    using assms by (auto dest: set_zip_leftD)
  ultimately show ?thesis by (simp add: put_at_def)
qed

lemma newton_iter_put_at:
  assumes "newton_iter P q refTwist = Inr (q', refTwist', err, a1I, a2I)"
  shows "\<exists>vals. q' = put_at (p_freeIndex P) vals q"
  using assms
  by (auto simp: newton_iter_def Let_def bindE_Inr_iff split: prod.splits)

lemma newton_iter_frame:
  assumes "newton_iter P q refTwist = Inr (q', refTwist', err, a1I, a2I)"
  shows "length q' = length q \<and> (\<forall>i. i \<notin> set (p_freeIndex P) \<longrightarrow> q' ! i = q ! i)"
  using newton_iter_put_at [OF assms] by (auto simp: put_at_length put_at_other)

lemma newton_loop_frame:
  assumes ret: "newton_loop P q refTwist = Some r"
  shows "\<forall>q' a b. r = Inr (q', a, b) \<longrightarrow>
           length q' = length q \<and> (\<forall>i. i \<notin> set (p_freeIndex P) \<longrightarrow> q' ! i = q ! i)"
proof (rule newton_loop.raw_induct
    [where P = "\<lambda>P q refTwist r. \<forall>q' a b. r = Inr (q', a, b) \<longrightarrow>
           length q' = length q \<and> (\<forall>i. i \<notin> set (p_freeIndex P) \<longrightarrow> q' ! i = q ! i)",
     OF _ ret])
  fix f P q refTwist r
  assume IH: "\<And>P q refTwist r. f P q refTwist = Some r \<Longrightarrow>
           \<forall>q' a b. r = Inr (q', a, b) \<longrightarrow>
             length q' = length q \<and> (\<forall>i. i \<notin> set (p_freeIndex P) \<longrightarrow> q' ! i = q ! i)"
    and eq: "(case newton_iter P q refTwist of
                Inl e \<Rightarrow> Some (Inl e)
              | Inr (q', refTwist', err, a1Iterate, a2Iterate) \<Rightarrow>
                  if err > p_tol P then f P q' refTwist'
                  else Some (Inr (q', a1Iterate, a2Iterate))) = Some r"
  show "\<forall>q' a b. r = Inr (q', a, b) \<longrightarrow>
           length q' = length q \<and> (\<forall>i. i \<notin> set (p_freeIndex P) \<longrightarrow> q' ! i = q ! i)"
  proof (cases "newton_iter P q refTwist")
    case (Inl e)
    with eq show ?thesis by auto
  next
    case (Inr s)
    obtain q1 rt1 err a1I a2I where s: "s = (q1, rt1, err, a1I, a2I)"
      by (cases s) auto
    note fr = newton_iter_frame [OF Inr [unfolded s]]
    show ?thesis
    proof (cases "err > p_tol P")
      case True
      with eq Inr s have "f P q1 rt1 = Some r" by simp
      from IH [OF this] fr show ?thesis by auto
    next
      case False
      with eq Inr s have "r = Inr (q1, a1I, a2I)" by simp
      with fr show ?thesis by auto
    qed
  qed
qed

text \<open>
  C5. For every call of \<open>objfun\<close> that returns, the returned configuration has the length
  of the guess and agrees with the guess at every DOF index that is not in \<open>freeIndex\<close>.
\<close>

theorem objfun_fixed_dofs_unchanged:
  assumes "objfun qGuess P refTwist = Some (Inr (q, u, a1I, a2I))"
  shows "length q = length qGuess
         \<and> (\<forall>i. i \<notin> set (p_freeIndex P) \<longrightarrow> q ! i = qGuess ! i)"
proof -
  from assms obtain r where loop: "newton_loop P qGuess refTwist = Some r"
    by (auto simp: objfun_def bindE_def split: if_splits option.splits sum.splits)
  from assms loop have "r = Inr (q, a1I, a2I)"
    by (auto simp: objfun_def bindE_def split: if_splits option.splits sum.splits)
  with newton_loop_frame [OF loop] show ?thesis by blast
qed

lemmas eval_defs =
  newton_iter_def computeTimeParallel_def computeTangent_def ne_of_def slice3_def norm3_def
  Let_def time_step_def bindE_def nth_err_def parallel_transport_def getRefTwist_def
  computeMaterialFrame_def computeMaterialFrame_step_def theta_of_def getFb_def getFt_def
  getFs_def getFs_step_def gradEs_hessEs_def sub_at_def pos_of_def set_slice3_def
  nth_list_update upt_rec_numeral upt_conv_Cons bc2_def take_at_def solve_def find_pivot_def
  eliminate_def put_at_def msub_def mdivs_def madd_def zeros_mat_def sub_ix_def set_block_def
  mneg_def mscale_def outer_def Id3_def

lemma rod2_iter:
  "newton_iter rod2 [0, 0, 0, 0, 1, 0, 0] [0, 0]
     = Inr ([0, 0, 0, 0, 1, 0, - 1], [0, 0], 1, [(0, 1, 0)], [(0, 0, 1)])"
  by (simp add: rod2_def eval_defs)

lemma rod2_objfun:
  "objfun [0, 0, 0, 0, 1, 0, 0] rod2 [0, 0]
     = Some (Inr ([0, 0, 0, 0, 1, 0, - 1], [0, 0, 0, 0, 0, 0, - 1], [(0, 1, 0)], [(0, 0, 1)]))"
proof -
  have loop: "newton_loop rod2 [0, 0, 0, 0, 1, 0, 0] [0, 0]
               = Some (Inr ([0, 0, 0, 0, 1, 0, - 1], [(0, 1, 0)], [(0, 0, 1)]))"
    by (subst newton_loop.simps) (simp add: rod2_iter, simp add: rod2_def)
  show ?thesis
    by (simp add: objfun_def loop) (simp add: rod2_def bc2_def bindE_def)
qed

theorem objfun_fixed_dofs_unchanged_witness:
  "objfun [0, 0, 0, 0, 1, 0, 0] rod2 [0, 0]
     = Some (Inr ([0, 0, 0, 0, 1, 0, - 1], [0, 0, 0, 0, 0, 0, - 1], [(0, 1, 0)], [(0, 0, 1)]))
   \<and> length [0, 0, 0, 0, 1, 0, - 1 :: real] = length [0, 0, 0, 0, 1, 0, 0 :: real]
   \<and> 4 \<notin> set (p_freeIndex rod2)
   \<and> [0, 0, 0, 0, 1, 0, - 1 :: real] ! 4 = [0, 0, 0, 0, 1, 0, 0] ! 4"
proof -
  note fr = objfun_fixed_dofs_unchanged [OF rod2_objfun]
  have n: "4 \<notin> set (p_freeIndex rod2)" by (simp add: rod2_def)
  from fr [THEN conjunct2, rule_format, OF n] fr [THEN conjunct1] n rod2_objfun
  show ?thesis by (intro conjI)
qed

subsection \<open>The Newton step\<close>

lemma bc2_same_length:
  assumes "bc2 f xs ys = Inr zs" and "length xs = length ys"
  shows "length zs = length xs \<and> (\<forall>i<length xs. zs ! i = f (xs ! i) (ys ! i))"
  using assms by (auto simp: bc2_def)

lemma foldE_length:
  assumes "foldE f xs s = Inr s'"
    and "\<And>x t t'. f x t = Inr t' \<Longrightarrow> length (fst t') = length (fst t)"
  shows "length (fst s') = length (fst s)"
  using assms(1)
  by (rule foldE_invariant [where P = "\<lambda>t. length (fst t) = length (fst s)"])
     (use assms(2) in auto)

lemma getFs_length: "getFs q EA refLen = Inr (Fs, Js) \<Longrightarrow> length Fs = length q"
proof -
  assume a: "getFs q EA refLen = Inr (Fs, Js)"
  have "length (fst (Fs, Js)) = length (fst (replicate (length q) (0::real), zeros_mat))"
    using a unfolding getFs_def Let_def
    by (rule foldE_length)
       (auto simp: getFs_step_def Let_def bindE_Inr_iff length_sub_at case_prod_beta)
  then show ?thesis by simp
qed

lemma getFb_length:
  "getFb q m1 m2 kappaBar EI voronoiRefLen = Inr (Fb, Jb) \<Longrightarrow> length Fb = length q"
proof -
  assume a: "getFb q m1 m2 kappaBar EI voronoiRefLen = Inr (Fb, Jb)"
  have "length (fst (Fb, Jb)) = length (fst (replicate (length q) (0::real), zeros_mat))"
    using a unfolding getFb_def Let_def
    by (rule foldE_length)
       (auto simp: getFb_step_def Let_def bindE_Inr_iff length_sub_at case_prod_beta)
  then show ?thesis by simp
qed

lemma getFt_length:
  "getFt q refTwist twistBar GJ voronoiRefLen = Inr (Ft, Jt) \<Longrightarrow> length Ft = length q"
proof -
  assume a: "getFt q refTwist twistBar GJ voronoiRefLen = Inr (Ft, Jt)"
  have "length (fst (Ft, Jt)) = length (fst (replicate (length q) (0::real), zeros_mat))"
    using a unfolding getFt_def Let_def
    by (rule foldE_length)
       (auto simp: getFt_step_def Let_def bindE_Inr_iff length_sub_at case_prod_beta)
  then show ?thesis by simp
qed

lemma solve_n_length: "solve_n n A b = Inr x \<Longrightarrow> length x = n"
proof (induction n arbitrary: A b x)
  case 0
  then show ?case by simp
next
  case (Suc n)
  then show ?case
    by (auto simp: Let_def bindE_Inr_iff split: option.splits)
qed

lemma solve_length: "solve A b = Inr x \<Longrightarrow> length x = length b"
  by (simp add: solve_def solve_n_length)

lemma put_at_nth:
  assumes "distinct ind" and "length vals = length ind" and "k < length ind"
    and "ind ! k < length q"
  shows "put_at ind vals q ! (ind ! k) = vals ! k"
  using assms
proof (induction ind arbitrary: vals q k)
  case Nil
  then show ?case by simp
next
  case (Cons i ind)
  then obtain v vs where vals: "vals = v # vs" by (cases vals) auto
  have step: "put_at (i # ind) (v # vs) q = put_at ind vs (q[i := v])"
    by (simp add: put_at_def)
  show ?case
  proof (cases k)
    case 0
    have "i \<notin> set ind" using Cons.prems(1) by simp
    then have "put_at ind vs (q[i := v]) ! i = q[i := v] ! i" by (rule put_at_other)
    with 0 Cons.prems(4) show ?thesis by (simp add: step vals)
  next
    case (Suc k')
    have "put_at ind vs (q[i := v]) ! (ind ! k') = vs ! k'"
      using Cons.prems Suc vals by (intro Cons.IH) auto
    with Suc show ?thesis by (simp add: step vals)
  qed
qed

lemma newton_iter_Inr:
  assumes "newton_iter P q rt = Inr (q', rt', err, a1I, a2I)"
  shows "\<exists>m1 m2 Fb Jb Ft Jt Fs Js F1 F2 Forces d v mv f f_free q_free dq q_new.
     computeTimeParallel (p_a1 P) (p_q0 P) q = Inr (a1I, a2I)
     \<and> getRefTwist a1I (computeTangent q) rt = Inr rt'
     \<and> computeMaterialFrame a1I a2I (theta_of q) = Inr (m1, m2)
     \<and> getFb q m1 m2 (p_kappaBar P) (p_EI P) (p_voronoiRefLen P) = Inr (Fb, Jb)
     \<and> getFt q rt' (p_twistBar P) (p_GJ P) (p_voronoiRefLen P) = Inr (Ft, Jt)
     \<and> getFs q (p_EA P) (p_refLen P) = Inr (Fs, Js)
     \<and> bc2 (+) Fb Ft = Inr F1 \<and> bc2 (+) F1 Fs = Inr F2 \<and> bc2 (+) F2 (p_Fg P) = Inr Forces
     \<and> bc2 (-) q (p_q0 P) = Inr d
     \<and> bc2 (-) (map (\<lambda>x. x / p_dt P) d) (p_u P) = Inr v
     \<and> bc2 (*) (map (\<lambda>x. x / p_dt P) (p_massVector P)) v = Inr mv
     \<and> bc2 (-) mv Forces = Inr f
     \<and> take_at f (p_freeIndex P) = Inr f_free
     \<and> take_at q (p_freeIndex P) = Inr q_free
     \<and> solve (map (\<lambda>i. map (\<lambda>j. msub (mdivs (p_mMat P) (p_dt P ^ 2)) (madd (madd Jb Jt) Js) i j)
                            (p_freeIndex P)) (p_freeIndex P)) f_free = Inr dq
     \<and> bc2 (-) q_free dq = Inr q_new
     \<and> q' = put_at (p_freeIndex P) q_new q
     \<and> err = sum_list (map abs f_free)"
  using assms
  by (auto simp: newton_iter_def Let_def bindE_Inr_iff split: prod.splits)

lemma take_at_Inr:
  "take_at f ind = Inr g \<Longrightarrow> (\<forall>i \<in> set ind. i < length f) \<and> g = map (\<lambda>i. f ! i) ind"
  by (auto simp: take_at_def split: if_splits)

text \<open>
  C3. In every Newton iteration of \<open>objfun\<close> that raises no exception, on arrays of the
  length of \<open>q\<close> and a duplicate-free \<open>freeIndex\<close>: the residual and the Jacobian are
  the ones of the specification, \<open>f = massVector/dt * ((q - q0)/dt - u) - (Fb + Ft + Fs + Fg)\<close>
  and \<open>J = mMat/dt^2 - (Jb + Jt + Js)\<close>, with the forces of \<open>getFb\<close>, \<open>getFt\<close> and
  \<open>getFs\<close>; both are restricted to \<open>freeIndex\<close>, the restricted linear system is solved
  for \<open>dq\<close>, and \<open>dq\<close> is subtracted from the free entries of \<open>q\<close> only. The error of
  the iteration is the sum of the absolute values of the restricted residual.
\<close>

theorem newton_iter_refines_spec:
  assumes it: "newton_iter P q rt = Inr (q', rt', err, a1I, a2I)"
    and lens: "length (p_q0 P) = length q" "length (p_u P) = length q"
      "length (p_massVector P) = length q" "length (p_Fg P) = length q"
    and dist: "distinct (p_freeIndex P)"
  shows "\<exists>m1 m2 Fb Jb Ft Jt Fs Js dq.
     computeTimeParallel (p_a1 P) (p_q0 P) q = Inr (a1I, a2I)
     \<and> getRefTwist a1I (computeTangent q) rt = Inr rt'
     \<and> computeMaterialFrame a1I a2I (theta_of q) = Inr (m1, m2)
     \<and> getFb q m1 m2 (p_kappaBar P) (p_EI P) (p_voronoiRefLen P) = Inr (Fb, Jb)
     \<and> getFt q rt' (p_twistBar P) (p_GJ P) (p_voronoiRefLen P) = Inr (Ft, Jt)
     \<and> getFs q (p_EA P) (p_refLen P) = Inr (Fs, Js)
     \<and> solve (map (\<lambda>i. map (\<lambda>j. jacobian_spec P Jb Jt Js i j) (p_freeIndex P)) (p_freeIndex P))
              (map (\<lambda>i. residual_spec P q Fb Ft Fs i) (p_freeIndex P)) = Inr dq
     \<and> length dq = length (p_freeIndex P)
     \<and> (\<forall>k<length (p_freeIndex P). q' ! (p_freeIndex P ! k) = q ! (p_freeIndex P ! k) - dq ! k)
     \<and> (\<forall>i. i \<notin> set (p_freeIndex P) \<longrightarrow> q' ! i = q ! i)
     \<and> length q' = length q
     \<and> err = (\<Sum>i\<leftarrow>p_freeIndex P. \<bar>residual_spec P q Fb Ft Fs i\<bar>)"
proof -
  let ?free = "p_freeIndex P"
  from newton_iter_Inr [OF it]
  obtain m1 m2 Fb Jb Ft Jt Fs Js F1 F2 Forces d v mv f f_free q_free dq q_new where
    tp: "computeTimeParallel (p_a1 P) (p_q0 P) q = Inr (a1I, a2I)"
    and rtw: "getRefTwist a1I (computeTangent q) rt = Inr rt'"
    and mf: "computeMaterialFrame a1I a2I (theta_of q) = Inr (m1, m2)"
    and fb: "getFb q m1 m2 (p_kappaBar P) (p_EI P) (p_voronoiRefLen P) = Inr (Fb, Jb)"
    and ft: "getFt q rt' (p_twistBar P) (p_GJ P) (p_voronoiRefLen P) = Inr (Ft, Jt)"
    and fs: "getFs q (p_EA P) (p_refLen P) = Inr (Fs, Js)"
    and F1: "bc2 (+) Fb Ft = Inr F1" and F2: "bc2 (+) F1 Fs = Inr F2"
    and Fo: "bc2 (+) F2 (p_Fg P) = Inr Forces"
    and d: "bc2 (-) q (p_q0 P) = Inr d"
    and v: "bc2 (-) (map (\<lambda>x. x / p_dt P) d) (p_u P) = Inr v"
    and mv: "bc2 (*) (map (\<lambda>x. x / p_dt P) (p_massVector P)) v = Inr mv"
    and f: "bc2 (-) mv Forces = Inr f"
    and ff: "take_at f ?free = Inr f_free"
    and qf: "take_at q ?free = Inr q_free"
    and sol: "solve (map (\<lambda>i. map (\<lambda>j. msub (mdivs (p_mMat P) (p_dt P ^ 2))
                 (madd (madd Jb Jt) Js) i j) ?free) ?free) f_free = Inr dq"
    and qn: "bc2 (-) q_free dq = Inr q_new"
    and q': "q' = put_at ?free q_new q"
    and err: "err = sum_list (map abs f_free)"
    by blast
  let ?n = "length q"
  have lFb: "length Fb = ?n" using fb by (rule getFb_length)
  have lFt: "length Ft = ?n" using ft by (rule getFt_length)
  have lFs: "length Fs = ?n" using fs by (rule getFs_length)
  note b1 = bc2_same_length [OF F1]
  have F1': "length F1 = ?n" "\<And>i. i < ?n \<Longrightarrow> F1 ! i = Fb ! i + Ft ! i"
    using b1 lFb lFt by simp_all
  note b2 = bc2_same_length [OF F2]
  have F2': "length F2 = ?n" "\<And>i. i < ?n \<Longrightarrow> F2 ! i = Fb ! i + Ft ! i + Fs ! i"
    using b2 F1' lFs by simp_all
  note b3 = bc2_same_length [OF Fo]
  have Fo': "length Forces = ?n"
    "\<And>i. i < ?n \<Longrightarrow> Forces ! i = Fb ! i + Ft ! i + Fs ! i + p_Fg P ! i"
    using b3 F2' lens by simp_all
  note b4 = bc2_same_length [OF d]
  have d': "length d = ?n" "\<And>i. i < ?n \<Longrightarrow> d ! i = q ! i - p_q0 P ! i"
    using b4 lens by simp_all
  note b5 = bc2_same_length [OF v]
  have v': "length v = ?n"
    "\<And>i. i < ?n \<Longrightarrow> v ! i = (q ! i - p_q0 P ! i) / p_dt P - p_u P ! i"
    using b5 d' lens by simp_all
  note b6 = bc2_same_length [OF mv]
  have mv': "length mv = ?n"
    "\<And>i. i < ?n \<Longrightarrow> mv ! i = p_massVector P ! i / p_dt P
                                  * ((q ! i - p_q0 P ! i) / p_dt P - p_u P ! i)"
    using b6 v' lens by simp_all
  note b7 = bc2_same_length [OF f]
  have f': "length f = ?n" "\<And>i. i < ?n \<Longrightarrow> f ! i = residual_spec P q Fb Ft Fs i"
    using b7 mv' Fo' by (simp_all add: residual_spec_def)
  from take_at_Inr [OF ff] have inr: "\<forall>i \<in> set ?free. i < ?n"
    and ffm: "f_free = map (\<lambda>i. f ! i) ?free"
    by (simp_all add: f')
  have ff': "f_free = map (\<lambda>i. residual_spec P q Fb Ft Fs i) ?free"
    unfolding ffm using inr f'(2) by (intro map_cong) auto
  have J: "msub (mdivs (p_mMat P) (p_dt P ^ 2)) (madd (madd Jb Jt) Js) i j
            = jacobian_spec P Jb Jt Js i j" for i j
    by (simp add: msub_def mdivs_def madd_def jacobian_spec_def)
  have sol': "solve (map (\<lambda>i. map (\<lambda>j. jacobian_spec P Jb Jt Js i j) ?free) ?free)
              (map (\<lambda>i. residual_spec P q Fb Ft Fs i) ?free) = Inr dq"
    using sol by (simp add: J ff')
  have ldq: "length dq = length ?free"
    using solve_length [OF sol] by (simp add: ff')
  from take_at_Inr [OF qf] have qfm: "q_free = map (\<lambda>i. q ! i) ?free" by simp
  note b8 = bc2_same_length [OF qn]
  have qn': "length q_new = length ?free"
    "\<And>k. k < length ?free \<Longrightarrow> q_new ! k = q ! (?free ! k) - dq ! k"
    using b8 ldq by (simp_all add: qfm)
  have upd: "q' ! (?free ! k) = q ! (?free ! k) - dq ! k" if "k < length ?free" for k
  proof -
    have "?free ! k < ?n" using inr that by simp
    then have "put_at ?free q_new q ! (?free ! k) = q_new ! k"
      using dist qn'(1) that by (intro put_at_nth) auto
    then show ?thesis by (simp add: q' qn'(2) that)
  qed
  have other: "\<forall>i. i \<notin> set ?free \<longrightarrow> q' ! i = q ! i"
    by (simp add: q' put_at_other)
  have lq': "length q' = ?n" by (simp add: q' put_at_length)
  have err': "err = (\<Sum>i\<leftarrow>?free. \<bar>residual_spec P q Fb Ft Fs i\<bar>)"
    by (simp add: err ff' comp_def)
  from tp rtw mf fb ft fs sol' ldq upd other lq' err' show ?thesis by blast
qed

theorem newton_iter_refines_spec_witness:
  "newton_iter rod2 [0, 0, 0, 0, 1, 0, 0] [0, 0]
     = Inr ([0, 0, 0, 0, 1, 0, - 1], [0, 0], 1, [(0, 1, 0)], [(0, 0, 1)])
   \<and> length (p_q0 rod2) = length [0, 0, 0, 0, 1, 0, 0 :: real]
   \<and> length (p_u rod2) = length [0, 0, 0, 0, 1, 0, 0 :: real]
   \<and> length (p_massVector rod2) = length [0, 0, 0, 0, 1, 0, 0 :: real]
   \<and> length (p_Fg rod2) = length [0, 0, 0, 0, 1, 0, 0 :: real]
   \<and> distinct (p_freeIndex rod2)
   \<and> (\<exists>Fb Jb Ft Jt Fs Js dq.
        solve (map (\<lambda>i. map (\<lambda>j. jacobian_spec rod2 Jb Jt Js i j) (p_freeIndex rod2))
                 (p_freeIndex rod2))
              (map (\<lambda>i. residual_spec rod2 [0, 0, 0, 0, 1, 0, 0] Fb Ft Fs i) (p_freeIndex rod2))
          = Inr dq
        \<and> [0, 0, 0, 0, 1, 0, - 1] ! 6 = [0, 0, 0, 0, 1, 0, 0] ! 6 - dq ! 0
        \<and> (1 :: real) = (\<Sum>i\<leftarrow>p_freeIndex rod2.
                            \<bar>residual_spec rod2 [0, 0, 0, 0, 1, 0, 0] Fb Ft Fs i\<bar>))"
proof -
  have h1: "length (p_q0 rod2) = length [0, 0, 0, 0, 1, 0, 0 :: real]"
    and h2: "length (p_u rod2) = length [0, 0, 0, 0, 1, 0, 0 :: real]"
    and h3: "length (p_massVector rod2) = length [0, 0, 0, 0, 1, 0, 0 :: real]"
    and h4: "length (p_Fg rod2) = length [0, 0, 0, 0, 1, 0, 0 :: real]"
    and h5: "distinct (p_freeIndex rod2)"
    by (simp_all add: rod2_def)
  from newton_iter_refines_spec [OF rod2_iter h1 h2 h3 h4 h5]
  obtain m1 m2 Fb Jb Ft Jt Fs Js dq where
    sol: "solve (map (\<lambda>i. map (\<lambda>j. jacobian_spec rod2 Jb Jt Js i j) (p_freeIndex rod2))
                 (p_freeIndex rod2))
              (map (\<lambda>i. residual_spec rod2 [0, 0, 0, 0, 1, 0, 0] Fb Ft Fs i) (p_freeIndex rod2))
          = Inr dq"
    and upd: "\<forall>k<length (p_freeIndex rod2).
        [0, 0, 0, 0, 1, 0, - 1] ! (p_freeIndex rod2 ! k)
          = [0, 0, 0, 0, 1, 0, 0] ! (p_freeIndex rod2 ! k) - dq ! k"
    and err: "(1 :: real) = (\<Sum>i\<leftarrow>p_freeIndex rod2.
                            \<bar>residual_spec rod2 [0, 0, 0, 0, 1, 0, 0] Fb Ft Fs i\<bar>)"
    by blast
  have fi: "p_freeIndex rod2 = [6]" by (simp add: rod2_def)
  have u6: "[0, 0, 0, 0, 1, 0, - 1] ! 6 = [0, 0, 0, 0, 1, 0, 0] ! 6 - dq ! 0"
    using upd [rule_format, of 0] unfolding fi by simp
  have "\<exists>Fb Jb Ft Jt Fs Js dq.
        solve (map (\<lambda>i. map (\<lambda>j. jacobian_spec rod2 Jb Jt Js i j) (p_freeIndex rod2))
                 (p_freeIndex rod2))
              (map (\<lambda>i. residual_spec rod2 [0, 0, 0, 0, 1, 0, 0] Fb Ft Fs i) (p_freeIndex rod2))
          = Inr dq
        \<and> [0, 0, 0, 0, 1, 0, - 1] ! 6 = [0, 0, 0, 0, 1, 0, 0] ! 6 - dq ! 0
        \<and> (1 :: real) = (\<Sum>i\<leftarrow>p_freeIndex rod2.
                            \<bar>residual_spec rod2 [0, 0, 0, 0, 1, 0, 0] Fb Ft Fs i\<bar>)"
    using sol u6 err by blast
  with rod2_iter h1 h2 h3 h4 h5 show ?thesis by (intro conjI)
qed

subsection \<open>Termination of the Newton loop\<close>

lemma newton_loop_returns_iterates_stop:
  assumes ret: "newton_loop P q rt = Some r"
  shows "\<exists>n. newton_iterates P n q rt = None"
proof (rule newton_loop.raw_induct
    [where P = "\<lambda>P q rt r. \<exists>n. newton_iterates P n q rt = None", OF _ ret])
  fix f P q rt r
  assume IH: "\<And>P q rt r. f P q rt = Some r \<Longrightarrow> \<exists>n. newton_iterates P n q rt = None"
    and eq: "(case newton_iter P q rt of
                Inl e \<Rightarrow> Some (Inl e)
              | Inr (q', refTwist', err, a1Iterate, a2Iterate) \<Rightarrow>
                  if err > p_tol P then f P q' refTwist'
                  else Some (Inr (q', a1Iterate, a2Iterate))) = Some r"
  show "\<exists>n. newton_iterates P n q rt = None"
  proof (cases "newton_iter P q rt")
    case (Inl e)
    then have "newton_iterates P (Suc 0) q rt = None" by simp
    then show ?thesis ..
  next
    case (Inr s)
    obtain q1 rt1 err a1I a2I where s: "s = (q1, rt1, err, a1I, a2I)"
      by (cases s) auto
    show ?thesis
    proof (cases "err > p_tol P")
      case True
      with eq Inr s have "f P q1 rt1 = Some r" by simp
      from IH [OF this] obtain n where "newton_iterates P n q1 rt1 = None" ..
      with Inr s True have "newton_iterates P (Suc n) q rt = None" by simp
      then show ?thesis ..
    next
      case False
      with Inr s have "newton_iterates P (Suc 0) q rt = None" by simp
      then show ?thesis ..
    qed
  qed
qed

lemma newton_loop_returns_converged:
  assumes ret: "newton_loop P q rt = Some r"
  shows "\<forall>q' a b. r = Inr (q', a, b) \<longrightarrow>
           (\<exists>n qn rtn rt' err. newton_iterates P n q rt = Some (qn, rtn)
              \<and> newton_iter P qn rtn = Inr (q', rt', err, a, b) \<and> err \<le> p_tol P)"
proof (rule newton_loop.raw_induct
    [where P = "\<lambda>P q rt r. \<forall>q' a b. r = Inr (q', a, b) \<longrightarrow>
           (\<exists>n qn rtn rt' err. newton_iterates P n q rt = Some (qn, rtn)
              \<and> newton_iter P qn rtn = Inr (q', rt', err, a, b) \<and> err \<le> p_tol P)", OF _ ret])
  fix f P q rt r
  assume IH: "\<And>P q rt r. f P q rt = Some r \<Longrightarrow> \<forall>q' a b. r = Inr (q', a, b) \<longrightarrow>
           (\<exists>n qn rtn rt' err. newton_iterates P n q rt = Some (qn, rtn)
              \<and> newton_iter P qn rtn = Inr (q', rt', err, a, b) \<and> err \<le> p_tol P)"
    and eq: "(case newton_iter P q rt of
                Inl e \<Rightarrow> Some (Inl e)
              | Inr (q', refTwist', err, a1Iterate, a2Iterate) \<Rightarrow>
                  if err > p_tol P then f P q' refTwist'
                  else Some (Inr (q', a1Iterate, a2Iterate))) = Some r"
  show "\<forall>q' a b. r = Inr (q', a, b) \<longrightarrow>
           (\<exists>n qn rtn rt' err. newton_iterates P n q rt = Some (qn, rtn)
              \<and> newton_iter P qn rtn = Inr (q', rt', err, a, b) \<and> err \<le> p_tol P)"
  proof (intro allI impI)
    fix q' a b assume r: "r = Inr (q', a, b)"
    show "\<exists>n qn rtn rt' err. newton_iterates P n q rt = Some (qn, rtn)
              \<and> newton_iter P qn rtn = Inr (q', rt', err, a, b) \<and> err \<le> p_tol P"
    proof (cases "newton_iter P q rt")
      case (Inl e)
      with eq r show ?thesis by simp
    next
      case (Inr s)
      obtain q1 rt1 err a1I a2I where s: "s = (q1, rt1, err, a1I, a2I)"
        by (cases s) auto
      show ?thesis
      proof (cases "err > p_tol P")
        case True
        with eq Inr s have "f P q1 rt1 = Some r" by simp
        from IH [OF this] r obtain n qn rtn rt' e where
          "newton_iterates P n q1 rt1 = Some (qn, rtn)"
          "newton_iter P qn rtn = Inr (q', rt', e, a, b)" "e \<le> p_tol P"
          by blast
        moreover from this(1) Inr s True
        have "newton_iterates P (Suc n) q rt = Some (qn, rtn)" by simp
        ultimately show ?thesis by blast
      next
        case False
        with eq Inr s r have "q1 = q'" "a1I = a" "a2I = b" by simp_all
        with Inr s False have "newton_iterates P 0 q rt = Some (q, rt)"
          "newton_iter P q rt = Inr (q', rt1, err, a, b)" "err \<le> p_tol P"
          by simp_all
        then show ?thesis by blast
      qed
    qed
  qed
qed

lemma newton_loop_converges:
  assumes "newton_iterates P n q rt = Some (qn, rtn)"
    and "newton_iter P qn rtn = Inr (q', rt', err, a, b)" and "err \<le> p_tol P"
  shows "newton_loop P q rt = Some (Inr (q', a, b))"
  using assms(1)
proof (induction n arbitrary: q rt)
  case 0
  then have "q = qn" "rt = rtn" by simp_all
  with assms(2,3) show ?case by (subst newton_loop.simps) simp
next
  case (Suc n)
  from Suc.prems obtain q1 rt1 e1 a1 b1 where
    it: "newton_iter P q rt = Inr (q1, rt1, e1, a1, b1)" and e1: "e1 > p_tol P"
    and rest: "newton_iterates P n q1 rt1 = Some (qn, rtn)"
    by (auto split: sum.splits if_splits)
  from Suc.IH [OF rest] it e1 show ?case by (subst newton_loop.simps) simp
qed

text \<open>
  C4. For a tolerance above zero, the Newton loop of \<open>objfun\<close> has no iteration cap. If
  every pass through the loop body ends, without an exception, with a sum of absolute
  residual entries over the free DOFs above the tolerance, \<open>objfun\<close> never returns. If
  \<open>objfun\<close> returns, it does so right after the first pass whose sum is at or below the
  tolerance, with the configuration of that pass; and whenever some pass reaches a sum at
  or below the tolerance after passes that all stayed above it, \<open>objfun\<close> ends there.
\<close>

theorem newton_loop_termination:
  assumes tol: "0 < p_tol P"
  shows "((\<forall>n. newton_iterates P n qGuess rt \<noteq> None) \<longrightarrow> objfun qGuess P rt = None)
     \<and> (\<forall>q u a b. objfun qGuess P rt = Some (Inr (q, u, a, b)) \<longrightarrow>
          (\<exists>n qn rtn rt' err. newton_iterates P n qGuess rt = Some (qn, rtn)
             \<and> newton_iter P qn rtn = Inr (q, rt', err, a, b) \<and> err \<le> p_tol P))
     \<and> (\<forall>n qn rtn q rt' err a b.
          newton_iterates P n qGuess rt = Some (qn, rtn)
          \<and> newton_iter P qn rtn = Inr (q, rt', err, a, b) \<and> err \<le> p_tol P \<longrightarrow>
          objfun qGuess P rt
            = Some (bindE (bc2 (-) q (p_q0 P)) (\<lambda>d. Inr (q, map (\<lambda>x. x / p_dt P) d, a, b))))"
proof (intro conjI allI impI)
  assume never: "\<forall>n. newton_iterates P n qGuess rt \<noteq> None"
  have "newton_loop P qGuess rt = None"
  proof (cases "newton_loop P qGuess rt")
    case None
    then show ?thesis .
  next
    case (Some r)
    from newton_loop_returns_iterates_stop [OF Some] never show ?thesis by blast
  qed
  then show "objfun qGuess P rt = None"
    using tol by (simp add: objfun_def)
next
  fix q u a b
  assume ret: "objfun qGuess P rt = Some (Inr (q, u, a, b))"
  then obtain r where loop: "newton_loop P qGuess rt = Some r"
    by (auto simp: objfun_def bindE_def split: if_splits option.splits sum.splits)
  from ret loop have "r = Inr (q, a, b)"
    by (auto simp: objfun_def bindE_def split: if_splits option.splits sum.splits)
  with newton_loop_returns_converged [OF loop]
  show "\<exists>n qn rtn rt' err. newton_iterates P n qGuess rt = Some (qn, rtn)
             \<and> newton_iter P qn rtn = Inr (q, rt', err, a, b) \<and> err \<le> p_tol P"
    by blast
next
  fix n qn rtn q rt' err a b
  assume h: "newton_iterates P n qGuess rt = Some (qn, rtn)
          \<and> newton_iter P qn rtn = Inr (q, rt', err, a, b) \<and> err \<le> p_tol P"
  then have "newton_loop P qGuess rt = Some (Inr (q, a, b))"
    by (intro newton_loop_converges [of P n qGuess rt qn rtn q rt' err a b]) simp_all
  then show "objfun qGuess P rt
            = Some (bindE (bc2 (-) q (p_q0 P)) (\<lambda>d. Inr (q, map (\<lambda>x. x / p_dt P) d, a, b)))"
    using tol by (simp add: objfun_def)
qed

lemma osc1_iter_0:
  "newton_iter osc1 [0, 0, 0] [] = Inr ([2, 0, 0], [], 1, [], [])"
  by (simp add: osc1_def eval_defs)

lemma osc1_iter_2:
  "newton_iter osc1 [2, 0, 0] [] = Inr ([0, 0, 0], [], 1, [], [])"
  by (simp add: osc1_def eval_defs)

lemma osc1_never_stops:
  "newton_iterates osc1 n [0, 0, 0] [] \<noteq> None \<and> newton_iterates osc1 n [2, 0, 0] [] \<noteq> None"
proof (induction n)
  case 0
  show ?case by simp
next
  case (Suc n)
  have t: "p_tol osc1 = 1 / 2" by (simp add: osc1_def)
  show ?case using Suc by (simp add: osc1_iter_0 osc1_iter_2 t)
qed

theorem newton_loop_termination_witness:
  "0 < p_tol osc1
   \<and> (\<forall>n. newton_iterates osc1 n [0, 0, 0] [] \<noteq> None)
   \<and> objfun [0, 0, 0] osc1 [] = None
   \<and> 0 < p_tol rod2
   \<and> objfun [0, 0, 0, 0, 1, 0, 0] rod2 [0, 0]
       = Some (Inr ([0, 0, 0, 0, 1, 0, - 1], [0, 0, 0, 0, 0, 0, - 1], [(0, 1, 0)], [(0, 0, 1)]))
   \<and> (\<exists>n qn rtn rt' err. newton_iterates rod2 n [0, 0, 0, 0, 1, 0, 0] [0, 0] = Some (qn, rtn)
         \<and> newton_iter rod2 qn rtn = Inr ([0, 0, 0, 0, 1, 0, - 1], rt', err, [(0, 1, 0)], [(0, 0, 1)])
         \<and> err \<le> p_tol rod2)
   \<and> newton_iterates rod2 0 [0, 0, 0, 0, 1, 0, 0] [0, 0] = Some ([0, 0, 0, 0, 1, 0, 0], [0, 0])
   \<and> newton_iter rod2 [0, 0, 0, 0, 1, 0, 0] [0, 0]
       = Inr ([0, 0, 0, 0, 1, 0, - 1], [0, 0], 1, [(0, 1, 0)], [(0, 0, 1)])
   \<and> 1 \<le> p_tol rod2
   \<and> objfun [0, 0, 0, 0, 1, 0, 0] rod2 [0, 0]
       = Some (bindE (bc2 (-) [0, 0, 0, 0, 1, 0, - 1] (p_q0 rod2))
                 (\<lambda>d. Inr ([0, 0, 0, 0, 1, 0, - 1], map (\<lambda>x. x / p_dt rod2) d,
                           [(0, 1, 0)], [(0, 0, 1)])))"
proof -
  have t1: "0 < p_tol osc1" by (simp add: osc1_def)
  have t2: "0 < p_tol rod2" and t3: "1 \<le> p_tol rod2" by (simp_all add: rod2_def)
  have never: "\<forall>n. newton_iterates osc1 n [0, 0, 0] [] \<noteq> None"
    using osc1_never_stops by blast
  note o = newton_loop_termination [OF t1, of "[0, 0, 0]" "[]"]
  note r = newton_loop_termination [OF t2, of "[0, 0, 0, 0, 1, 0, 0]" "[0, 0]"]
  have A: "objfun [0, 0, 0] osc1 [] = None"
    using o [THEN conjunct1] never by blast
  have B: "\<exists>n qn rtn rt' err. newton_iterates rod2 n [0, 0, 0, 0, 1, 0, 0] [0, 0] = Some (qn, rtn)
         \<and> newton_iter rod2 qn rtn = Inr ([0, 0, 0, 0, 1, 0, - 1], rt', err, [(0, 1, 0)], [(0, 0, 1)])
         \<and> err \<le> p_tol rod2"
    using r [THEN conjunct2, THEN conjunct1, rule_format, OF rod2_objfun] .
  have i0: "newton_iterates rod2 0 [0, 0, 0, 0, 1, 0, 0] [0, 0] = Some ([0, 0, 0, 0, 1, 0, 0], [0, 0])"
    by simp
  have C: "objfun [0, 0, 0, 0, 1, 0, 0] rod2 [0, 0]
       = Some (bindE (bc2 (-) [0, 0, 0, 0, 1, 0, - 1] (p_q0 rod2))
                 (\<lambda>d. Inr ([0, 0, 0, 0, 1, 0, - 1], map (\<lambda>x. x / p_dt rod2) d,
                           [(0, 1, 0)], [(0, 0, 1)])))"
    using r [THEN conjunct2, THEN conjunct2, rule_format,
             of 0 "[0, 0, 0, 0, 1, 0, 0]" "[0, 0]" "[0, 0, 0, 0, 1, 0, - 1]" "[0, 0]" 1
                "[(0, 1, 0)]" "[(0, 0, 1)]"] i0 rod2_iter t3
    by blast
  from t1 never A t2 rod2_objfun B i0 rod2_iter t3 C show ?thesis by (intro conjI)
qed

subsection \<open>A straight rod at rest\<close>

lemma lscale_zero: "lscale 0 xs = replicate (length xs) 0"
  by (simp add: lscale_def map_replicate_const)

lemma ladd_zero: "ladd (replicate n 0) (replicate n 0) = replicate n 0"
  by (simp add: ladd_def zip_replicate map_replicate_const)

lemma length_set_slice3: "length (set_slice3 k v xs) = length xs"
  by (simp add: set_slice3_def)

lemma vdiv_zero_vec: "vdiv (0, 0, 0) c = (0, 0, 0)"
  by simp

lemma smul_zero_vec: "smul c (0, 0, 0) = (0, 0, 0)"
  by simp

lemma dot_zero_left: "dot (0, 0, 0) v = 0"
  by (cases v) simp

lemma computekappa_straight:
  assumes "vdiv (vsub node1 node0) (norm3 (vsub node1 node0))
         = vdiv (vsub node2 node1) (norm3 (vsub node2 node1))"
  shows "computekappa node0 node1 node2 m1e m2e m1f m2f = (0, 0)"
  unfolding computekappa_def Let_def assms
  by (simp only: cross_self smul_zero_vec vdiv_zero_vec dot_zero_left) simp

lemma gradEb_hessEb_gradient_shape:
  "\<exists>x1 x2 x3 y1 y2 z1 z2 z3 w1 w2.
     fst (gradEb_hessEb node0 node1 node2 m1e m2e m1f m2f kappaBar l_k EI1 EI2opt) =
       ladd (lscale (EI1 / l_k * (fst (computekappa node0 node1 node2 m1e m2e m1f m2f) - fst kappaBar))
               ((set_slice3 8 x3 (set_slice3 4 x2 (set_slice3 0 x1 (replicate 11 0))))
                  [3 := y1, 7 := y2]))
            (lscale ((case EI2opt of None \<Rightarrow> EI1 | Some x \<Rightarrow> x) / l_k
                       * (snd (computekappa node0 node1 node2 m1e m2e m1f m2f) - snd kappaBar))
               ((set_slice3 8 z3 (set_slice3 4 z2 (set_slice3 0 z1 (replicate 11 0))))
                  [3 := w1, 7 := w2]))"
  unfolding gradEb_hessEb_def computekappa_def Let_def fst_conv snd_conv
  by (intro exI) (rule refl)

lemma gradEb_straight:
  assumes "vdiv (vsub node1 node0) (norm3 (vsub node1 node0))
         = vdiv (vsub node2 node1) (norm3 (vsub node2 node1))"
  shows "fst (gradEb_hessEb node0 node1 node2 m1e m2e m1f m2f (0, 0) l_k EI1 EI2opt)
         = replicate 11 0"
proof -
  from gradEb_hessEb_gradient_shape [of node0 node1 node2 m1e m2e m1f m2f "(0, 0)" l_k EI1 EI2opt]
  obtain g h where
    eq: "fst (gradEb_hessEb node0 node1 node2 m1e m2e m1f m2f (0, 0) l_k EI1 EI2opt) =
       ladd (lscale (EI1 / l_k * (fst (computekappa node0 node1 node2 m1e m2e m1f m2f) - fst (0 :: real, 0 :: real))) g)
            (lscale ((case EI2opt of None \<Rightarrow> EI1 | Some x \<Rightarrow> x) / l_k
                       * (snd (computekappa node0 node1 node2 m1e m2e m1f m2f) - snd (0 :: real, 0 :: real))) h)"
    and len: "length g = 11" "length h = 11"
    by (auto simp: length_set_slice3)
  show ?thesis
    unfolding eq computekappa_straight [OF assms]
    by (simp add: lscale_zero len ladd_zero)
qed

lemma gradEt_hessEt_gradient_shape:
  "\<exists>x1 x2 x3.
     fst (gradEt_hessEt node0 node1 node2 theta_e theta_f refTwist twistBar l_k GJ) =
       lscale (GJ / l_k * (theta_f - theta_e + refTwist - twistBar))
         ((set_slice3 4 x3 (set_slice3 8 x2 (set_slice3 0 x1 (replicate 11 0))))
            [3 := - 1, 7 := 1])"
  unfolding gradEt_hessEt_def Let_def fst_conv
  by (intro exI) (rule refl)

lemma gradEt_rest:
  assumes "theta_f - theta_e + refTwist - twistBar = 0"
  shows "fst (gradEt_hessEt node0 node1 node2 theta_e theta_f refTwist twistBar l_k GJ)
         = replicate 11 0"
proof -
  from gradEt_hessEt_gradient_shape [of node0 node1 node2 theta_e theta_f refTwist twistBar l_k GJ]
  obtain g where
    eq: "fst (gradEt_hessEt node0 node1 node2 theta_e theta_f refTwist twistBar l_k GJ) =
       lscale (GJ / l_k * (theta_f - theta_e + refTwist - twistBar)) g"
    and len: "length g = 11"
    by (auto simp: length_set_slice3)
  show ?thesis unfolding eq assms by (simp add: lscale_zero len)
qed

lemma gradEs_rest:
  assumes "norm3 (vsub node1 node0) = l_k" and "l_k \<noteq> 0"
  shows "fst (gradEs_hessEs node0 node1 l_k EA) = replicate 6 0"
proof -
  have "vmuls (smul EA (vdiv (vsub node1 node0) l_k)) 0 = (0, 0, 0)"
    by (cases "smul EA (vdiv (vsub node1 node0) l_k)") simp
  then show ?thesis
    using assms
    by (simp add: gradEs_dF Let_def vlist_def numeral_eq_Suc)
qed

lemma foldE_returns_invariant:
  assumes "P s" and "\<And>x t. x \<in> set xs \<Longrightarrow> P t \<Longrightarrow> \<exists>t'. f x t = Inr t' \<and> P t'"
  shows "\<exists>s'. foldE f xs s = Inr s' \<and> P s'"
  using assms
proof (induction xs arbitrary: s)
  case Nil
  then show ?case by simp
next
  case (Cons x xs)
  from Cons.prems(2) [of x s] Cons.prems(1) obtain t where t: "f x s = Inr t" and Pt: "P t"
    by auto
  have "\<exists>s'. foldE f xs t = Inr s' \<and> P s'"
    using Pt Cons.prems(2) by (intro Cons.IH) auto
  then show ?case by (simp add: t bindE_def)
qed

lemma sub_at_zero:
  assumes "\<And>k. k < length ind \<Longrightarrow> dF ! k = 0"
  shows "sub_at ind dF F = F"
proof -
  have "(case pos_of ind i of None \<Rightarrow> F ! i | Some k \<Rightarrow> F ! i - dF ! k) = F ! i" for i
  proof (cases "pos_of ind i")
    case None
    then show ?thesis by simp
  next
    case (Some k)
    from pos_of_Some [OF Some] assms show ?thesis by (simp add: Some)
  qed
  then show ?thesis by (simp add: sub_at_def map_nth)
qed

lemma sub_at_replicate: "length ind = m \<Longrightarrow> sub_at ind (replicate m 0) F = F"
  by (rule sub_at_zero) simp

lemma straight_tangents:
  assumes "straight q" and "1 \<le> c" and "c < ne_of q"
  shows "vdiv (vsub (slice3 q (4 * c)) (slice3 q (4 * c - 4)))
              (norm3 (vsub (slice3 q (4 * c)) (slice3 q (4 * c - 4))))
       = vdiv (vsub (slice3 q (4 * c + 4)) (slice3 q (4 * c)))
              (norm3 (vsub (slice3 q (4 * c + 4)) (slice3 q (4 * c))))"
proof -
  obtain c' where c: "c = Suc c'" using assms(2) by (cases c) auto
  have "computeTangent q ! c' = computeTangent q ! Suc c'"
    using assms(1,3) c by (simp add: straight_def)
  then show ?thesis
    using assms(3) c by (simp add: computeTangent_def Let_def add.commute)
qed

lemma getFb_straight:
  assumes st: "straight q"
    and vor: "ne_of q \<le> length voronoiRefLen"
    and kb: "ne_of q \<le> length kappaBar" "\<And>c. c < ne_of q \<Longrightarrow> kappaBar ! c = (0, 0)"
    and m: "ne_of q \<le> length m1" "ne_of q \<le> length m2"
  shows "\<exists>Jb. getFb q m1 m2 kappaBar EI voronoiRefLen = Inr (replicate (length q) 0, Jb)"
proof -
  have "\<exists>s'. foldE (getFb_step q m1 m2 kappaBar EI voronoiRefLen) [1..<ne_of q]
                (replicate (length q) 0, zeros_mat) = Inr s'
              \<and> fst s' = replicate (length q) 0"
  proof (rule foldE_returns_invariant)
    show "fst (replicate (length q) (0::real), zeros_mat) = replicate (length q) 0" by simp
  next
    fix c and t :: "real list \<times> mat"
    assume c: "c \<in> set [1..<ne_of q]" and t: "fst t = replicate (length q) (0::real)"
    then have c1: "1 \<le> c" and c2: "c < ne_of q" by simp_all
    have g: "fst (gradEb_hessEb (slice3 q (4 * c - 4)) (slice3 q (4 * c)) (slice3 q (4 * c + 4))
               (m1 ! (c - 1)) (m2 ! (c - 1)) (m1 ! c) (m2 ! c) (0, 0) (voronoiRefLen ! c) EI None)
             = replicate 11 0"
      by (rule gradEb_straight) (rule straight_tangents [OF st c1 c2])
    have len: "length [4 * c - 4..<4 * c + 7] = 11" using c1 by simp
    have idx: "c < length voronoiRefLen" "c < length kappaBar" "c - 1 < length m1"
      "c - 1 < length m2" "c < length m1" "c < length m2"
      using c2 vor kb(1) m by simp_all
    show "\<exists>t'. getFb_step q m1 m2 kappaBar EI voronoiRefLen c t = Inr t'
               \<and> fst t' = replicate (length q) 0"
      using idx g kb(2) [OF c2]
      by (simp add: getFb_step_def Let_def bindE_def nth_err_def case_prod_beta
          sub_at_replicate [OF len] t)
  qed
  then show ?thesis
    by (auto simp: getFb_def Let_def)
qed

lemma getFt_rest:
  assumes th: "twist_angles_zero q"
    and vor: "ne_of q \<le> length voronoiRefLen"
    and rt: "ne_of q \<le> length refTwist" "\<And>c. c < ne_of q \<Longrightarrow> refTwist ! c = 0"
    and tb: "ne_of q \<le> length twistBar" "\<And>c. c < ne_of q \<Longrightarrow> twistBar ! c = 0"
  shows "\<exists>Jt. getFt q refTwist twistBar GJ voronoiRefLen = Inr (replicate (length q) 0, Jt)"
proof -
  have "\<exists>s'. foldE (getFt_step q refTwist twistBar GJ voronoiRefLen) [1..<ne_of q]
                (replicate (length q) 0, zeros_mat) = Inr s'
              \<and> fst s' = replicate (length q) 0"
  proof (rule foldE_returns_invariant)
    show "fst (replicate (length q) (0::real), zeros_mat) = replicate (length q) 0" by simp
  next
    fix c and t :: "real list \<times> mat"
    assume c: "c \<in> set [1..<ne_of q]" and t: "fst t = replicate (length q) (0::real)"
    then have c1: "1 \<le> c" and c2: "c < ne_of q" by simp_all
    have in_q: "4 * c + 3 < length q" using c2 by (simp add: ne_of_def)
    obtain c' where c': "c = Suc c'" using c1 by (cases c) auto
    have i1: "4 * c - 1 = 4 * c' + 3" using c' by simp
    have i2: "4 * c' + 3 < length q" using in_q c' by simp
    have e: "q ! (4 * c - 1) = 0"
      unfolding i1 using th i2 unfolding twist_angles_zero_def by blast
    have f: "q ! (4 * c + 3) = 0"
      using th in_q by (simp add: twist_angles_zero_def)
    have z: "q ! (4 * c + 3) - q ! (4 * c - 1) + refTwist ! c - twistBar ! c = 0"
      using e f rt(2) [OF c2] tb(2) [OF c2] by simp
    have g: "fst (gradEt_hessEt (slice3 q (4 * c - 4)) (slice3 q (4 * c)) (slice3 q (4 * c + 4))
               (q ! (4 * c - 1)) (q ! (4 * c + 3)) (refTwist ! c) (twistBar ! c)
               (voronoiRefLen ! c) GJ) = replicate 11 0"
      by (rule gradEt_rest) (rule z)
    have len: "length [4 * c - 4..<4 * c + 7] = 11" using c1 by simp
    have idx: "c < length voronoiRefLen" "c < length refTwist" "c < length twistBar"
      using c2 vor rt(1) tb(1) by simp_all
    show "\<exists>t'. getFt_step q refTwist twistBar GJ voronoiRefLen c t = Inr t'
               \<and> fst t' = replicate (length q) 0"
      using idx g
      by (simp add: getFt_step_def Let_def bindE_def nth_err_def case_prod_beta
          sub_at_replicate [OF len] t)
  qed
  then show ?thesis
    by (auto simp: getFt_def Let_def)
qed

lemma getFs_rest:
  assumes st: "edges_nonzero q" and rl: "at_rest_length q refLen"
  shows "\<exists>Js. getFs q EA refLen = Inr (replicate (length q) 0, Js)"
proof -
  have "\<exists>s'. foldE (getFs_step q EA refLen) [0..<ne_of q]
                (replicate (length q) 0, zeros_mat) = Inr s'
              \<and> fst s' = replicate (length q) 0"
  proof (rule foldE_returns_invariant)
    show "fst (replicate (length q) (0::real), zeros_mat) = replicate (length q) 0" by simp
  next
    fix c and t :: "real list \<times> mat"
    assume c: "c \<in> set [0..<ne_of q]" and t: "fst t = replicate (length q) (0::real)"
    then have c2: "c < ne_of q" by simp
    have n: "norm3 (vsub (slice3 q (4 * c + 4)) (slice3 q (4 * c))) = refLen ! c"
      using rl c2 by (simp add: at_rest_length_def)
    have "vsub (slice3 q (4 * c + 4)) (slice3 q (4 * c)) \<noteq> (0, 0, 0)"
      using st c2 by (simp add: edges_nonzero_def vsub_eq_zero_iff)
    then have nz: "refLen ! c \<noteq> 0"
      using n by (simp add: norm3_eq_zero [symmetric])
    have g: "fst (gradEs_hessEs (slice3 q (4 * c)) (slice3 q (4 * c + 4)) (refLen ! c) EA)
              = replicate 6 0"
      using n nz by (rule gradEs_rest)
    have idx: "c < length refLen" using rl c2 by (simp add: at_rest_length_def)
    have sa: "sub_at [4 * c, 4 * c + 1, 4 * c + 2, 4 * c + 4, 4 * c + 5, 4 * c + 6]
                (replicate 6 0) (replicate (length q) 0) = replicate (length q) 0"
      by (rule sub_at_replicate) simp
    show "\<exists>t'. getFs_step q EA refLen c t = Inr t' \<and> fst t' = replicate (length q) 0"
      using idx g sa
      by (simp add: getFs_step_def Let_def bindE_def nth_err_def case_prod_beta t)
  qed
  then show ?thesis
    by (auto simp: getFs_def Let_def)
qed

lemma time_loop_values:
  assumes len0: "ne \<le> length tangent0" and lena: "ne \<le> length a1_old" and k: "k \<le> ne"
  shows "\<exists>a1 a2. foldE (time_step a1_old tangent0 tangent) [0..<k]
               (replicate ne (0, 0, 0), replicate ne (0, 0, 0)) = Inr (a1, a2)
             \<and> length a1 = ne \<and> length a2 = ne
             \<and> (\<forall>c<k. a1 ! c =
                   (let a1_tmp = parallel_transport (a1_old ! c) (tangent0 ! c) (tangent ! c);
                        v = vsub a1_tmp (smul (dot a1_tmp (tangent ! c)) (tangent ! c))
                    in vdiv v (norm3 v)))"
  using k
proof (induction k)
  case 0
  then show ?case by simp
next
  case (Suc k)
  then have kne: "k < ne" by simp
  from Suc.IH kne obtain a1 a2 where
    r: "foldE (time_step a1_old tangent0 tangent) [0..<k]
          (replicate ne (0, 0, 0), replicate ne (0, 0, 0)) = Inr (a1, a2)"
    and len: "length a1 = ne" "length a2 = ne"
    and val: "\<And>c. c < k \<Longrightarrow> a1 ! c =
                   (let a1_tmp = parallel_transport (a1_old ! c) (tangent0 ! c) (tangent ! c);
                        v = vsub a1_tmp (smul (dot a1_tmp (tangent ! c)) (tangent ! c))
                    in vdiv v (norm3 v))"
    by auto
  define v where "v = (let a = parallel_transport (a1_old ! k) (tangent0 ! k) (tangent ! k);
                           w = vsub a (smul (dot a (tangent ! k)) (tangent ! k))
                       in vdiv w (norm3 w))"
  have step: "time_step a1_old tangent0 tangent k (a1, a2)
               = Inr (a1[k := v], a2[k := cross (tangent ! k) v])"
    using kne len0 lena by (simp add: time_step_def bindE_def nth_err_def Let_def v_def)
  have "\<forall>c<Suc k. a1[k := v] ! c =
                   (let a1_tmp = parallel_transport (a1_old ! c) (tangent0 ! c) (tangent ! c);
                        v = vsub a1_tmp (smul (dot a1_tmp (tangent ! c)) (tangent ! c))
                    in vdiv v (norm3 v))"
    using len kne val by (auto simp: nth_list_update less_Suc_eq v_def)
  then show ?case
    using len by (simp add: foldE_snoc r bindE_def step)
qed

lemma computeTimeParallel_uniform:
  assumes st: "straight q" and a: "ne_of q \<le> length a1_old"
    "\<And>c. Suc c < ne_of q \<Longrightarrow> a1_old ! c = a1_old ! Suc c"
  shows "\<exists>a1 a2. computeTimeParallel a1_old q q = Inr (a1, a2)
           \<and> length a1 = ne_of q \<and> length a2 = ne_of q
           \<and> (\<forall>c. Suc c < ne_of q \<longrightarrow> a1 ! c = a1 ! Suc c)"
proof -
  from time_loop_values [of "ne_of q" "computeTangent q" a1_old "ne_of q" "computeTangent q"] a(1)
  obtain a1 a2 where
    r: "foldE (time_step a1_old (computeTangent q) (computeTangent q)) [0..<ne_of q]
               (replicate (ne_of q) (0, 0, 0), replicate (ne_of q) (0, 0, 0)) = Inr (a1, a2)"
    and len: "length a1 = ne_of q" "length a2 = ne_of q"
    and val: "\<And>c. c < ne_of q \<Longrightarrow> a1 ! c =
                   (let a1_tmp = parallel_transport (a1_old ! c) (computeTangent q ! c) (computeTangent q ! c);
                        v = vsub a1_tmp (smul (dot a1_tmp (computeTangent q ! c)) (computeTangent q ! c))
                    in vdiv v (norm3 v))"
    by (auto simp: length_computeTangent)
  have "a1 ! c = a1 ! Suc c" if "Suc c < ne_of q" for c
  proof -
    have t: "computeTangent q ! c = computeTangent q ! Suc c"
      using st that by (simp add: straight_def)
    have "c < ne_of q" using that by simp
    from val [OF this] val [OF that] show ?thesis
      by (simp add: t a(2) [OF that])
  qed
  with r len show ?thesis
    by (auto simp: computeTimeParallel_def Let_def)
qed

lemma parallel_transport_same: "parallel_transport u t t = u"
  by (simp add: parallel_transport_def cross_self norm3_zero)

lemma signedAngle_same: "signedAngle u u t = 0"
proof -
  have "arctan2 0 (dot u u) = 0"
    using dot_self_nonneg [of u] by (simp add: arctan2_def)
  then show ?thesis
    by (simp add: signedAngle_def Let_def cross_self norm3_zero)
qed

lemma computeReferenceTwist_same: "computeReferenceTwist u u t t (Some 0) = 0"
  by (simp add: computeReferenceTwist_def Let_def parallel_transport_same rotateAxisAngle_def
      signedAngle_same)

lemma getRefTwist_uniform:
  assumes a: "\<And>c. Suc c < length a1 \<Longrightarrow> a1 ! c = a1 ! Suc c"
    and t: "length a1 \<le> length tangent" "\<And>c. Suc c < length a1 \<Longrightarrow> tangent ! c = tangent ! Suc c"
    and rt: "length a1 \<le> length refTwist" "\<And>c. c < length a1 \<Longrightarrow> refTwist ! c = 0"
  shows "\<exists>rt'. getRefTwist a1 tangent refTwist = Inr rt' \<and> length rt' = length refTwist
               \<and> (\<forall>c<length a1. rt' ! c = 0)"
proof -
  have "\<exists>s'. foldE (getRefTwist_step a1 tangent) [1..<length a1] refTwist = Inr s'
              \<and> (length s' = length refTwist \<and> (\<forall>c<length a1. s' ! c = 0))"
  proof (rule foldE_returns_invariant)
    show "length refTwist = length refTwist \<and> (\<forall>c<length a1. refTwist ! c = 0)"
      using rt(2) by simp
  next
    fix c and r :: "real list"
    assume c: "c \<in> set [1..<length a1]"
      and inv: "length r = length refTwist \<and> (\<forall>c<length a1. r ! c = 0)"
    from c have cb: "1 \<le> c" "c < length a1" by simp_all
    then obtain c' where c': "c = Suc c'" and c2: "Suc c' < length a1"
      by (cases c) auto
    have idx: "c' < length tangent" "Suc c' < length tangent" "Suc c' < length r"
      using c2 t(1) rt(1) inv by simp_all
    have r0: "r ! Suc c' = 0" using inv c2 by simp
    have val: "computeReferenceTwist (a1 ! c') (a1 ! Suc c') (tangent ! c') (tangent ! Suc c')
                 (Some 0) = 0"
      unfolding a [OF c2] t(2) [OF c2] by (rule computeReferenceTwist_same)
    have "getRefTwist_step a1 tangent c r = Inr (r[Suc c' := 0])"
      using idx by (simp add: getRefTwist_step_def Let_def bindE_def nth_err_def c' r0 val)
    moreover have "length (r[Suc c' := 0]) = length refTwist
                   \<and> (\<forall>c<length a1. r[Suc c' := 0] ! c = 0)"
      using inv idx by (auto simp: nth_list_update)
    ultimately show "\<exists>t'. getRefTwist_step a1 tangent c r = Inr t'
                  \<and> (length t' = length refTwist \<and> (\<forall>c<length a1. t' ! c = 0))"
      by blast
  qed
  then show ?thesis by (simp add: getRefTwist_def Let_def)
qed

lemma computeMaterialFrame_returns:
  assumes "length theta \<le> length a1" "length theta \<le> length a2"
  shows "\<exists>m1 m2. computeMaterialFrame a1 a2 theta = Inr (m1, m2)
           \<and> length m1 = length theta \<and> length m2 = length theta"
proof -
  have "\<exists>s'. foldE (computeMaterialFrame_step a1 a2 theta) [0..<length theta]
               (replicate (length theta) (0, 0, 0), replicate (length theta) (0, 0, 0)) = Inr s'
             \<and> (length (fst s') = length theta \<and> length (snd s') = length theta)"
  proof (rule foldE_returns_invariant)
    show "length (fst (replicate (length theta) (0 :: real, 0 :: real, 0 :: real),
                       replicate (length theta) (0 :: real, 0 :: real, 0 :: real))) = length theta
        \<and> length (snd (replicate (length theta) (0 :: real, 0 :: real, 0 :: real),
                       replicate (length theta) (0 :: real, 0 :: real, 0 :: real))) = length theta"
      by simp
  next
    fix c and s :: "vec3 list \<times> vec3 list"
    assume "c \<in> set [0..<length theta]"
      and "length (fst s) = length theta \<and> length (snd s) = length theta"
    then show "\<exists>t'. computeMaterialFrame_step a1 a2 theta c s = Inr t'
               \<and> (length (fst t') = length theta \<and> length (snd t') = length theta)"
      using assms
      by (cases s) (simp add: computeMaterialFrame_step_def bindE_def nth_err_def)
  qed
  then show ?thesis by (auto simp: computeMaterialFrame_def Let_def)
qed

lemma bc2_zeros: "bc2 (+) (replicate n 0) (replicate n 0) = Inr (replicate n 0)"
  by (simp add: bc2_def zip_replicate map_replicate_const)

lemma bc2_minus_self: "bc2 (-) q q = Inr (replicate (length q) 0)"
  by (simp add: bc2_def zip_same_conv_map comp_def map_replicate_const)

lemma bc2_minus_zeros: "bc2 (-) (replicate n 0) (replicate n 0) = Inr (replicate n 0)"
  by (simp add: bc2_def zip_replicate map_replicate_const)

lemma bc2_times_zeros:
  "length m = n \<Longrightarrow> bc2 (*) m (replicate n 0) = Inr (replicate n 0)"
  by (simp add: bc2_def zip_replicate2 map_replicate_const comp_def)

lemma bc2_minus_zeros_right:
  "length xs = n \<Longrightarrow> bc2 (-) xs (replicate n 0) = Inr xs"
  by (simp add: bc2_def zip_replicate2 comp_def)

lemma map_div_zeros: "map (\<lambda>x. x / c) (replicate n (0 :: real)) = replicate n 0"
  by simp

lemma take_at_zeros:
  "\<forall>i \<in> set ind. i < n \<Longrightarrow> take_at (replicate n 0) ind = Inr (replicate (length ind) 0)"
  by (auto simp: take_at_def map_replicate_const intro!: replicate_eqI)

lemma put_at_same: "put_at ind (map (\<lambda>i. q ! i) ind) q = q"
proof -
  have "fold (\<lambda>(i, v) q. q[i := v]) (zip ind (map (\<lambda>i. q ! i) ind)) q = q"
  proof (induction ind)
    case Nil
    then show ?case by simp
  next
    case (Cons i ind)
    then show ?case by simp
  qed
  then show ?thesis by (simp add: put_at_def)
qed

lemma sum_list_times_zeros:
  "sum_list (map (\<lambda>(a, x). a * x) (zip as (replicate n (0 :: real)))) = 0"
  by (simp add: zip_replicate2 comp_def)

lemma find_pivot_Some: "find_pivot A = Some p \<Longrightarrow> p < length A"
proof -
  assume a: "find_pivot A = Some p"
  then obtain ps where "filter (\<lambda>p. A ! p ! 0 \<noteq> 0) [0..<length A] = p # ps"
    by (auto simp: find_pivot_def split: list.splits)
  then have "p \<in> set (filter (\<lambda>p. A ! p ! 0 \<noteq> 0) [0..<length A])"
    by (simp only: list.set_intros)
  then show ?thesis by simp
qed

lemma length_others:
  assumes "p < n"
  shows "length (filter (\<lambda>i. i \<noteq> p) [0..<n]) = n - 1"
proof -
  have "length (filter (\<lambda>i. i \<noteq> p) [0..<n]) = card ({i. i \<noteq> p} \<inter> set [0..<n])"
    by (rule distinct_length_filter) simp
  also have "{i. i \<noteq> p} \<inter> set [0..<n] = {..<n} - {p}" by auto
  also have "card ({..<n} - {p}) = n - 1" using assms by simp
  finally show ?thesis .
qed

lemma solve_n_zero:
  assumes "length A = n"
  shows "solve_n n A (replicate n 0) = Inr (replicate n 0)
         \<or> solve_n n A (replicate n 0) = Inl LinAlgError"
  using assms
proof (induction n arbitrary: A)
  case 0
  then show ?case by simp
next
  case (Suc n)
  show ?case
  proof (cases "find_pivot A")
    case None
    then show ?thesis by simp
  next
    case (Some p)
    have p: "p < Suc n" using find_pivot_Some [OF Some] Suc.prems by simp
    let ?others = "filter (\<lambda>i. i \<noteq> p) [0..<length A]"
    let ?red = "map (\<lambda>i. eliminate (A ! p) (replicate (Suc n) 0 ! p) (A ! i, replicate (Suc n) 0 ! i))
                  ?others"
    have lo: "length ?others = n" using length_others [OF p] Suc.prems by simp
    have bp: "replicate (Suc n) (0 :: real) ! p = 0" using p by (simp only: nth_replicate)
    have sn: "snd (eliminate (A ! p) 0 (A ! i, 0)) = 0" for i
      by (simp add: eliminate_def Let_def)
    have "map snd ?red = map (\<lambda>i. 0) ?others"
      unfolding map_map
    proof (rule map_cong [OF refl])
      fix i assume "i \<in> set ?others"
      then have "i \<in> set [0..<length A]" by (simp only: set_filter) simp
      then have "i < Suc n" using Suc.prems by (simp del: upt_Suc)
      then have "replicate (Suc n) (0 :: real) ! i = 0" by (simp only: nth_replicate)
      then show "(snd \<circ> (\<lambda>i. eliminate (A ! p) (replicate (Suc n) 0 ! p)
                        (A ! i, replicate (Suc n) 0 ! i))) i = 0"
        by (simp only: comp_def bp sn)
    qed
    then have zeros: "map snd ?red = replicate n 0"
      by (simp add: map_replicate_const lo)
    have lr: "length (map fst ?red) = n" by (simp add: lo)
    have unfold: "solve_n (Suc n) A (replicate (Suc n) 0) =
        bindE (solve_n n (map fst ?red) (replicate n 0)) (\<lambda>xs.
          Inr ((replicate (Suc n) 0 ! p
                - sum_list (map (\<lambda>(a, x). a * x) (zip (tl (A ! p)) xs))) / hd (A ! p) # xs))"
      by (simp only: solve_n.simps Some option.case Let_def zeros)
    from Suc.IH [OF lr] show ?thesis
    proof
      assume "solve_n n (map fst ?red) (replicate n 0) = Inr (replicate n 0)"
      then have "solve_n (Suc n) A (replicate (Suc n) 0) = Inr (replicate (Suc n) 0)"
        unfolding unfold bp by (simp add: bindE_def sum_list_times_zeros)
      then show ?thesis ..
    next
      assume "solve_n n (map fst ?red) (replicate n 0) = Inl LinAlgError"
      then have "solve_n (Suc n) A (replicate (Suc n) 0) = Inl LinAlgError"
        unfolding unfold by (simp add: bindE_def)
      then show ?thesis ..
    qed
  qed
qed

lemma solve_zero:
  "solve (map (\<lambda>i. map (\<lambda>j. J i j) ind) ind) (replicate (length ind) 0)
     = Inr (replicate (length ind) 0)
   \<or> solve (map (\<lambda>i. map (\<lambda>j. J i j) ind) ind) (replicate (length ind) 0) = Inl LinAlgError"
  unfolding solve_def length_replicate
  by (rule solve_n_zero) simp

lemma theta_length:
  assumes "length q mod 4 = 3"
  shows "length (theta_of q) = ne_of q"
  using assms by (simp add: theta_of_def ne_of_def) presburger

lemma sum_abs_zeros: "sum_list (map abs (replicate n (0 :: real))) = 0"
  by (simp add: map_replicate_const sum_list_replicate)

lemma take_at_in_range:
  "\<forall>i \<in> set ind. i < length q \<Longrightarrow> take_at q ind = Inr (map (\<lambda>i. q ! i) ind)"
  by (simp add: take_at_def)

lemma map_nth_zeros:
  "\<forall>i \<in> set ind. i < n \<Longrightarrow> map ((!) (replicate n (0 :: real))) ind = replicate (length ind) 0"
  by (auto intro!: replicate_eqI)

lemma newton_iter_rest:
  assumes q0: "p_q0 P = q"
    and vl: "length q mod 4 = 3"
    and st: "straight q"
    and th: "twist_angles_zero q"
    and rl: "at_rest_length q (p_refLen P)"
    and fr: "frame_untwisted q (p_a1 P) rt"
    and kb: "ne_of q \<le> length (p_kappaBar P)" "\<And>c. c < ne_of q \<Longrightarrow> p_kappaBar P ! c = (0, 0)"
    and tb: "ne_of q \<le> length (p_twistBar P)" "\<And>c. c < ne_of q \<Longrightarrow> p_twistBar P ! c = 0"
    and vor: "ne_of q \<le> length (p_voronoiRefLen P)"
    and u: "p_u P = replicate (length q) 0"
    and Fg: "p_Fg P = replicate (length q) 0"
    and mass: "length (p_massVector P) = length q"
    and free: "\<forall>i \<in> set (p_freeIndex P). i < length q"
  shows "(\<exists>rt' a b. newton_iter P q rt = Inr (q, rt', 0, a, b))
         \<or> newton_iter P q rt = Inl LinAlgError"
proof -
  let ?n = "length q"
  let ?free = "p_freeIndex P"
  from fr have fr1: "ne_of q \<le> length (p_a1 P)"
    and fr2: "\<And>c. Suc c < ne_of q \<Longrightarrow> p_a1 P ! c = p_a1 P ! Suc c"
    and fr3: "ne_of q \<le> length rt" and fr4: "\<And>c. c < ne_of q \<Longrightarrow> rt ! c = 0"
    by (simp_all add: frame_untwisted_def)
  from computeTimeParallel_uniform [OF st fr1 fr2]
  obtain a1I a2I where tp: "computeTimeParallel (p_a1 P) q q = Inr (a1I, a2I)"
    and la: "length a1I = ne_of q" "length a2I = ne_of q"
    and ua: "\<And>c. Suc c < ne_of q \<Longrightarrow> a1I ! c = a1I ! Suc c"
    by blast
  have "\<exists>rt'. getRefTwist a1I (computeTangent q) rt = Inr rt' \<and> length rt' = length rt
               \<and> (\<forall>c<length a1I. rt' ! c = 0)"
  proof (rule getRefTwist_uniform)
    show "a1I ! c = a1I ! Suc c" if "Suc c < length a1I" for c
      using that ua la by simp
    show "length a1I \<le> length (computeTangent q)"
      by (simp add: la length_computeTangent)
    show "computeTangent q ! c = computeTangent q ! Suc c" if "Suc c < length a1I" for c
      using that st la by (simp add: straight_def)
    show "length a1I \<le> length rt" using fr3 la by simp
    show "rt ! c = 0" if "c < length a1I" for c using that fr4 la by simp
  qed
  then obtain rt' where rtw: "getRefTwist a1I (computeTangent q) rt = Inr rt'"
    and lrt: "length rt' = length rt" and zrt: "\<And>c. c < ne_of q \<Longrightarrow> rt' ! c = 0"
    using la by auto
  have lth: "length (theta_of q) = ne_of q" using vl by (rule theta_length)
  from computeMaterialFrame_returns [of "theta_of q" a1I a2I]
  obtain m1 m2 where mf: "computeMaterialFrame a1I a2I (theta_of q) = Inr (m1, m2)"
    and lm: "length m1 = ne_of q" "length m2 = ne_of q"
    using lth la by auto
  from getFb_straight [OF st vor kb, of m1 m2 "p_EI P"] lm
  obtain Jb where fb: "getFb q m1 m2 (p_kappaBar P) (p_EI P) (p_voronoiRefLen P)
                         = Inr (replicate ?n 0, Jb)"
    by auto
  from getFt_rest [OF th vor _ zrt tb, of "p_GJ P"] fr3 lrt
  obtain Jt where ft: "getFt q rt' (p_twistBar P) (p_GJ P) (p_voronoiRefLen P)
                         = Inr (replicate ?n 0, Jt)"
    by auto
  from st have en: "edges_nonzero q" by (simp add: straight_def)
  from getFs_rest [OF en rl, of "p_EA P"]
  obtain Js where fs: "getFs q (p_EA P) (p_refLen P) = Inr (replicate ?n 0, Js)"
    by auto
  let ?J = "msub (mdivs (p_mMat P) ((p_dt P)\<^sup>2)) (madd (madd Jb Jt) Js)"
  have mlen: "length (map (\<lambda>x. x / p_dt P) (p_massVector P)) = ?n" using mass by simp
  have it: "newton_iter P q rt =
      bindE (solve (map (\<lambda>i. map (\<lambda>j. ?J i j) ?free) ?free) (replicate (length ?free) 0))
        (\<lambda>dq_free. bindE (bc2 (-) (map (\<lambda>i. q ! i) ?free) dq_free) (\<lambda>q_new.
           Inr (put_at ?free q_new q, rt', 0, a1I, a2I)))"
    by (simp add: newton_iter_def q0 tp rtw mf fb ft fs u Fg bindE_def Let_def bc2_zeros
        bc2_minus_self bc2_minus_zeros bc2_times_zeros [OF mlen] take_at_zeros free
        take_at_in_range sum_abs_zeros map_nth_zeros sum_list_replicate split: sum.splits)
  from solve_zero [of ?J ?free] show ?thesis
  proof
    assume "solve (map (\<lambda>i. map (\<lambda>j. ?J i j) ?free) ?free) (replicate (length ?free) 0)
              = Inr (replicate (length ?free) 0)"
    then have "newton_iter P q rt = Inr (q, rt', 0, a1I, a2I)"
      unfolding it by (simp add: bindE_def bc2_minus_zeros_right put_at_same)
    then show ?thesis by blast
  next
    assume "solve (map (\<lambda>i. map (\<lambda>j. ?J i j) ?free) ?free) (replicate (length ?free) 0)
              = Inl LinAlgError"
    then have "newton_iter P q rt = Inl LinAlgError"
      unfolding it by (simp add: bindE_def)
    then show ?thesis ..
  qed
qed

end
